(* ===== verification/Vhci_Prelude.thy ===== *)
theory Vhci_Prelude
  imports Main "HOL-Library.Word"
begin

text \<open>
  What every theory of the development shares: the C types of the driver at their width, the
  collections of facts the component proofs use, and the arithmetic of a 32-bit counter that
  follows the length of a list.
\<close>

section \<open>Machine types\<close>

text \<open>
  The driver is built for x64 and ARM64, so pointers and \<open>size_t\<close> are 64 bits wide.
  \<open>LONG\<close> and \<open>NTSTATUS\<close> are 32-bit words read as two's complement.
\<close>

type_synonym UCHAR = "8 word"
type_synonym ULONG = "32 word"
type_synonym LONG = "32 word"
type_synonym SIZE_T = "64 word"
type_synonym ULONG_PTR = "64 word"
type_synonym PVOID = "64 word"

abbreviation NULL :: PVOID where
  "NULL \<equiv> 0"

section \<open>Collections\<close>

named_theorems region_inv "the regions of the handlers keep the invariant"
named_theorems pool_simps "what the regions do to the balance of the packet pool"
named_theorems settled_simps "what the regions do to the requests already settled"
named_theorems calm_simps "regions that create, destroy and purge nothing"
named_theorems ctx_simps "what the helpers do to the fields of the device context"

section \<open>A 32-bit counter beside a list\<close>

text \<open>
  The driver keeps a \<open>ULONG\<close> beside each backlog. The counter is the length modulo
  \<open>2 ^ 32\<close>, whatever the length is. A peak is updated with
  \<open>if (count > peak) peak = count;\<close>. It bounds the length of the list for as long as the counter
  has not wrapped, and sits at the largest \<open>ULONG\<close> from then on.
\<close>

definition peak_ok :: "'a list \<Rightarrow> ULONG \<Rightarrow> bool" where
  "peak_ok xs pk \<longleftrightarrow> min (length xs) (2 ^ 32 - 1) \<le> unat pk"

lemma peak_ok_Nil [simp]: "peak_ok [] pk"
  by (simp add: peak_ok_def)

lemma peak_ok_Cons: "peak_ok (x # xs) pk \<Longrightarrow> peak_ok xs pk"
  by (simp add: peak_ok_def)

lemma peak_ok_count_le:
  assumes "peak_ok xs pk"
  shows "(of_nat (length xs) :: ULONG) \<le> pk"
proof (cases "length xs < 2 ^ 32")
  case True
  then have "unat (of_nat (length xs) :: ULONG) = length xs"
    by (simp add: unat_of_nat take_bit_nat_eq_self)
  with assms True show ?thesis
    by (simp add: peak_ok_def word_le_nat_alt)
next
  case False
  with assms have "2 ^ 32 - 1 \<le> unat pk"
    by (simp add: peak_ok_def)
  moreover have "unat (of_nat (length xs) :: ULONG) < 2 ^ 32"
    using unsigned_less [of "of_nat (length xs) :: ULONG"] by simp
  ultimately show ?thesis
    by (simp add: word_le_nat_alt)
qed

lemma peak_ok_snoc:
  assumes "peak_ok xs pk" and n: "n = (of_nat (length xs) + 1 :: ULONG)"
  shows "peak_ok (xs @ [x]) (if pk < n then n else pk)"
proof (cases "length xs < 2 ^ 32 - 1")
  case True
  have "n = of_nat (Suc (length xs))"
    using n by simp
  with True have "unat n = Suc (length xs)"
    by (simp only: unat_of_nat) (simp add: take_bit_nat_eq_self)
  then show ?thesis
    by (auto simp: peak_ok_def word_less_nat_alt not_less)
next
  case False
  with assms(1) have "2 ^ 32 - 1 \<le> unat pk"
    by (simp add: peak_ok_def)
  then show ?thesis
    by (auto simp: peak_ok_def word_less_nat_alt)
qed

end
