(* ===== verification/Kernel_Memory.thy ===== *)
theory Kernel_Memory
  imports Vhci_Prelude
begin

unbundle bit_operations_syntax

text \<open>
  Byte-addressed memory, as far as the driver dereferences pointers: the system buffers of
  buffered transfers and the raw \<open>METHOD_NEITHER\<close> pointers of the BTHX requests. Addresses
  are 64-bit words, so an address range is allowed to wrap; a range is the set of addresses
  whose distance from its base is below its length.

  The packed context of a BTHX read or write (\<open>winvhci.h\<close>, "The BTHX read/write context is
  pragma pack(1)") is laid out here: \<open>ULONG DataLen\<close> at offset 0, \<open>UCHAR Type\<close> at 4 and the
  payload from 5. Both targets are little-endian.
\<close>

section \<open>Bytes\<close>

type_synonym memory = "PVOID \<Rightarrow> UCHAR"

fun load_bytes :: "memory \<Rightarrow> PVOID \<Rightarrow> nat \<Rightarrow> UCHAR list" where
  "load_bytes m a 0 = []"
| "load_bytes m a (Suc n) = m a # load_bytes m (a + 1) n"

lemma load_bytes_numeral:
  "load_bytes m a (numeral k) = m a # load_bytes m (a + 1) (pred_numeral k)"
  by (simp add: numeral_eq_Suc)

fun store_bytes :: "memory \<Rightarrow> PVOID \<Rightarrow> UCHAR list \<Rightarrow> memory" where
  "store_bytes m a [] = m"
| "store_bytes m a (b # bs) = store_bytes (m(a := b)) (a + 1) bs"

text \<open>The address \<open>p\<close> lies in the \<open>n\<close> bytes from \<open>a\<close>.\<close>

definition in_range :: "PVOID \<Rightarrow> nat \<Rightarrow> PVOID \<Rightarrow> bool" where
  "in_range a n p \<longleftrightarrow> unat (p - a) < n"

lemma length_load_bytes [simp]: "length (load_bytes m a n) = n"
  by (induction n arbitrary: a) simp_all

lemma unat_pred:
  fixes p :: PVOID
  assumes "p \<noteq> 0"
  shows "unat p = Suc (unat (p - 1))"
  using assms by (simp add: unat_minus_one unat_gt_0)

lemma in_range_0 [simp]: "\<not> in_range a 0 p"
  by (simp add: in_range_def)

lemma in_range_Suc:
  assumes "Suc n \<le> 2 ^ 64"
  shows "in_range a (Suc n) p \<longleftrightarrow> p = a \<or> in_range (a + 1) n p"
proof (cases "p = a")
  case True
  then show ?thesis by (simp add: in_range_def)
next
  case False
  then have "unat (p - a) = Suc (unat (p - (a + 1)))"
    using unat_pred [of "p - a"] by (simp add: algebra_simps)
  with False show ?thesis by (simp add: in_range_def)
qed

lemma not_in_later_range:
  assumes "n < 2 ^ 64"
  shows "\<not> in_range (a + 1) n a"
proof -
  have "a - (a + 1) = (- 1 :: PVOID)"
    by simp
  then have "unat (a - (a + 1)) = 2 ^ 64 - 1"
    by (simp add: unsigned_minus_1_eq_mask mask_eq_exp_minus_1)
  with assms show ?thesis by (simp add: in_range_def)
qed

lemma in_range_mono: "in_range a n p \<Longrightarrow> n \<le> k \<Longrightarrow> in_range a k p"
  by (simp add: in_range_def)

text \<open>A store writes its range and nothing else.\<close>

lemma store_bytes_outside:
  "length bs \<le> 2 ^ 64 \<Longrightarrow> \<not> in_range a (length bs) p \<Longrightarrow> store_bytes m a bs p = m p"
proof (induction bs arbitrary: m a)
  case (Cons b bs)
  then have "p \<noteq> a" and "\<not> in_range (a + 1) (length bs) p"
    by (simp_all add: in_range_Suc)
  with Cons show ?case by simp
qed simp

lemma load_store_same:
  "length bs \<le> 2 ^ 64 \<Longrightarrow> load_bytes (store_bytes m a bs) a (length bs) = bs"
proof (induction bs arbitrary: m a)
  case (Cons b bs)
  then have "store_bytes (m(a := b)) (a + 1) bs a = b"
    by (simp add: store_bytes_outside not_in_later_range)
  with Cons show ?case by simp
qed simp

lemma store_bytes_append:
  "store_bytes m a (xs @ ys) = store_bytes (store_bytes m a xs) (a + of_nat (length xs)) ys"
  by (induction xs arbitrary: m a) (simp_all add: algebra_simps)

lemma load_bytes_add:
  "load_bytes m a (n + k) = load_bytes m a n @ load_bytes m (a + of_nat n) k"
  by (induction n arbitrary: a) (simp_all add: algebra_simps)

section \<open>Little-endian ULONG\<close>

definition ulong_bytes :: "ULONG \<Rightarrow> UCHAR list" where
  "ulong_bytes v = [ucast v, ucast (drop_bit 8 v), ucast (drop_bit 16 v), ucast (drop_bit 24 v)]"

definition bytes_ulong :: "UCHAR list \<Rightarrow> ULONG" where
  "bytes_ulong bs =
     (case bs of
        [b0, b1, b2, b3] \<Rightarrow>
          ucast b0 OR push_bit 8 (ucast b1) OR push_bit 16 (ucast b2) OR push_bit 24 (ucast b3)
      | _ \<Rightarrow> 0)"

definition load_ulong :: "memory \<Rightarrow> PVOID \<Rightarrow> ULONG" where
  "load_ulong m a = bytes_ulong (load_bytes m a 4)"

lemma length_ulong_bytes [simp]: "length (ulong_bytes v) = 4"
  by (simp add: ulong_bytes_def)

lemma bytes_ulong_bytes [simp]: "bytes_ulong (ulong_bytes v) = v"
proof (rule bit_word_eqI)
  fix n
  assume "n < LENGTH(32)"
  then have n: "n < 32" by simp
  consider "n < 8" | "8 \<le> n" "n < 16" | "16 \<le> n" "n < 24" | "24 \<le> n"
    by linarith
  then show "bit (bytes_ulong (ulong_bytes v)) n = bit v n"
    using n by cases (auto simp: bytes_ulong_def ulong_bytes_def bit_simps)
qed

text \<open>Consecutive little-endian words.\<close>

fun load_ulongs :: "memory \<Rightarrow> PVOID \<Rightarrow> nat \<Rightarrow> ULONG list" where
  "load_ulongs m a 0 = []"
| "load_ulongs m a (Suc n) = load_ulong m a # load_ulongs m (a + 4) n"

lemma load_ulongs_bytes:
  "load_bytes m a (4 * length vs) = concat (map ulong_bytes vs) \<Longrightarrow>
   load_ulongs m a (length vs) = vs"
proof (induction vs arbitrary: a)
  case (Cons v vs)
  have "load_bytes m a 4 @ load_bytes m (a + 4) (4 * length vs) =
      ulong_bytes v @ concat (map ulong_bytes vs)"
    using Cons.prems load_bytes_add [of m a 4 "4 * length vs"] by simp
  then have "load_bytes m a 4 = ulong_bytes v"
    "load_bytes m (a + 4) (4 * length vs) = concat (map ulong_bytes vs)"
    using append_eq_append_conv [of "load_bytes m a 4" "ulong_bytes v"] by auto
  then show ?case
    by (simp add: load_ulong_def Cons.IH)
qed simp

text \<open>
  What a store leaves at every address, which decides when two stores commute.
\<close>

lemma store_bytes_at:
  "length bs \<le> 2 ^ 64 \<Longrightarrow>
   store_bytes m a bs p = (if in_range a (length bs) p then bs ! unat (p - a) else m p)"
proof (induction bs arbitrary: m a)
  case (Cons b bs)
  show ?case
  proof (cases "p = a")
    case True
    with Cons.prems have "store_bytes (m(a := b)) (a + 1) bs p = b"
      by (simp add: store_bytes_outside not_in_later_range)
    with True show ?thesis by (simp add: in_range_def)
  next
    case False
    then have "unat (p - a) = Suc (unat (p - (a + 1)))"
      using unat_pred [of "p - a"] by (simp add: algebra_simps)
    with False Cons show ?thesis by (simp add: in_range_def)
  qed
qed simp

lemma store_bytes_commute:
  assumes "length xs \<le> 2 ^ 64" and "length ys \<le> 2 ^ 64"
    and "\<And>p. \<not> (in_range a (length xs) p \<and> in_range b (length ys) p)"
  shows "store_bytes (store_bytes m a xs) b ys = store_bytes (store_bytes m b ys) a xs"
proof
  fix p
  show "store_bytes (store_bytes m a xs) b ys p = store_bytes (store_bytes m b ys) a xs p"
    using assms(3) [of p] by (auto simp: store_bytes_at [OF assms(1)] store_bytes_at [OF assms(2)])
qed

section \<open>The packed BTHX read/write context\<close>

text \<open>
  \<open>WINVHCI_HCI_CONTEXT_HEADER_SIZE\<close>: the payload starts five bytes into the context
  (\<open>ULONG DataLen\<close> and \<open>UCHAR Type\<close>, packed).
\<close>

definition WINVHCI_HCI_CONTEXT_HEADER_SIZE :: ULONG where
  "WINVHCI_HCI_CONTEXT_HEADER_SIZE = 5"

definition ctx_DataLen :: "memory \<Rightarrow> PVOID \<Rightarrow> ULONG" where
  "ctx_DataLen m p = load_ulong m p"

definition ctx_Type :: "memory \<Rightarrow> PVOID \<Rightarrow> UCHAR" where
  "ctx_Type m p = m (p + 4)"

definition ctx_Data :: "memory \<Rightarrow> PVOID \<Rightarrow> ULONG \<Rightarrow> UCHAR list" where
  "ctx_Data m p n = load_bytes m (p + 5) (unat n)"

text \<open>
  The bytes of a context that carries \<open>n\<close>, \<open>t\<close> and \<open>body\<close>, read back by the
  three accessors.
\<close>

definition rw_context_bytes :: "ULONG \<Rightarrow> UCHAR \<Rightarrow> UCHAR list \<Rightarrow> UCHAR list" where
  "rw_context_bytes n t body = ulong_bytes n @ [t] @ body"

lemma length_rw_context_bytes [simp]: "length (rw_context_bytes n t body) = 5 + length body"
  by (simp add: rw_context_bytes_def)

lemma rw_context_bytes_readback:
  assumes "length body + 5 \<le> 2 ^ 64" and "length body = unat n"
    and m': "m' = store_bytes m p (rw_context_bytes n t body)"
  shows "ctx_DataLen m' p = n" and "ctx_Type m' p = t" and "ctx_Data m' p n = body"
proof -
  have "load_bytes m' p (4 + (1 + unat n)) = ulong_bytes n @ [t] @ body"
    using load_store_same [of "rw_context_bytes n t body" m p] assms
    by (simp add: rw_context_bytes_def)
  then have "load_bytes m' p 4 @ load_bytes m' (p + 4) 1 @ load_bytes m' (p + 4 + 1) (unat n)
      = ulong_bytes n @ [t] @ body"
    by (simp only: load_bytes_add) simp
  then have parts: "load_bytes m' p 4 = ulong_bytes n"
    "load_bytes m' (p + 4) 1 = [t]" "load_bytes m' (p + 4 + 1) (unat n) = body"
    by (simp_all only: append_eq_append_conv length_load_bytes length_ulong_bytes
        list.size refl simp_thms) simp_all
  show "ctx_DataLen m' p = n"
    by (simp add: ctx_DataLen_def load_ulong_def parts)
  show "ctx_Type m' p = t"
    using parts(2) by (simp add: ctx_Type_def numeral_eq_Suc)
  show "ctx_Data m' p n = body"
    using parts(3) by (simp add: ctx_Data_def add.commute)
qed

end
