(* ===== verification/Wdf_Interface.thy ===== *)
theory Wdf_Interface
  imports Kernel_Memory
begin

text \<open>
  What the driver calls and cannot be read here: the kernel-mode driver framework (WDF), the pool
  allocator, the PnP manager and the Bluetooth DDI header. They are parameters: a record \<open>'w wdf\<close>
  of functions over a framework state of any type \<open>'w\<close>. The locale \<open>wdf_queues\<close> states the part of
  their documented contract the driver relies on; a list-based framework shows that the contract
  can be met and is what the witnesses run on.
\<close>

section \<open>NTSTATUS\<close>

type_synonym NTSTATUS = "32 word"

text \<open>Codes the driver names, with the values of \<open>ntstatus.h\<close>.\<close>

abbreviation STATUS_SUCCESS :: NTSTATUS where "STATUS_SUCCESS \<equiv> 0"
abbreviation STATUS_INVALID_PARAMETER :: NTSTATUS where "STATUS_INVALID_PARAMETER \<equiv> 0xC000000D"
abbreviation STATUS_INVALID_DEVICE_REQUEST :: NTSTATUS
  where "STATUS_INVALID_DEVICE_REQUEST \<equiv> 0xC0000010"
abbreviation STATUS_ACCESS_DENIED :: NTSTATUS where "STATUS_ACCESS_DENIED \<equiv> 0xC0000022"
abbreviation STATUS_BUFFER_TOO_SMALL :: NTSTATUS where "STATUS_BUFFER_TOO_SMALL \<equiv> 0xC0000023"
abbreviation STATUS_INSUFFICIENT_RESOURCES :: NTSTATUS
  where "STATUS_INSUFFICIENT_RESOURCES \<equiv> 0xC000009A"
abbreviation STATUS_DEVICE_NOT_READY :: NTSTATUS where "STATUS_DEVICE_NOT_READY \<equiv> 0xC00000A3"
abbreviation STATUS_NOT_SUPPORTED :: NTSTATUS where "STATUS_NOT_SUPPORTED \<equiv> 0xC00000BB"
abbreviation STATUS_INVALID_DEVICE_STATE :: NTSTATUS
  where "STATUS_INVALID_DEVICE_STATE \<equiv> 0xC0000184"

text \<open>The macro \<open>NT_SUCCESS\<close>: an \<open>NTSTATUS\<close> that is not negative.\<close>

definition NT_SUCCESS :: "NTSTATUS \<Rightarrow> bool" where
  "NT_SUCCESS st \<longleftrightarrow> 0 \<le> sint st"

lemma NT_SUCCESS_STATUS_SUCCESS [simp]: "NT_SUCCESS 0"
  by (simp add: NT_SUCCESS_def)

lemma NT_SUCCESS_errors [simp]:
  "\<not> NT_SUCCESS STATUS_INVALID_PARAMETER"
  "\<not> NT_SUCCESS STATUS_INVALID_DEVICE_REQUEST"
  "\<not> NT_SUCCESS STATUS_ACCESS_DENIED"
  "\<not> NT_SUCCESS STATUS_BUFFER_TOO_SMALL"
  "\<not> NT_SUCCESS STATUS_INSUFFICIENT_RESOURCES"
  "\<not> NT_SUCCESS STATUS_DEVICE_NOT_READY"
  "\<not> NT_SUCCESS STATUS_NOT_SUPPORTED"
  "\<not> NT_SUCCESS STATUS_INVALID_DEVICE_STATE"
  by (simp_all add: NT_SUCCESS_def)

section \<open>Handles\<close>

text \<open>Framework objects are opaque; 0 is the null handle.\<close>

type_synonym WDFDEVICE = nat
type_synonym WDFQUEUE = nat
type_synonym WDFREQUEST = nat
type_synonym WDFFILEOBJECT = nat
type_synonym WDFSPINLOCK = nat

abbreviation NULL_HANDLE :: nat where
  "NULL_HANDLE \<equiv> 0"

datatype KPROCESSOR_MODE = KernelMode | UserMode

text \<open>
  The I/O request packet of a \<open>METHOD_NEITHER\<close> request, as far as the driver reads it: the mode
  of the caller, \<open>UserBuffer\<close>, and from the current stack location the input pointer and the
  length of the output.
\<close>

record IRP =
  RequestorMode :: KPROCESSOR_MODE
  UserBuffer :: PVOID
  Type3InputBuffer :: PVOID
  IrpOutputBufferLength :: ULONG

datatype WDF_IO_QUEUE_DISPATCH_TYPE = WdfIoQueueDispatchParallel | WdfIoQueueDispatchManual

text \<open>The callbacks the driver registers on its queues, by name.\<close>

datatype queue_callback =
    Cb_WinVhciEvtIoRead
  | Cb_WinVhciEvtIoWrite
  | Cb_WinVhciEvtIoDeviceControl
  | Cb_WinVhciEvtBthxInternalDeviceControl
  | Cb_WinVhciEvtBthxDeviceControl
  | Cb_WinVhciPdoEvtInternalDeviceControl
  | Cb_WinVhciPdoEvtDeviceControl

record WDF_IO_QUEUE_CONFIG =
  DispatchType :: WDF_IO_QUEUE_DISPATCH_TYPE
  DefaultQueue :: bool
  PowerManaged :: bool
  EvtIoRead :: "queue_callback option"
  EvtIoWrite :: "queue_callback option"
  EvtIoDeviceControl :: "queue_callback option"
  EvtIoInternalDeviceControl :: "queue_callback option"

text \<open>The callbacks it registers on the driver, on devices and on the handle, by name.\<close>

datatype object_callback =
    Cb_WinVhciEvtDeviceAdd
  | Cb_WinVhciEvtDriverContextCleanup
  | Cb_WinVhciEvtChildListCreateDevice
  | Cb_WinVhciEvtSelfManagedIoCleanup
  | Cb_WinVhciPdoEvtPrepareHardware
  | Cb_WinVhciPdoEvtD0Entry
  | Cb_WinVhciPdoEvtD0Exit
  | Cb_WinVhciPdoEvtCleanup
  | Cb_WinVhciEvtDeviceFileCreate
  | Cb_WinVhciEvtFileClose

record WDF_PNPPOWER_EVENT_CALLBACKS =
  EvtDevicePrepareHardware :: "object_callback option"
  EvtDeviceD0Entry :: "object_callback option"
  EvtDeviceD0Exit :: "object_callback option"
  EvtDeviceSelfManagedIoCleanup :: "object_callback option"

record WDF_FILEOBJECT_CONFIG =
  EvtDeviceFileCreate :: "object_callback option"
  EvtFileClose :: "object_callback option"
  EvtFileCleanup :: "object_callback option"

datatype WDF_DEVICE_IO_TYPE = WdfDeviceIoBuffered | WdfDeviceIoDirect | WdfDeviceIoNeither

text \<open>What the driver sets on a \<open>WDFDEVICE_INIT\<close> before the device exists. None of it can fail.\<close>

datatype device_init_call =
    WdfFdoInitSetDefaultChildListConfig object_callback
  | WdfDeviceInitSetPnpPowerEventCallbacks WDF_PNPPOWER_EVENT_CALLBACKS
  | WdfDeviceInitSetIoType WDF_DEVICE_IO_TYPE
  | WdfDeviceInitSetExclusive bool
  | WdfDeviceInitSetFileObjectConfig WDF_FILEOBJECT_CONFIG
  | WdfPdoInitSetDefaultLocale ULONG
  | WdfPdoInitAllowForwardingRequestToParent

text \<open>
  \<open>BTHX_CAPABILITIES\<close> of \<open>bthxddi.h\<close>, the fields the driver fills. Their layout in memory is the
  header's and stays a parameter below.
\<close>

record BTHX_CAPABILITIES =
  MaxAclTransferInSize :: ULONG
  ScoSupport :: ULONG
  MaxScoChannels :: ULONG
  IsDeviceIdleCapable :: bool
  IsDeviceWakeCapable :: bool

section \<open>The services\<close>

text \<open>
  One field per function the driver calls, named like it. A function that changes the framework's
  state takes and returns it; \<open>NTSTATUS\<close> results are whatever the framework answers. The last
  five fields are sizes and layouts of \<open>bthxddi.h\<close>.
\<close>

record 'w wdf =
  WdfIoQueueRetrieveNextRequest :: "WDFQUEUE \<Rightarrow> 'w \<Rightarrow> (NTSTATUS \<times> WDFREQUEST) \<times> 'w"
  WdfRequestForwardToIoQueue :: "WDFREQUEST \<Rightarrow> WDFQUEUE \<Rightarrow> 'w \<Rightarrow> NTSTATUS \<times> 'w"
  WdfIoQueuePurgeSynchronously :: "WDFQUEUE \<Rightarrow> 'w \<Rightarrow> 'w"
  WdfIoQueueStart :: "WDFQUEUE \<Rightarrow> 'w \<Rightarrow> 'w"
  WdfRequestForwardToParentDeviceIoQueue :: "WDFREQUEST \<Rightarrow> WDFQUEUE \<Rightarrow> 'w \<Rightarrow> NTSTATUS \<times> 'w"
  WdfRequestRetrieveInputBuffer :: "WDFREQUEST \<Rightarrow> SIZE_T \<Rightarrow> NTSTATUS \<times> PVOID \<times> SIZE_T"
  WdfRequestRetrieveOutputBuffer :: "WDFREQUEST \<Rightarrow> SIZE_T \<Rightarrow> NTSTATUS \<times> PVOID \<times> SIZE_T"
  WdfRequestGetParameters_WriteLength :: "WDFREQUEST \<Rightarrow> SIZE_T"
  WdfRequestWdmGetIrp :: "WDFREQUEST \<Rightarrow> IRP"
  ExAllocatePool2 :: "SIZE_T \<Rightarrow> 'w \<Rightarrow> bool \<times> 'w"
  WdfChildListAddOrUpdateChildDescriptionAsPresent :: "ULONG \<Rightarrow> 'w \<Rightarrow> NTSTATUS \<times> 'w"
  WdfChildListScanNothingPresent :: "'w \<Rightarrow> 'w"
  KeGetCurrentIrql :: "'w \<Rightarrow> nat"
  WdfRegistryOpenKey :: "string \<Rightarrow> 'w \<Rightarrow> NTSTATUS"
  WdfRegistryQueryULong :: "string \<Rightarrow> string \<Rightarrow> 'w \<Rightarrow> NTSTATUS \<times> ULONG"
  WdfIoQueueCreate :: "WDFDEVICE \<Rightarrow> WDF_IO_QUEUE_CONFIG \<Rightarrow> 'w \<Rightarrow> (NTSTATUS \<times> WDFQUEUE) \<times> 'w"
  WdfDriverCreate :: "object_callback \<Rightarrow> object_callback \<Rightarrow> 'w \<Rightarrow> NTSTATUS \<times> 'w"
  WdfDeviceCreate :: "'w \<Rightarrow> (NTSTATUS \<times> WDFDEVICE) \<times> 'w"
  WdfSpinLockCreate :: "'w \<Rightarrow> (NTSTATUS \<times> WDFSPINLOCK) \<times> 'w"
  WdfDeviceCreateSymbolicLink :: "WDFDEVICE \<Rightarrow> string \<Rightarrow> 'w \<Rightarrow> NTSTATUS \<times> 'w"
  WdfPdoInitAssignDeviceID :: "string \<Rightarrow> 'w \<Rightarrow> NTSTATUS \<times> 'w"
  WdfPdoInitAddHardwareID :: "string \<Rightarrow> 'w \<Rightarrow> NTSTATUS \<times> 'w"
  WdfPdoInitAddCompatibleID :: "string \<Rightarrow> 'w \<Rightarrow> NTSTATUS \<times> 'w"
  WdfPdoInitAssignInstanceID :: "string \<Rightarrow> 'w \<Rightarrow> NTSTATUS \<times> 'w"
  WdfPdoInitAddDeviceText :: "string \<Rightarrow> string \<Rightarrow> 'w \<Rightarrow> NTSTATUS \<times> 'w"
  sizeof_BTHX_VERSION :: SIZE_T
  BTHX_VERSION_bytes :: "ULONG \<Rightarrow> UCHAR list"
  BTHX_VERSION_of_bytes :: "UCHAR list \<Rightarrow> ULONG"
  sizeof_BTHX_CAPABILITIES :: SIZE_T
  BTHX_CAPABILITIES_bytes :: "BTHX_CAPABILITIES \<Rightarrow> UCHAR list"

section \<open>The contract of the manual queues\<close>

text \<open>
  The driver parks reads on manual queues and retrieves them again. What it relies on, in terms
  of the requests a queue holds, oldest first:
  \<^item> a retrieval that succeeds removes the oldest request and returns it; one that fails left the
    queue as it was, and it was empty (the driver never stops a queue that still holds requests:
    it purges, which cancels them all);
  \<^item> a forward that succeeds appends the request, one that fails leaves the queues alone;
  \<^item> a synchronous purge empties the queue, and starting it again holds nothing new;
  \<^item> allocating, describing children and forwarding to the parent's request queue do not touch
    the manual queues.
\<close>

locale wdf_queues =
  fixes W :: "'w wdf"
    and contents :: "'w \<Rightarrow> WDFQUEUE \<Rightarrow> WDFREQUEST list"
  assumes retrieve_success:
      "WdfIoQueueRetrieveNextRequest W q w = ((st, r), w') \<Longrightarrow> NT_SUCCESS st \<Longrightarrow>
       \<exists>rs. contents w q = r # rs \<and> contents w' = (contents w)(q := rs)"
    and retrieve_failure:
      "WdfIoQueueRetrieveNextRequest W q w = ((st, r), w') \<Longrightarrow> \<not> NT_SUCCESS st \<Longrightarrow>
       contents w q = [] \<and> contents w' = contents w"
    and forward_success:
      "WdfRequestForwardToIoQueue W r q w = (st, w') \<Longrightarrow> NT_SUCCESS st \<Longrightarrow>
       contents w' = (contents w)(q := contents w q @ [r])"
    and forward_failure:
      "WdfRequestForwardToIoQueue W r q w = (st, w') \<Longrightarrow> \<not> NT_SUCCESS st \<Longrightarrow>
       contents w' = contents w"
    and purge_contents:
      "contents (WdfIoQueuePurgeSynchronously W q w) = (contents w)(q := [])"
    and start_contents: "contents (WdfIoQueueStart W q w) = contents w"
    and allocate_contents: "contents (snd (ExAllocatePool2 W n w)) = contents w"
    and add_child_contents:
      "contents (snd (WdfChildListAddOrUpdateChildDescriptionAsPresent W i w)) = contents w"
    and scan_contents: "contents (WdfChildListScanNothingPresent W w) = contents w"
    and forward_parent_contents:
      "contents (snd (WdfRequestForwardToParentDeviceIoQueue W r q w)) = contents w"
begin

lemma retrieve_empty:
  assumes "contents w q = []"
  shows "\<exists>st r w'. WdfIoQueueRetrieveNextRequest W q w = ((st, r), w') \<and> \<not> NT_SUCCESS st
    \<and> contents w' = contents w"
proof -
  obtain st r w' where eq: "WdfIoQueueRetrieveNextRequest W q w = ((st, r), w')"
    by (metis surj_pair)
  with assms have "\<not> NT_SUCCESS st"
    using retrieve_success [OF eq] by auto
  with eq show ?thesis
    using retrieve_failure [OF eq] by auto
qed

end

text \<open>
  The same contract for a system that is not short of anything: forwards and allocations succeed.
  The statements about loss and order are about such a system; what happens otherwise is stated
  with the failing call's own status.
\<close>

locale wdf_reliable = wdf_queues +
  assumes forward_ok: "NT_SUCCESS (fst (WdfRequestForwardToIoQueue W r q w))"
    and allocate_ok: "fst (ExAllocatePool2 W n w)"
begin

lemma forward_appends:
  "\<exists>st w'. WdfRequestForwardToIoQueue W r q w = (st, w') \<and> NT_SUCCESS st
    \<and> contents w' = (contents w)(q := contents w q @ [r])"
  using forward_ok [of r q w] forward_success [of r q w] by (metis prod.collapse)

end

section \<open>The contract of object creation\<close>

text \<open>
  \<open>live\<close> is the set of queue handles given out so far. Creating a queue returns a handle that is
  neither null nor in use, for a queue that holds nothing; a failed creation, and the creation of
  any other object, changes no queue.
\<close>

locale wdf_creation = wdf_queues +
  fixes live :: "'w \<Rightarrow> WDFQUEUE set"
  assumes queue_create_success:
      "WdfIoQueueCreate W d cfg w = ((st, q), w') \<Longrightarrow> NT_SUCCESS st \<Longrightarrow>
       q \<noteq> NULL_HANDLE \<and> q \<notin> live w \<and> live w' = insert q (live w) \<and> contents w' q = []"
    and queue_create_contents:
      "contents (snd (WdfIoQueueCreate W d cfg w)) = contents w"
    and device_create_contents: "contents (snd (WdfDeviceCreate W w)) = contents w"
    and lock_create_contents: "contents (snd (WdfSpinLockCreate W w)) = contents w"
    and link_create_contents:
      "contents (snd (WdfDeviceCreateSymbolicLink W d name w)) = contents w"
    and pdo_init_contents:
      "contents (snd (WdfPdoInitAssignDeviceID W name w)) = contents w"
      "contents (snd (WdfPdoInitAddHardwareID W name w)) = contents w"
      "contents (snd (WdfPdoInitAddCompatibleID W name w)) = contents w"
      "contents (snd (WdfPdoInitAssignInstanceID W name w)) = contents w"
      "contents (snd (WdfPdoInitAddDeviceText W name loc w)) = contents w"

end
