(* ===== verification/Locked_Regions.thy ===== *)
theory Locked_Regions
  imports Main
begin

text \<open>
  How a handler runs. The driver has one spin lock; what happens between acquiring and releasing it
  is one indivisible step for every other thread, and so is the code between two locked regions,
  which only touches the handler's own request. A handler is therefore a program: it returns, or it
  makes one indivisible change and goes on with a continuation chosen from the state it saw.

  The same program is run from start to end (\<open>run\<close>, what one handler computes when nothing
  interferes) and interleaved region by region with any number of others (\<open>conc_step\<close>).
\<close>

section \<open>Programs\<close>

datatype ('s, 'a) prog =
    Return 'a
  | Step "'s \<Rightarrow> 's" "'s \<Rightarrow> ('s, 'a) prog"

primrec bind_prog :: "('s, 'a) prog \<Rightarrow> ('a \<Rightarrow> ('s, 'b) prog) \<Rightarrow> ('s, 'b) prog" where
  "bind_prog (Return a) c = c a"
| "bind_prog (Step f k) c = Step f (\<lambda>s. bind_prog (k s) c)"

primrec run :: "('s, 'a) prog \<Rightarrow> 's \<Rightarrow> 'a \<times> 's" where
  "run (Return a) = (\<lambda>s. (a, s))"
| "run (Step f k) = (\<lambda>s. run (k s) (f s))"

text \<open>
  \<open>atomically g c\<close> runs the region \<open>g\<close> and continues with its result; \<open>act f p\<close> is a region with
  no result; \<open>observe f c\<close> reads the state.
\<close>

definition atomically :: "('s \<Rightarrow> 'a \<times> 's) \<Rightarrow> ('a \<Rightarrow> ('s, 'b) prog) \<Rightarrow> ('s, 'b) prog" where
  "atomically g c = Step (\<lambda>s. snd (g s)) (\<lambda>s. c (fst (g s)))"

definition act :: "('s \<Rightarrow> 's) \<Rightarrow> ('s, 'b) prog \<Rightarrow> ('s, 'b) prog" where
  "act f p = Step f (\<lambda>_. p)"

definition observe :: "('s \<Rightarrow> 'a) \<Rightarrow> ('a \<Rightarrow> ('s, 'b) prog) \<Rightarrow> ('s, 'b) prog" where
  "observe f c = Step (\<lambda>s. s) (\<lambda>s. c (f s))"

text \<open>The state a handler leaves behind when it runs alone.\<close>

definition exec :: "('s, 'a) prog \<Rightarrow> 's \<Rightarrow> 's" where
  "exec p s = snd (run p s)"

definition result :: "('s, 'a) prog \<Rightarrow> 's \<Rightarrow> 'a" where
  "result p s = fst (run p s)"

lemma run_bind_prog:
  "run (bind_prog p c) s = (let (a, s') = run p s in run (c a) s')"
  by (induction p arbitrary: s) simp_all

lemma run_atomically [simp]: "run (atomically g c) s = run (c (fst (g s))) (snd (g s))"
  by (simp add: atomically_def)

lemma run_act [simp]: "run (act f p) s = run p (f s)"
  by (simp add: act_def)

lemma run_observe [simp]: "run (observe f c) s = run (c (f s)) s"
  by (simp add: observe_def)

lemma exec_simps [simp]:
  "exec (Return a) s = s"
  "exec (Step f k) s = exec (k s) (f s)"
  "exec (atomically g c) s = exec (c (fst (g s))) (snd (g s))"
  "exec (act f p) s = exec p (f s)"
  "exec (observe h d) s = exec (d (h s)) s"
  by (simp_all add: exec_def)

lemma result_simps [simp]:
  "result (Return a) s = a"
  "result (Step f k) s = result (k s) (f s)"
  "result (atomically g c) s = result (c (fst (g s))) (snd (g s))"
  "result (act f p) s = result p (f s)"
  "result (observe h d) s = result (d (h s)) s"
  by (simp_all add: result_def)

lemma exec_bind_prog [simp]:
  "exec (bind_prog p c) s = exec (c (result p s)) (exec p s)"
  by (simp add: exec_def result_def run_bind_prog split_def Let_def)

lemma result_bind_prog [simp]:
  "result (bind_prog p c) s = result (c (result p s)) (exec p s)"
  by (simp add: exec_def result_def run_bind_prog split_def Let_def)

lemma bind_prog_simps [simp]:
  "bind_prog (atomically g c) d = atomically g (\<lambda>x. bind_prog (c x) d)"
  "bind_prog (act f p) d = act f (bind_prog p d)"
  "bind_prog (observe h e) d = observe h (\<lambda>x. bind_prog (e x) d)"
  by (simp_all add: atomically_def act_def observe_def)

section \<open>Programs that keep an invariant in every region\<close>

primrec safe :: "('s \<Rightarrow> bool) \<Rightarrow> ('s, 'a) prog \<Rightarrow> bool" where
  "safe I (Return a) = True"
| "safe I (Step f k) = (\<forall>s. I s \<longrightarrow> I (f s) \<and> safe I (k s))"

lemma safe_Return [intro]: "safe I (Return a)"
  by simp

lemma safe_atomically [intro]:
  assumes "\<And>s. I s \<Longrightarrow> I (snd (g s))" and "\<And>x. safe I (c x)"
  shows "safe I (atomically g c)"
  using assms by (simp add: atomically_def)

lemma safe_act [intro]:
  assumes "\<And>s. I s \<Longrightarrow> I (f s)" and "safe I p"
  shows "safe I (act f p)"
  using assms by (simp add: act_def)

lemma safe_observe [intro]:
  assumes "\<And>x. safe I (c x)"
  shows "safe I (observe h c)"
  using assms by (simp add: observe_def)

lemma safe_bind_prog [intro]:
  "safe I p \<Longrightarrow> (\<And>a. safe I (c a)) \<Longrightarrow> safe I (bind_prog p c)"
  by (induction p) simp_all

text \<open>The same as equations, for the simplifier.\<close>

lemma safe_simps:
  "safe I (atomically g c) \<longleftrightarrow> (\<forall>s. I s \<longrightarrow> I (snd (g s)) \<and> safe I (c (fst (g s))))"
  "safe I (act f p) \<longleftrightarrow> (\<forall>s. I s \<longrightarrow> I (f s) \<and> safe I p)"
  "safe I (observe h c) \<longleftrightarrow> (\<forall>s. I s \<longrightarrow> safe I (c (h s)))"
  by (simp_all add: atomically_def act_def observe_def)

lemma safe_exec: "safe I p \<Longrightarrow> I s \<Longrightarrow> I (exec p s)"
  by (induction p arbitrary: s) simp_all

section \<open>Programs whose every region is related to what it found\<close>

primrec steps :: "('s \<Rightarrow> bool) \<Rightarrow> ('s \<Rightarrow> 's \<Rightarrow> bool) \<Rightarrow> ('s, 'a) prog \<Rightarrow> bool" where
  "steps I R (Return a) = True"
| "steps I R (Step f k) = (\<forall>s. I s \<longrightarrow> R s (f s) \<and> steps I R (k s))"

lemma steps_simps:
  "steps I R (atomically g c) \<longleftrightarrow> (\<forall>s. I s \<longrightarrow> R s (snd (g s)) \<and> steps I R (c (fst (g s))))"
  "steps I R (act f p) \<longleftrightarrow> (\<forall>s. I s \<longrightarrow> R s (f s) \<and> steps I R p)"
  "steps I R (observe h c) \<longleftrightarrow> (\<forall>s. I s \<longrightarrow> R s s \<and> steps I R (c (h s)))"
  by (simp_all add: atomically_def act_def observe_def)

lemma steps_bind: "steps I R p \<Longrightarrow> (\<And>a. steps I R (c a)) \<Longrightarrow> steps I R (bind_prog p c)"
  by (induction p) simp_all

lemma steps_trivial: "steps I (\<lambda>_ _. True) p"
  by (induction p) simp_all

lemma steps_mono: "steps I R p \<Longrightarrow> (\<And>s s'. I s \<Longrightarrow> R s s' \<Longrightarrow> R' s s') \<Longrightarrow> steps I R' p"
  by (induction p) (auto intro: rangeI)

section \<open>Interleaving\<close>

text \<open>
  A configuration is the shared state and the handlers in flight. \<open>spawn s p\<close> says that the
  framework may dispatch the handler \<open>p\<close> in state \<open>s\<close>; \<open>env\<close> is what happens to the shared state
  without any handler (a parked request is cancelled, a caller changes its own buffer).
\<close>

type_synonym 's conc = "'s \<times> ('s, unit) prog list"

inductive conc_step ::
  "('s \<Rightarrow> ('s, unit) prog \<Rightarrow> bool) \<Rightarrow> ('s \<Rightarrow> 's \<Rightarrow> bool) \<Rightarrow> 's conc \<Rightarrow> 's conc \<Rightarrow> bool"
  for spawn :: "'s \<Rightarrow> ('s, unit) prog \<Rightarrow> bool" and env :: "'s \<Rightarrow> 's \<Rightarrow> bool" where
  dispatch: "spawn s p \<Longrightarrow> conc_step spawn env (s, ts) (s, ts @ [p])"
| region: "i < length ts \<Longrightarrow> ts ! i = Step f k \<Longrightarrow>
    conc_step spawn env (s, ts) (f s, ts[i := k s])"
| environment: "env s s' \<Longrightarrow> conc_step spawn env (s, ts) (s', ts)"

inductive conc_reach ::
  "('s \<Rightarrow> ('s, unit) prog \<Rightarrow> bool) \<Rightarrow> ('s \<Rightarrow> 's \<Rightarrow> bool) \<Rightarrow> 's \<Rightarrow> 's conc \<Rightarrow> bool"
  for spawn :: "'s \<Rightarrow> ('s, unit) prog \<Rightarrow> bool" and env :: "'s \<Rightarrow> 's \<Rightarrow> bool" and s0 :: 's where
  start: "conc_reach spawn env s0 (s0, [])"
| step: "conc_reach spawn env s0 c \<Longrightarrow> conc_step spawn env c c' \<Longrightarrow> conc_reach spawn env s0 c'"

inductive_cases conc_stepE: "conc_step spawn env c c'"

text \<open>Running one handler to its end, with nothing in between, is one of the interleavings.\<close>

lemma conc_reach_rest:
  "conc_reach spawn env s0 (s, ts @ [p]) \<Longrightarrow>
   conc_reach spawn env s0 (exec p s, ts @ [Return (result p s)])"
proof (induction p arbitrary: s)
  case (Step f k)
  have "conc_step spawn env (s, ts @ [Step f k]) (f s, ts @ [k s])"
    using conc_step.region [of "length ts" "ts @ [Step f k]" f k] by simp
  with Step.prems have "conc_reach spawn env s0 (f s, ts @ [k s])"
    by (rule conc_reach.step)
  then show ?case using Step.IH [of "k s" "f s"] by simp
qed simp

lemma conc_reach_exec:
  assumes "conc_reach spawn env s0 (s, ts)" and "spawn s p"
  shows "conc_reach spawn env s0 (exec p s, ts @ [Return (result p s)])"
  using assms(1) conc_step.dispatch [of spawn s p env ts, OF assms(2)]
  by (intro conc_reach_rest) (rule conc_reach.step)

text \<open>One region of one handler, as a function, to follow a given interleaving.\<close>

primrec advance :: "('s, 'a) prog \<Rightarrow> 's \<Rightarrow> 's \<times> ('s, 'a) prog" where
  "advance (Return a) s = (s, Return a)"
| "advance (Step f k) s = (f s, k s)"

lemma advance_simps [simp]:
  "advance (atomically g c) s = (snd (g s), c (fst (g s)))"
  "advance (act f p) s = (f s, p)"
  "advance (observe h d) s = (s, d (h s))"
  by (simp_all add: atomically_def act_def observe_def)

lemma advance_bind_prog [simp]:
  "advance (bind_prog (Return a) c) s = advance (c a) s"
  "advance (bind_prog (Step f k) c) s = (f s, bind_prog (k s) c)"
  by simp_all

lemma conc_reach_advance:
  assumes "conc_reach spawn env s0 (s, ts)" and "i < length ts"
  shows "conc_reach spawn env s0 (fst (advance (ts ! i) s), ts[i := snd (advance (ts ! i) s)])"
proof (cases "ts ! i")
  case (Return a)
  then have "ts[i := Return a] = ts"
    by (metis list_update_id)
  with Return assms(1) show ?thesis by simp
next
  case (Step f k)
  with assms(1) conc_step.region [OF assms(2) Step] show ?thesis
    by (auto intro: conc_reach.step)
qed

text \<open>
  The contract a system of handlers meets to keep an invariant under every interleaving: it holds
  at the start, every handler that can be dispatched keeps it region by region, and so does the
  environment. The invariant of the driver is an instance.
\<close>

locale interleaved =
  fixes spawn :: "'s \<Rightarrow> ('s, unit) prog \<Rightarrow> bool"
    and env :: "'s \<Rightarrow> 's \<Rightarrow> bool"
    and inv :: "'s \<Rightarrow> bool"
  assumes spawn_safe: "spawn s p \<Longrightarrow> inv s \<Longrightarrow> safe inv p"
    and env_keeps: "env s s' \<Longrightarrow> inv s \<Longrightarrow> inv s'"
begin

lemma step_keeps:
  assumes "conc_step spawn env c c'" and "inv (fst c)" and "\<forall>p \<in> set (snd c). safe inv p"
  shows "inv (fst c') \<and> (\<forall>p \<in> set (snd c'). safe inv p)"
  using assms(1)
proof cases
  case (dispatch s p ts)
  with assms(2,3) show ?thesis by (auto intro: spawn_safe)
next
  case (region i ts f k s)
  then have "safe inv (Step f k)"
    using assms(3) by (metis nth_mem snd_conv)
  moreover have "inv s"
    using assms(2) region by simp
  ultimately have "inv (f s)" and "safe inv (k s)"
    by simp_all
  with region assms(3) show ?thesis
    by (auto dest!: set_update_subset_insert [THEN subsetD])
next
  case (environment s s' ts)
  with assms(2,3) show ?thesis by (auto intro: env_keeps)
qed

lemma reach_keeps:
  assumes "conc_reach spawn env s0 c" and "inv s0"
  shows "inv (fst c) \<and> (\<forall>p \<in> set (snd c). safe inv p)"
  using assms by (induction rule: conc_reach.induct) (auto dest: step_keeps)

lemma reach_inv:
  assumes "conc_reach spawn env s0 (s, ts)" and "inv s0"
  shows "inv s"
  using reach_keeps [OF assms] by simp

end

end
