(* ===== verification/Winvhci_Types.thy ===== *)
theory Winvhci_Types
  imports Wdf_Interface Locked_Regions
begin

text \<open>
  The declarations of \<open>winvhci.h\<close>: limits, packet types, the queued packet, the statistics block
  and the two device contexts, with the driver's whole state around them. Field names are the
  header's.
\<close>

section \<open>Constants\<close>

definition WINVHCI_MAX_ACL_TRANSFER_IN :: ULONG where
  "WINVHCI_MAX_ACL_TRANSFER_IN = 1021"

definition WINVHCI_READ_TYPE_WORD_SIZE :: SIZE_T where
  "WINVHCI_READ_TYPE_WORD_SIZE = 4"

definition WINVHCI_MAX_EVENT_SIZE :: ULONG where
  "WINVHCI_MAX_EVENT_SIZE = 257"

definition WINVHCI_H4_COMMAND :: UCHAR where "WINVHCI_H4_COMMAND = 0x01"
definition WINVHCI_H4_ACL :: UCHAR where "WINVHCI_H4_ACL = 0x02"
definition WINVHCI_H4_SCO :: UCHAR where "WINVHCI_H4_SCO = 0x03"
definition WINVHCI_H4_EVENT :: UCHAR where "WINVHCI_H4_EVENT = 0x04"
definition WINVHCI_H4_ISO :: UCHAR where "WINVHCI_H4_ISO = 0x05"
definition WINVHCI_H4_VENDOR :: UCHAR where "WINVHCI_H4_VENDOR = 0xFF"

definition WINVHCI_MAX_BODY :: ULONG where
  "WINVHCI_MAX_BODY = 4 + WINVHCI_MAX_ACL_TRANSFER_IN"

definition WINVHCI_MAX_H4_PACKET :: ULONG where
  "WINVHCI_MAX_H4_PACKET = 1 + WINVHCI_MAX_BODY"

lemmas h4_types =
  WINVHCI_H4_COMMAND_def WINVHCI_H4_ACL_def WINVHCI_H4_SCO_def WINVHCI_H4_EVENT_def
  WINVHCI_H4_ISO_def WINVHCI_H4_VENDOR_def

lemmas h4_limits =
  WINVHCI_MAX_ACL_TRANSFER_IN_def WINVHCI_MAX_EVENT_SIZE_def WINVHCI_MAX_BODY_def
  WINVHCI_MAX_H4_PACKET_def

text \<open>The six types are different bytes.\<close>

lemma h4_distinct [simp]:
  "WINVHCI_H4_COMMAND \<noteq> WINVHCI_H4_ACL" "WINVHCI_H4_COMMAND \<noteq> WINVHCI_H4_SCO"
  "WINVHCI_H4_COMMAND \<noteq> WINVHCI_H4_EVENT" "WINVHCI_H4_COMMAND \<noteq> WINVHCI_H4_ISO"
  "WINVHCI_H4_COMMAND \<noteq> WINVHCI_H4_VENDOR" "WINVHCI_H4_ACL \<noteq> WINVHCI_H4_COMMAND"
  "WINVHCI_H4_ACL \<noteq> WINVHCI_H4_SCO" "WINVHCI_H4_ACL \<noteq> WINVHCI_H4_EVENT"
  "WINVHCI_H4_ACL \<noteq> WINVHCI_H4_ISO" "WINVHCI_H4_ACL \<noteq> WINVHCI_H4_VENDOR"
  "WINVHCI_H4_SCO \<noteq> WINVHCI_H4_COMMAND" "WINVHCI_H4_SCO \<noteq> WINVHCI_H4_ACL"
  "WINVHCI_H4_SCO \<noteq> WINVHCI_H4_EVENT" "WINVHCI_H4_SCO \<noteq> WINVHCI_H4_ISO"
  "WINVHCI_H4_SCO \<noteq> WINVHCI_H4_VENDOR" "WINVHCI_H4_EVENT \<noteq> WINVHCI_H4_COMMAND"
  "WINVHCI_H4_EVENT \<noteq> WINVHCI_H4_ACL" "WINVHCI_H4_EVENT \<noteq> WINVHCI_H4_SCO"
  "WINVHCI_H4_EVENT \<noteq> WINVHCI_H4_ISO" "WINVHCI_H4_EVENT \<noteq> WINVHCI_H4_VENDOR"
  "WINVHCI_H4_ISO \<noteq> WINVHCI_H4_COMMAND" "WINVHCI_H4_ISO \<noteq> WINVHCI_H4_ACL"
  "WINVHCI_H4_ISO \<noteq> WINVHCI_H4_SCO" "WINVHCI_H4_ISO \<noteq> WINVHCI_H4_EVENT"
  "WINVHCI_H4_ISO \<noteq> WINVHCI_H4_VENDOR" "WINVHCI_H4_VENDOR \<noteq> WINVHCI_H4_COMMAND"
  "WINVHCI_H4_VENDOR \<noteq> WINVHCI_H4_ACL" "WINVHCI_H4_VENDOR \<noteq> WINVHCI_H4_SCO"
  "WINVHCI_H4_VENDOR \<noteq> WINVHCI_H4_EVENT" "WINVHCI_H4_VENDOR \<noteq> WINVHCI_H4_ISO"
  by (simp_all add: h4_types)

text \<open>\<open>CTL_CODE\<close> of the WDK, and the one control code of the userspace interface.\<close>

definition CTL_CODE :: "ULONG \<Rightarrow> ULONG \<Rightarrow> ULONG \<Rightarrow> ULONG \<Rightarrow> ULONG" where
  "CTL_CODE DeviceType Function Method Access =
     or (or (or (push_bit 16 DeviceType) (push_bit 14 Access)) (push_bit 2 Function)) Method"

definition IOCTL_WINVHCI_GET_STATS :: ULONG where
  "IOCTL_WINVHCI_GET_STATS = CTL_CODE 0x22 0x800 0 1"

section \<open>A queued packet\<close>

text \<open>
  Body only: the type travels beside it. \<open>Data\<close> holds \<open>Length\<close> bytes; the link of the C struct is
  the packet's position in its list.
\<close>

record WINVHCI_PACKET =
  pkt_Type :: UCHAR
  pkt_Length :: ULONG
  pkt_Data :: "UCHAR list"

section \<open>Statistics\<close>

record WINVHCI_STATS =
  st_Size :: ULONG
  st_DropsNoClient :: ULONG
  st_DropsAllocFailed :: ULONG
  st_HostToCtrlCount :: ULONG
  st_HostToCtrlPeak :: ULONG
  st_PendingEventCount :: ULONG
  st_PendingEventPeak :: ULONG
  st_PendingDataCount :: ULONG
  st_PendingDataPeak :: ULONG
  st_WritesTotal :: ULONG
  st_QueuedToUserTotal :: ULONG
  st_WritesNoRadio :: ULONG
  st_RadiosAlive :: ULONG

section \<open>The device contexts\<close>

record WINVHCI_FDO_CONTEXT =
  Device :: WDFDEVICE
  BthxIoQueue :: WDFQUEUE
  ReadEventQueue :: WDFQUEUE
  ReadDataQueue :: WDFQUEUE
  UserReadQueue :: WDFQUEUE
  Owner :: WDFFILEOBJECT
  HostToCtrlList :: "WINVHCI_PACKET list"
  PendingEventList :: "WINVHCI_PACKET list"
  PendingDataList :: "WINVHCI_PACKET list"
  HostToCtrlCount :: ULONG
  PendingEventCount :: ULONG
  PendingDataCount :: ULONG
  HostToCtrlPeak :: ULONG
  PendingEventPeak :: ULONG
  PendingDataPeak :: ULONG
  DropsNoClient :: ULONG
  DropsAllocFailed :: ULONG
  WritesTotal :: ULONG
  QueuedToUserTotal :: ULONG
  WritesNoRadio :: ULONG
  RadiosAlive :: LONG
  RadioPresent :: bool
  RadioStarted :: bool
  CurrentRadioId :: ULONG
  NextRadioId :: ULONG
  Lock :: WDFSPINLOCK
  BthxVersion :: ULONG
  FailAllocOneIn :: ULONG
  AllocSeq :: ULONG
  PdoRequestCount :: LONG
  IoctlCount :: ULONG
  WriteHciCount :: ULONG
  PendedEventReads :: ULONG
  PendedDataReads :: ULONG

record WINVHCI_PDO_CONTEXT =
  Fdo :: WDFDEVICE
  RadioId :: ULONG

section \<open>The state of the driver\<close>

text \<open>
  Calls whose effect lies outside the driver, in the order they are made. The lock is in the list
  so that what is called under it can be told from what is not.
\<close>

datatype wdf_call =
    SpinLockAcquire
  | SpinLockRelease
  | RequestComplete WDFREQUEST NTSTATUS ULONG_PTR
  | RequestForwardToParent WDFREQUEST WDFQUEUE NTSTATUS
  | ChildListAdd ULONG NTSTATUS
  | ChildListScan
  | QueuePurge WDFQUEUE
  | QueueStart WDFQUEUE
  | QueueCreate WDFDEVICE WDF_IO_QUEUE_CONFIG NTSTATUS
  | SymbolicLinkCreate string NTSTATUS
  | DriverCreate object_callback object_callback NTSTATUS
  | DeviceInit device_init_call
  | DeviceCreate "object_callback option" NTSTATUS
  | SpinLockCreate NTSTATUS
  | DeviceSetPnpCapabilities WDFDEVICE bool bool
  | PdoAssignDeviceID string NTSTATUS
  | PdoAddHardwareID string NTSTATUS
  | PdoAddCompatibleID string NTSTATUS
  | PdoAssignInstanceID string NTSTATUS
  | PdoAddDeviceText string string NTSTATUS

text \<open>
  \<open>fdo\<close> is the FDO's context and \<open>pdos\<close> the contexts of the radio PDOs that exist; \<open>fw\<close> is the
  framework's own state. \<open>pool\<close> counts the packet allocations made and not yet freed.
\<close>

record 'w sys =
  fdo :: WINVHCI_FDO_CONTEXT
  pdos :: "WDFDEVICE \<Rightarrow> WINVHCI_PDO_CONTEXT option"
  fw :: 'w
  mem :: memory
  pool :: int
  calls :: "wdf_call list"

definition upd_fdo :: "(WINVHCI_FDO_CONTEXT \<Rightarrow> WINVHCI_FDO_CONTEXT) \<Rightarrow> 'w sys \<Rightarrow> 'w sys" where
  "upd_fdo f s = s\<lparr>fdo := f (fdo s)\<rparr>"

definition log_call :: "wdf_call \<Rightarrow> 'w sys \<Rightarrow> 'w sys" where
  "log_call c s = s\<lparr>calls := calls s @ [c]\<rparr>"

definition acquire :: "'w sys \<Rightarrow> 'w sys" where
  "acquire s = log_call SpinLockAcquire s"

definition release :: "'w sys \<Rightarrow> 'w sys" where
  "release s = log_call SpinLockRelease s"

definition WdfRequestCompleteWithInformation ::
  "WDFREQUEST \<Rightarrow> NTSTATUS \<Rightarrow> ULONG_PTR \<Rightarrow> 'w sys \<Rightarrow> 'w sys" where
  "WdfRequestCompleteWithInformation r st info s = log_call (RequestComplete r st info) s"

definition WdfRequestComplete :: "WDFREQUEST \<Rightarrow> NTSTATUS \<Rightarrow> 'w sys \<Rightarrow> 'w sys" where
  "WdfRequestComplete r st s = WdfRequestCompleteWithInformation r st 0 s"

definition ExFreePoolWithTag :: "WINVHCI_PACKET \<Rightarrow> 'w sys \<Rightarrow> 'w sys" where
  "ExFreePoolWithTag p s = s\<lparr>pool := pool s - 1\<rparr>"

lemma sys_helpers [simp]:
  "fdo (upd_fdo f s) = f (fdo s)" "pdos (upd_fdo f s) = pdos s" "fw (upd_fdo f s) = fw s"
  "mem (upd_fdo f s) = mem s" "pool (upd_fdo f s) = pool s" "calls (upd_fdo f s) = calls s"
  "fdo (acquire s) = fdo s" "pdos (acquire s) = pdos s" "fw (acquire s) = fw s"
  "mem (acquire s) = mem s" "pool (acquire s) = pool s"
  "calls (acquire s) = calls s @ [SpinLockAcquire]"
  "fdo (release s) = fdo s" "pdos (release s) = pdos s" "fw (release s) = fw s"
  "mem (release s) = mem s" "pool (release s) = pool s"
  "calls (release s) = calls s @ [SpinLockRelease]"
  "fdo (log_call c s) = fdo s" "pdos (log_call c s) = pdos s" "fw (log_call c s) = fw s"
  "mem (log_call c s) = mem s" "pool (log_call c s) = pool s"
  "calls (log_call c s) = calls s @ [c]"
  by (simp_all add: upd_fdo_def acquire_def release_def log_call_def)

lemma complete_helpers [simp]:
  "fdo (WdfRequestCompleteWithInformation r st i s) = fdo s"
  "pdos (WdfRequestCompleteWithInformation r st i s) = pdos s"
  "fw (WdfRequestCompleteWithInformation r st i s) = fw s"
  "mem (WdfRequestCompleteWithInformation r st i s) = mem s"
  "pool (WdfRequestCompleteWithInformation r st i s) = pool s"
  "calls (WdfRequestCompleteWithInformation r st i s) = calls s @ [RequestComplete r st i]"
  "fdo (WdfRequestComplete r st s) = fdo s"
  "pdos (WdfRequestComplete r st s) = pdos s"
  "fw (WdfRequestComplete r st s) = fw s"
  "mem (WdfRequestComplete r st s) = mem s"
  "pool (WdfRequestComplete r st s) = pool s"
  "calls (WdfRequestComplete r st s) = calls s @ [RequestComplete r st 0]"
  "fdo (ExFreePoolWithTag p s) = fdo s"
  "pdos (ExFreePoolWithTag p s) = pdos s"
  "fw (ExFreePoolWithTag p s) = fw s"
  "mem (ExFreePoolWithTag p s) = mem s"
  "pool (ExFreePoolWithTag p s) = pool s - 1"
  "calls (ExFreePoolWithTag p s) = calls s"
  by (simp_all add: WdfRequestCompleteWithInformation_def WdfRequestComplete_def
      ExFreePoolWithTag_def)

section \<open>The allocation-failure knob\<close>

text \<open>\<open>WinVhciTestFailAlloc\<close>: the sequence number advances only when the knob is set.\<close>

definition WinVhciTestFailAlloc :: "WINVHCI_FDO_CONTEXT \<Rightarrow> bool \<times> WINVHCI_FDO_CONTEXT" where
  "WinVhciTestFailAlloc ctx =
     (if FailAllocOneIn ctx = 0 then (False, ctx)
      else let seq = AllocSeq ctx + 1
           in (seq mod FailAllocOneIn ctx = 0, ctx\<lparr>AllocSeq := seq\<rparr>))"

lemma WinVhciTestFailAlloc_off [simp]:
  "FailAllocOneIn ctx = 0 \<Longrightarrow> WinVhciTestFailAlloc ctx = (False, ctx)"
  by (simp add: WinVhciTestFailAlloc_def)

text \<open>The answers of \<open>k\<close> calls in a row.\<close>

fun fail_pattern :: "nat \<Rightarrow> WINVHCI_FDO_CONTEXT \<Rightarrow> bool list" where
  "fail_pattern 0 ctx = []"
| "fail_pattern (Suc k) ctx =
     (let (f, ctx') = WinVhciTestFailAlloc ctx in f # fail_pattern k ctx')"

text \<open>And the context they leave.\<close>

fun after_calls :: "nat \<Rightarrow> WINVHCI_FDO_CONTEXT \<Rightarrow> WINVHCI_FDO_CONTEXT" where
  "after_calls 0 ctx = ctx"
| "after_calls (Suc k) ctx = after_calls k (snd (WinVhciTestFailAlloc ctx))"

lemma after_calls_count:
  "after_calls k c = (if FailAllocOneIn c = 0 then c else c\<lparr>AllocSeq := AllocSeq c + of_nat k\<rparr>)"
proof (induction k arbitrary: c)
  case (Suc k)
  then show ?case
    by (cases "FailAllocOneIn c = 0") (simp_all add: WinVhciTestFailAlloc_def Let_def add.assoc)
qed simp

end
