(* ===== verification/Packet_Pool.thy ===== *)
theory Packet_Pool
  imports Winvhci_Types
begin

text \<open>
  The steps the two directions of the data path share: taking a pended read off a manual queue,
  allocating and filling a packet, freeing a list of them (\<open>user.c\<close>, \<open>WinVhciAllocPacket\<close> and
  \<open>WinVhciFreeList\<close>), with what each does to the device context, the framework's queues and
  the count of outstanding allocations.
\<close>

section \<open>The knob changes nothing but its own sequence number\<close>

lemma TestFailAlloc_fields [simp, ctx_simps]:
  "Device (snd (WinVhciTestFailAlloc c)) = Device c"
  "BthxIoQueue (snd (WinVhciTestFailAlloc c)) = BthxIoQueue c"
  "ReadEventQueue (snd (WinVhciTestFailAlloc c)) = ReadEventQueue c"
  "ReadDataQueue (snd (WinVhciTestFailAlloc c)) = ReadDataQueue c"
  "UserReadQueue (snd (WinVhciTestFailAlloc c)) = UserReadQueue c"
  "Owner (snd (WinVhciTestFailAlloc c)) = Owner c"
  "HostToCtrlList (snd (WinVhciTestFailAlloc c)) = HostToCtrlList c"
  "PendingEventList (snd (WinVhciTestFailAlloc c)) = PendingEventList c"
  "PendingDataList (snd (WinVhciTestFailAlloc c)) = PendingDataList c"
  "HostToCtrlCount (snd (WinVhciTestFailAlloc c)) = HostToCtrlCount c"
  "PendingEventCount (snd (WinVhciTestFailAlloc c)) = PendingEventCount c"
  "PendingDataCount (snd (WinVhciTestFailAlloc c)) = PendingDataCount c"
  "HostToCtrlPeak (snd (WinVhciTestFailAlloc c)) = HostToCtrlPeak c"
  "PendingEventPeak (snd (WinVhciTestFailAlloc c)) = PendingEventPeak c"
  "PendingDataPeak (snd (WinVhciTestFailAlloc c)) = PendingDataPeak c"
  "DropsNoClient (snd (WinVhciTestFailAlloc c)) = DropsNoClient c"
  "DropsAllocFailed (snd (WinVhciTestFailAlloc c)) = DropsAllocFailed c"
  "WritesTotal (snd (WinVhciTestFailAlloc c)) = WritesTotal c"
  "QueuedToUserTotal (snd (WinVhciTestFailAlloc c)) = QueuedToUserTotal c"
  "WritesNoRadio (snd (WinVhciTestFailAlloc c)) = WritesNoRadio c"
  "RadiosAlive (snd (WinVhciTestFailAlloc c)) = RadiosAlive c"
  "RadioPresent (snd (WinVhciTestFailAlloc c)) = RadioPresent c"
  "RadioStarted (snd (WinVhciTestFailAlloc c)) = RadioStarted c"
  "CurrentRadioId (snd (WinVhciTestFailAlloc c)) = CurrentRadioId c"
  "NextRadioId (snd (WinVhciTestFailAlloc c)) = NextRadioId c"
  "FailAllocOneIn (snd (WinVhciTestFailAlloc c)) = FailAllocOneIn c"
  by (simp_all add: WinVhciTestFailAlloc_def Let_def)

section \<open>Taking a pended read\<close>

text \<open>
  \<open>if (cond) { status = WdfIoQueueRetrieveNextRequest(queue, &request); if (!NT_SUCCESS(status))
  request = NULL; }\<close> with \<open>request\<close> initially \<open>NULL\<close>: the shape of both rendezvous.
\<close>

definition retrieve_when ::
  "'w wdf \<Rightarrow> bool \<Rightarrow> WDFQUEUE \<Rightarrow> 'w sys \<Rightarrow> WDFREQUEST option \<times> 'w sys" where
  "retrieve_when W cond queue s =
     (if cond then
        case WdfIoQueueRetrieveNextRequest W queue (fw s) of
          ((status, request), w') \<Rightarrow>
            (if NT_SUCCESS status then Some request else None, s\<lparr>fw := w'\<rparr>)
      else (None, s))"

lemma retrieve_when_frame [simp]:
  "fdo (snd (retrieve_when W b q s)) = fdo s"
  "pdos (snd (retrieve_when W b q s)) = pdos s"
  "mem (snd (retrieve_when W b q s)) = mem s"
  "pool (snd (retrieve_when W b q s)) = pool s"
  "calls (snd (retrieve_when W b q s)) = calls s"
  by (simp_all add: retrieve_when_def split: prod.split)

section \<open>Allocating a packet\<close>

text \<open>
  \<open>WinVhciAllocPacket\<close>. The header of the C struct is 24 bytes (a list entry, the type byte and the
  length, aligned); the size is computed in 32 bits, as \<open>FIELD_OFFSET(...) + Length\<close> is.
\<close>

definition packet_alloc_size :: "ULONG \<Rightarrow> SIZE_T" where
  "packet_alloc_size Length = ucast (24 + Length)"

definition WinVhciAllocPacket ::
  "'w wdf \<Rightarrow> UCHAR \<Rightarrow> UCHAR list \<Rightarrow> ULONG \<Rightarrow> 'w sys \<Rightarrow> WINVHCI_PACKET option \<times> 'w sys" where
  "WinVhciAllocPacket W Type Body Length s =
     (case ExAllocatePool2 W (packet_alloc_size Length) (fw s) of
        (ok, w') \<Rightarrow>
          if \<not> ok then (None, s\<lparr>fw := w'\<rparr>)
          else (Some \<lparr>pkt_Type = Type, pkt_Length = Length,
                      pkt_Data = (if Length \<noteq> 0 then take (unat Length) Body else [])\<rparr>,
                s\<lparr>fw := w', pool := pool s + 1\<rparr>))"

text \<open>\<open>p = WinVhciTestFailAlloc(Ctx) ? NULL : <allocate and fill>\<close>\<close>

definition alloc_unless_injected ::
  "'w wdf \<Rightarrow> UCHAR \<Rightarrow> UCHAR list \<Rightarrow> ULONG \<Rightarrow> 'w sys \<Rightarrow> WINVHCI_PACKET option \<times> 'w sys" where
  "alloc_unless_injected W Type Body Length s =
     (let inject = fst (WinVhciTestFailAlloc (fdo s));
          s = s\<lparr>fdo := snd (WinVhciTestFailAlloc (fdo s))\<rparr>
      in if inject then (None, s) else WinVhciAllocPacket W Type Body Length s)"

text \<open>The packet both allocation sites make.\<close>

definition packet_of :: "UCHAR \<Rightarrow> UCHAR list \<Rightarrow> ULONG \<Rightarrow> WINVHCI_PACKET" where
  "packet_of Type Body Length =
     \<lparr>pkt_Type = Type, pkt_Length = Length, pkt_Data = take (unat Length) Body\<rparr>"

lemma packet_of_sel [simp]:
  "pkt_Type (packet_of t b n) = t" "pkt_Length (packet_of t b n) = n"
  "pkt_Data (packet_of t b n) = take (unat n) b"
  by (simp_all add: packet_of_def)

text \<open>A packet is whole when its length field says how many bytes it has.\<close>

definition pkt_whole :: "WINVHCI_PACKET \<Rightarrow> bool" where
  "pkt_whole p \<longleftrightarrow> length (pkt_Data p) = unat (pkt_Length p)"

lemma packet_of_whole [simp]:
  "pkt_whole p \<Longrightarrow> packet_of (pkt_Type p) (pkt_Data p) (pkt_Length p) = p"
  by (simp add: pkt_whole_def packet_of_def)

lemma WinVhciAllocPacket_frame [simp]:
  "fdo (snd (WinVhciAllocPacket W t b n s)) = fdo s"
  "pdos (snd (WinVhciAllocPacket W t b n s)) = pdos s"
  "mem (snd (WinVhciAllocPacket W t b n s)) = mem s"
  "calls (snd (WinVhciAllocPacket W t b n s)) = calls s"
  by (simp_all add: WinVhciAllocPacket_def split: prod.split)

lemma WinVhciAllocPacket_result:
  "fst (WinVhciAllocPacket W t b n s) \<in> {None, Some (packet_of t b n)}"
  by (auto simp: WinVhciAllocPacket_def packet_of_def unat_eq_0 split: prod.split)

lemma WinVhciAllocPacket_pool:
  "pool (snd (WinVhciAllocPacket W t b n s)) =
     pool s + (if fst (WinVhciAllocPacket W t b n s) = None then 0 else 1)"
  by (simp add: WinVhciAllocPacket_def split: prod.split)

lemma alloc_unless_injected_frame [simp]:
  "pdos (snd (alloc_unless_injected W t b n s)) = pdos s"
  "mem (snd (alloc_unless_injected W t b n s)) = mem s"
  "calls (snd (alloc_unless_injected W t b n s)) = calls s"
  "fdo (snd (alloc_unless_injected W t b n s)) = snd (WinVhciTestFailAlloc (fdo s))"
  by (simp_all add: alloc_unless_injected_def Let_def)

lemma alloc_unless_injected_result:
  "fst (alloc_unless_injected W t b n s) \<in> {None, Some (packet_of t b n)}"
  using WinVhciAllocPacket_result [of W t b n]
  by (auto simp: alloc_unless_injected_def Let_def)

lemma alloc_unless_injected_pool:
  "pool (snd (alloc_unless_injected W t b n s)) =
     pool s + (if fst (alloc_unless_injected W t b n s) = None then 0 else 1)"
  by (simp add: alloc_unless_injected_def Let_def WinVhciAllocPacket_pool)

section \<open>Freeing a backlog\<close>

text \<open>
  \<open>WinVhciFreeList\<close>: the loop removes the head and frees it until the list is empty, then
  clears the count. The recursion is the loop; the result is the list and the count it leaves.
\<close>

fun free_all :: "WINVHCI_PACKET list \<Rightarrow> 'w sys \<Rightarrow> 'w sys" where
  "free_all [] s = s"
| "free_all (p # ps) s = free_all ps (ExFreePoolWithTag p s)"

definition WinVhciFreeList ::
  "WINVHCI_PACKET list \<Rightarrow> 'w sys \<Rightarrow> (WINVHCI_PACKET list \<times> ULONG) \<times> 'w sys" where
  "WinVhciFreeList Head s = (([], 0), free_all Head s)"

lemma free_all_frame [simp]:
  "fdo (free_all ps s) = fdo s" "pdos (free_all ps s) = pdos s" "fw (free_all ps s) = fw s"
  "mem (free_all ps s) = mem s" "calls (free_all ps s) = calls s"
  "pool (free_all ps s) = pool s - int (length ps)"
  by (induction ps arbitrary: s) simp_all

section \<open>What the helpers do to the queues\<close>

context wdf_queues
begin

lemma retrieve_when_some:
  assumes "fst (retrieve_when W b q s) = Some r"
  shows "b" and "\<exists>rs. contents (fw s) q = r # rs
      \<and> contents (fw (snd (retrieve_when W b q s))) = (contents (fw s))(q := rs)"
proof -
  show b using assms by (simp add: retrieve_when_def split: if_splits)
  with assms show "\<exists>rs. contents (fw s) q = r # rs
      \<and> contents (fw (snd (retrieve_when W b q s))) = (contents (fw s))(q := rs)"
    by (auto simp: retrieve_when_def dest: retrieve_success split: if_splits prod.splits)
qed

lemma retrieve_when_none:
  assumes "fst (retrieve_when W b q s) = None"
  shows "contents (fw (snd (retrieve_when W b q s))) = contents (fw s)"
    and "b \<Longrightarrow> contents (fw s) q = []"
  using assms
  by (auto simp: retrieve_when_def dest: retrieve_failure split: if_splits prod.splits)

lemma alloc_contents [simp]:
  "contents (fw (snd (WinVhciAllocPacket W t b n s))) = contents (fw s)"
  using allocate_contents [of "packet_alloc_size n" "fw s"]
  by (auto simp: WinVhciAllocPacket_def split: prod.split)

lemma alloc_unless_injected_contents [simp]:
  "contents (fw (snd (alloc_unless_injected W t b n s))) = contents (fw s)"
  by (simp add: alloc_unless_injected_def Let_def)

end

context wdf_reliable
begin

lemma alloc_reliable:
  "FailAllocOneIn (fdo s) = 0 \<Longrightarrow>
   fst (alloc_unless_injected W t b n s) = Some (packet_of t b n)"
  using allocate_ok [of "packet_alloc_size n" "fw s"]
  by (auto simp: alloc_unless_injected_def WinVhciAllocPacket_def Let_def packet_of_def
      unat_eq_0 split: prod.split)

end

end
