(* ===== verification/Rendezvous.thy ===== *)
theory Rendezvous
  imports Main
begin

text \<open>
  The rule both directions of the data path obey (\<open>user.c\<close>, head comment; \<open>docs/design.md\<close>, "Queues
  and the rendezvous"), as a contract: a packet meets the oldest waiting read or is queued, a read
  meets the oldest queued packet or waits. The contract is a locale; the driver's three channels
  are shown to satisfy it where they are defined. From it alone follows what a client of a channel
  is promised: the \<open>i\<close>-th read gets the \<open>i\<close>-th packet, whatever the order in which reads and
  packets arrive, and the surplus of either side waits.
\<close>

section \<open>Histories\<close>

datatype ('p, 'r) rv_op = Put 'p | Get 'r

fun puts :: "('p, 'r) rv_op list \<Rightarrow> 'p list" where
  "puts [] = []"
| "puts (Put p # ops) = p # puts ops"
| "puts (Get r # ops) = puts ops"

fun gets :: "('p, 'r) rv_op list \<Rightarrow> 'r list" where
  "gets [] = []"
| "gets (Put p # ops) = gets ops"
| "gets (Get r # ops) = r # gets ops"

text \<open>The pairs of read and packet a channel brings together, in the order it does so.\<close>

fun rv_run ::
  "('p \<Rightarrow> 's \<Rightarrow> 'r option \<times> 's) \<Rightarrow> ('r \<Rightarrow> 's \<Rightarrow> 'p option \<times> 's) \<Rightarrow>
   ('p, 'r) rv_op list \<Rightarrow> 's \<Rightarrow> ('r \<times> 'p) list \<times> 's" where
  "rv_run put get [] s = ([], s)"
| "rv_run put get (Put p # ops) s =
     (case put p s of (ro, s1) \<Rightarrow>
        (case rv_run put get ops s1 of (ms, s2) \<Rightarrow>
           (case ro of None \<Rightarrow> ms | Some r \<Rightarrow> (r, p) # ms, s2)))"
| "rv_run put get (Get r # ops) s =
     (case get r s of (po, s1) \<Rightarrow>
        (case rv_run put get ops s1 of (ms, s2) \<Rightarrow>
           (case po of None \<Rightarrow> ms | Some p \<Rightarrow> (r, p) # ms, s2)))"

section \<open>The contract\<close>

text \<open>
  \<open>ready\<close> is what a channel needs to serve (a client is there, allocations succeed, its counter
  agrees with its list); \<open>valid\<close> are the packets the rest of the driver hands it.
\<close>

locale rendezvous =
  fixes put :: "'p \<Rightarrow> 's \<Rightarrow> 'r option \<times> 's"
    and get :: "'r \<Rightarrow> 's \<Rightarrow> 'p option \<times> 's"
    and waiting :: "'s \<Rightarrow> 'r list"
    and backlog :: "'s \<Rightarrow> 'p list"
    and ready :: "'s \<Rightarrow> bool"
    and valid :: "'p \<Rightarrow> bool"
  assumes put_hands_over:
      "ready s \<Longrightarrow> valid p \<Longrightarrow> waiting s = r # rs \<Longrightarrow> backlog s = [] \<Longrightarrow>
       \<exists>s'. put p s = (Some r, s') \<and> ready s' \<and> waiting s' = rs \<and> backlog s' = []"
    and put_queues:
      "ready s \<Longrightarrow> valid p \<Longrightarrow> waiting s = [] \<Longrightarrow>
       \<exists>s'. put p s = (None, s') \<and> ready s' \<and> waiting s' = [] \<and> backlog s' = backlog s @ [p]"
    and get_takes:
      "ready s \<Longrightarrow> waiting s = [] \<Longrightarrow> backlog s = p # ps \<Longrightarrow>
       \<exists>s'. get r s = (Some p, s') \<and> ready s' \<and> waiting s' = [] \<and> backlog s' = ps"
    and get_parks:
      "ready s \<Longrightarrow> backlog s = [] \<Longrightarrow>
       \<exists>s'. get r s = (None, s') \<and> ready s' \<and> waiting s' = waiting s @ [r] \<and> backlog s' = []"
begin

text \<open>
  From any state in which one side is empty: reads and packets are paired in order, counting
  those already there.
\<close>

lemma run_pairs_from:
  assumes "ready s" and "list_all valid (puts ops)" and "waiting s = [] \<or> backlog s = []"
    and "rv_run put get ops s = (ms, s')"
  shows "ms = zip (waiting s @ gets ops) (backlog s @ puts ops)
    \<and> waiting s' = drop (length (backlog s @ puts ops)) (waiting s @ gets ops)
    \<and> backlog s' = drop (length (waiting s @ gets ops)) (backlog s @ puts ops)
    \<and> ready s'"
  using assms
proof (induction ops arbitrary: s ms)
  case Nil
  then show ?case by auto
next
  case (Cons x ops)
  show ?case
  proof (cases x)
    case (Put p)
    show ?thesis
    proof (cases "waiting s")
      case Nil
      then obtain s1 where s1: "put p s = (None, s1)" "ready s1" "waiting s1 = []"
          "backlog s1 = backlog s @ [p]"
        using put_queues [of s p] Cons.prems Put by auto
      with Cons.prems Put have "rv_run put get ops s1 = (ms, s')"
        by (auto split: prod.splits)
      with Cons.IH [of s1 ms] Cons.prems s1 Put Nil show ?thesis by simp
    next
      case w: (Cons r rs)
      then obtain s1 where s1: "put p s = (Some r, s1)" "ready s1" "waiting s1 = rs"
          "backlog s1 = []"
        using put_hands_over [of s p r rs] Cons.prems Put by auto
      with Cons.prems Put obtain ms1 where "rv_run put get ops s1 = (ms1, s')" "ms = (r, p) # ms1"
        by (auto split: prod.splits)
      with Cons.IH [of s1 ms1] Cons.prems s1 Put w show ?thesis by simp
    qed
  next
    case (Get r)
    show ?thesis
    proof (cases "backlog s")
      case Nil
      then obtain s1 where s1: "get r s = (None, s1)" "ready s1" "waiting s1 = waiting s @ [r]"
          "backlog s1 = []"
        using get_parks [of s r] Cons.prems by auto
      with Cons.prems Get have "rv_run put get ops s1 = (ms, s')"
        by (auto split: prod.splits)
      with Cons.IH [of s1 ms] Cons.prems s1 Get Nil show ?thesis by simp
    next
      case b: (Cons p ps)
      then obtain s1 where s1: "get r s = (Some p, s1)" "ready s1" "waiting s1 = []"
          "backlog s1 = ps"
        using get_takes [of s p ps r] Cons.prems by auto
      with Cons.prems Get obtain ms1 where "rv_run put get ops s1 = (ms1, s')" "ms = (r, p) # ms1"
        by (auto split: prod.splits)
      with Cons.IH [of s1 ms1] Cons.prems s1 Get b show ?thesis by simp
    qed
  qed
qed

lemma run_pairs:
  assumes "ready s" and "waiting s = []" and "backlog s = []" and "list_all valid (puts ops)"
    and "rv_run put get ops s = (ms, s')"
  shows "ms = zip (gets ops) (puts ops)
    \<and> waiting s' = drop (length (puts ops)) (gets ops)
    \<and> backlog s' = drop (length (gets ops)) (puts ops)"
  using run_pairs_from [of s ops ms s'] assms by simp

text \<open>Never both: after any history one side is empty.\<close>

lemma run_excludes:
  assumes "ready s" and "waiting s = []" and "backlog s = []" and "list_all valid (puts ops)"
    and "rv_run put get ops s = (ms, s')"
  shows "waiting s' = [] \<or> backlog s' = []"
  using run_pairs [OF assms] by (cases "length (puts ops) \<le> length (gets ops)") simp_all

end

section \<open>The specification itself\<close>

text \<open>
  The smallest thing that meets the contract: two lists. A channel of the driver behaves like it
  through \<open>waiting\<close> and \<open>backlog\<close>.
\<close>

type_synonym ('p, 'r) spec_channel = "'r list \<times> 'p list"

fun spec_put :: "'p \<Rightarrow> ('p, 'r) spec_channel \<Rightarrow> 'r option \<times> ('p, 'r) spec_channel" where
  "spec_put p ([], ps) = (None, ([], ps @ [p]))"
| "spec_put p (r # rs, ps) = (Some r, (rs, ps))"

fun spec_get :: "'r \<Rightarrow> ('p, 'r) spec_channel \<Rightarrow> 'p option \<times> ('p, 'r) spec_channel" where
  "spec_get r (rs, []) = (None, (rs @ [r], []))"
| "spec_get r (rs, p # ps) = (Some p, (rs, ps))"

interpretation spec: rendezvous spec_put spec_get fst snd "\<lambda>_. True" "\<lambda>_. True"
  by unfold_locales auto

text \<open>
  Any implementation of the contract is simulated by the specification: same answers, and the
  lists of the two stay equal.
\<close>

context rendezvous
begin

lemma refines_spec_put:
  assumes "ready s" and "valid p" and "waiting s = [] \<or> backlog s = []"
  shows "spec_put p (waiting s, backlog s) =
    (fst (put p s), (waiting (snd (put p s)), backlog (snd (put p s))))"
proof (cases "waiting s")
  case Nil
  with put_queues [OF assms(1,2)] show ?thesis by auto
next
  case (Cons r rs)
  with put_hands_over [OF assms(1,2) Cons] assms(3) show ?thesis by auto
qed

lemma refines_spec_get:
  assumes "ready s" and "waiting s = [] \<or> backlog s = []"
  shows "spec_get r (waiting s, backlog s) =
    (fst (get r s), (waiting (snd (get r s)), backlog (snd (get r s))))"
proof (cases "backlog s")
  case Nil
  with get_parks [OF assms(1) Nil, of r] show ?thesis by auto
next
  case (Cons p ps)
  with get_takes [OF assms(1) _ Cons, of r] assms(2) show ?thesis by auto
qed

end

end
