(* ===== verification/User_Channel.thy ===== *)
theory User_Channel
  imports Packet_Pool Rendezvous
begin

text \<open>
  Stack to userspace (\<open>user.c\<close>): \<open>WinVhciQueueToUser\<close> hands a packet to a pended \<open>ReadFile\<close> or
  queues it, \<open>WinVhciEvtIoRead\<close> takes the oldest queued packet or parks the read. Each is a locked
  region that decides, then unlocked code that fills the reader's buffer and completes the request.
\<close>

section \<open>WinVhciQueueToUser\<close>

text \<open>\<open>InsertTailList\<close> and the counters, in the region's last branch.\<close>

definition queue_to_user_ctx :: "WINVHCI_PACKET \<Rightarrow> WINVHCI_FDO_CONTEXT \<Rightarrow> WINVHCI_FDO_CONTEXT" where
  "queue_to_user_ctx p c =
     (let n = HostToCtrlCount c + 1
      in c\<lparr>HostToCtrlList := HostToCtrlList c @ [p],
           HostToCtrlCount := n,
           QueuedToUserTotal := QueuedToUserTotal c + 1,
           HostToCtrlPeak := (if HostToCtrlPeak c < n then n else HostToCtrlPeak c)\<rparr>)"

text \<open>
  The locked region: \<open>Some request\<close> when a reader was waiting, \<open>None\<close> when the packet was queued or
  dropped.
\<close>

definition WinVhciQueueToUser_locked ::
  "'w wdf \<Rightarrow> UCHAR \<Rightarrow> UCHAR list \<Rightarrow> ULONG \<Rightarrow> 'w sys \<Rightarrow> WDFREQUEST option \<times> 'w sys" where
  "WinVhciQueueToUser_locked W Type Body Length s =
     (let s = acquire s in
      if Owner (fdo s) = NULL_HANDLE then
        (None, release (upd_fdo (\<lambda>c. c\<lparr>DropsNoClient := DropsNoClient c + 1\<rparr>) s))
      else
        case retrieve_when W (HostToCtrlCount (fdo s) = 0) (UserReadQueue (fdo s)) s of
          (Some request, s) \<Rightarrow> (Some request, release s)
        | (None, s) \<Rightarrow>
            (case alloc_unless_injected W Type Body Length s of
               (None, s) \<Rightarrow>
                 (None, release (upd_fdo (\<lambda>c. c\<lparr>DropsAllocFailed := DropsAllocFailed c + 1\<rparr>) s))
             | (Some p, s) \<Rightarrow> (None, release (upd_fdo (queue_to_user_ctx p) s))))"

text \<open>The unlocked tail: the waiting reader's buffer gets the type byte and the body.\<close>

definition fill_reader ::
  "PVOID \<Rightarrow> UCHAR \<Rightarrow> UCHAR list \<Rightarrow> ULONG \<Rightarrow> 'w sys \<Rightarrow> 'w sys" where
  "fill_reader buffer Type Body Length s =
     s\<lparr>mem := (let m = store_bytes (mem s) buffer [Type]
              in if Length \<noteq> 0 then store_bytes m (buffer + 1) (take (unat Length) Body) else m)\<rparr>"

definition WinVhciQueueToUser_complete ::
  "'w wdf \<Rightarrow> WDFREQUEST \<Rightarrow> UCHAR \<Rightarrow> UCHAR list \<Rightarrow> ULONG \<Rightarrow> 'w sys \<Rightarrow> 'w sys" where
  "WinVhciQueueToUser_complete W request Type Body Length s =
     (case WdfRequestRetrieveOutputBuffer W request 1 of
        (status, buffer, bufferLength) \<Rightarrow>
          if \<not> NT_SUCCESS status \<or> bufferLength < ucast Length + 1 then
            WdfRequestComplete request STATUS_BUFFER_TOO_SMALL s
          else
            WdfRequestCompleteWithInformation request STATUS_SUCCESS (ucast Length + 1)
              (fill_reader buffer Type Body Length s))"

definition WinVhciQueueToUser ::
  "'w wdf \<Rightarrow> UCHAR \<Rightarrow> UCHAR list \<Rightarrow> ULONG \<Rightarrow> ('w sys, unit) prog" where
  "WinVhciQueueToUser W Type Body Length =
     atomically (WinVhciQueueToUser_locked W Type Body Length)
       (\<lambda>request. case request of
          None \<Rightarrow> Return ()
        | Some r \<Rightarrow> act (WinVhciQueueToUser_complete W r Type Body Length) (Return ()))"

section \<open>WinVhciEvtIoRead\<close>

text \<open>
  The locked region: the oldest packet of the backlog, or the status of parking the read.
\<close>

definition WinVhciEvtIoRead_locked ::
  "'w wdf \<Rightarrow> WDFREQUEST \<Rightarrow> 'w sys \<Rightarrow> (WINVHCI_PACKET option \<times> NTSTATUS) \<times> 'w sys" where
  "WinVhciEvtIoRead_locked W Request s =
     (let s = acquire s in
      case HostToCtrlList (fdo s) of
        p # ps \<Rightarrow>
          ((Some p, STATUS_SUCCESS),
           release (upd_fdo (\<lambda>c. c\<lparr>HostToCtrlList := ps,
                                  HostToCtrlCount := HostToCtrlCount c - 1\<rparr>) s))
      | [] \<Rightarrow>
          (case WdfRequestForwardToIoQueue W Request (UserReadQueue (fdo s)) (fw s) of
             (status, w') \<Rightarrow> ((None, status), release (s\<lparr>fw := w'\<rparr>))))"

definition WinVhciEvtIoRead_complete ::
  "'w wdf \<Rightarrow> WDFREQUEST \<Rightarrow> WINVHCI_PACKET \<Rightarrow> 'w sys \<Rightarrow> 'w sys" where
  "WinVhciEvtIoRead_complete W Request p s =
     ExFreePoolWithTag p
       (case WdfRequestRetrieveOutputBuffer W Request 1 of
          (status, buffer, bufferLength) \<Rightarrow>
            if NT_SUCCESS status \<and> ucast (pkt_Length p) + 1 \<le> bufferLength then
              WdfRequestCompleteWithInformation Request STATUS_SUCCESS (ucast (pkt_Length p) + 1)
                (fill_reader buffer (pkt_Type p) (pkt_Data p) (pkt_Length p) s)
            else
              WdfRequestComplete Request
                (if NT_SUCCESS status then STATUS_BUFFER_TOO_SMALL else status) s)"

definition WinVhciEvtIoRead :: "'w wdf \<Rightarrow> WDFREQUEST \<Rightarrow> SIZE_T \<Rightarrow> ('w sys, unit) prog" where
  "WinVhciEvtIoRead W Request Length =
     (if Length < ucast WINVHCI_MAX_H4_PACKET then
        act (WdfRequestComplete Request STATUS_BUFFER_TOO_SMALL) (Return ())
      else
        atomically (WinVhciEvtIoRead_locked W Request)
          (\<lambda>(p, status). case p of
             Some p \<Rightarrow> act (WinVhciEvtIoRead_complete W Request p) (Return ())
           | None \<Rightarrow>
               if \<not> NT_SUCCESS status then act (WdfRequestComplete Request status) (Return ())
               else Return ()))"

section \<open>What the regions do\<close>

lemma queue_to_user_ctx_fields [simp, ctx_simps]:
  "Owner (queue_to_user_ctx p c) = Owner c"
  "UserReadQueue (queue_to_user_ctx p c) = UserReadQueue c"
  "ReadEventQueue (queue_to_user_ctx p c) = ReadEventQueue c"
  "ReadDataQueue (queue_to_user_ctx p c) = ReadDataQueue c"
  "HostToCtrlList (queue_to_user_ctx p c) = HostToCtrlList c @ [p]"
  "HostToCtrlCount (queue_to_user_ctx p c) = HostToCtrlCount c + 1"
  "HostToCtrlPeak (queue_to_user_ctx p c) =
     (if HostToCtrlPeak c < HostToCtrlCount c + 1 then HostToCtrlCount c + 1 else HostToCtrlPeak c)"
  "PendingEventList (queue_to_user_ctx p c) = PendingEventList c"
  "PendingDataList (queue_to_user_ctx p c) = PendingDataList c"
  "PendingEventCount (queue_to_user_ctx p c) = PendingEventCount c"
  "PendingDataCount (queue_to_user_ctx p c) = PendingDataCount c"
  "PendingEventPeak (queue_to_user_ctx p c) = PendingEventPeak c"
  "PendingDataPeak (queue_to_user_ctx p c) = PendingDataPeak c"
  "DropsNoClient (queue_to_user_ctx p c) = DropsNoClient c"
  "DropsAllocFailed (queue_to_user_ctx p c) = DropsAllocFailed c"
  "QueuedToUserTotal (queue_to_user_ctx p c) = QueuedToUserTotal c + 1"
  "FailAllocOneIn (queue_to_user_ctx p c) = FailAllocOneIn c"
  "RadioPresent (queue_to_user_ctx p c) = RadioPresent c"
  "RadioStarted (queue_to_user_ctx p c) = RadioStarted c"
  "CurrentRadioId (queue_to_user_ctx p c) = CurrentRadioId c"
  "NextRadioId (queue_to_user_ctx p c) = NextRadioId c"
  "RadiosAlive (queue_to_user_ctx p c) = RadiosAlive c"
  by (simp_all add: queue_to_user_ctx_def Let_def)

lemma QueueToUser_locked_frame [simp]:
  "pdos (snd (WinVhciQueueToUser_locked W t b n s)) = pdos s"
  "mem (snd (WinVhciQueueToUser_locked W t b n s)) = mem s"
  "calls (snd (WinVhciQueueToUser_locked W t b n s)) = calls s @ [SpinLockAcquire, SpinLockRelease]"
  using retrieve_when_frame [of W "HostToCtrlCount (fdo s) = 0" "UserReadQueue (fdo s)" "acquire s"]
  by (auto simp: WinVhciQueueToUser_locked_def Let_def split: prod.splits option.splits
      dest!: arg_cong [where f = snd])

text \<open>
  The four outcomes of the region of \<open>WinVhciQueueToUser\<close>: no client, a reader was waiting, the
  packet was queued, the allocation failed.
\<close>

context wdf_queues
begin

lemma QueueToUser_locked_cases:
  fixes s t b n
  defines "s' \<equiv> snd (WinVhciQueueToUser_locked W t b n s)"
    and "r \<equiv> fst (WinVhciQueueToUser_locked W t b n s)"
    and "c \<equiv> fdo s"
    and "c' \<equiv> snd (WinVhciTestFailAlloc (fdo s))"
  obtains
    (no_client) "Owner c = NULL_HANDLE" "r = None" "fw s' = fw s" "pool s' = pool s"
      "fdo s' = c\<lparr>DropsNoClient := DropsNoClient c + 1\<rparr>"
  | (handed) q rs where "Owner c \<noteq> NULL_HANDLE" "r = Some q" "HostToCtrlCount c = 0"
      "contents (fw s) (UserReadQueue c) = q # rs"
      "contents (fw s') = (contents (fw s))(UserReadQueue c := rs)"
      "pool s' = pool s" "fdo s' = c"
  | (queued) "Owner c \<noteq> NULL_HANDLE" "r = None"
      "HostToCtrlCount c = 0 \<Longrightarrow> contents (fw s) (UserReadQueue c) = []"
      "contents (fw s') = contents (fw s)" "pool s' = pool s + 1"
      "fdo s' = queue_to_user_ctx (packet_of t b n) c'"
  | (lost) "Owner c \<noteq> NULL_HANDLE" "r = None"
      "HostToCtrlCount c = 0 \<Longrightarrow> contents (fw s) (UserReadQueue c) = []"
      "contents (fw s') = contents (fw s)" "pool s' = pool s"
      "fdo s' = c'\<lparr>DropsAllocFailed := DropsAllocFailed c' + 1\<rparr>"
      "\<exists>s1. fdo s1 = c \<and> fst (alloc_unless_injected W t b n s1) = None"
proof (cases "Owner c = NULL_HANDLE")
  case True
  then show ?thesis
    by (intro no_client) (simp_all add: WinVhciQueueToUser_locked_def Let_def s'_def r_def c_def)
next
  case client: False
  define s1 where "s1 = retrieve_when W (HostToCtrlCount c = 0) (UserReadQueue c) (acquire s)"
  have frame: "fdo (snd s1) = c" "pool (snd s1) = pool s"
    by (simp_all add: s1_def c_def)
  show ?thesis
  proof (cases "fst s1")
    case (Some q)
    note taken = retrieve_when_some [OF Some [unfolded s1_def], folded s1_def]
    from taken(2) obtain rs where "contents (fw s) (UserReadQueue c) = q # rs"
      "contents (fw (snd s1)) = (contents (fw s))(UserReadQueue c := rs)"
      by auto
    moreover have "r = Some q" "s' = release (snd s1)"
      using client Some
      by (auto simp: WinVhciQueueToUser_locked_def Let_def s'_def r_def c_def s1_def
          split: prod.splits)
    ultimately show ?thesis
      using client taken(1) frame by (intro handed) simp_all
  next
    case None
    note empty = retrieve_when_none [OF None [unfolded s1_def], folded s1_def]
    define s2 where "s2 = alloc_unless_injected W t b n (snd s1)"
    have s2: "contents (fw (snd s2)) = contents (fw s)" "fdo (snd s2) = c'"
      "pool (snd s2) = pool s + (if fst s2 = None then 0 else 1)"
      using empty(1) frame by (simp_all add: s2_def alloc_unless_injected_pool c_def c'_def)
    consider (failed) "fst s2 = None" | (made) "fst s2 = Some (packet_of t b n)"
      using alloc_unless_injected_result [of W t b n "snd s1"] by (auto simp: s2_def)
    then show ?thesis
    proof cases
      case failed
      then have "r = None"
        "s' = release (upd_fdo (\<lambda>c. c\<lparr>DropsAllocFailed := DropsAllocFailed c + 1\<rparr>) (snd s2))"
        using client None
        by (auto simp: WinVhciQueueToUser_locked_def Let_def s'_def r_def c_def s1_def s2_def
            split: prod.splits)
      moreover have "\<exists>s1. fdo s1 = c \<and> fst (alloc_unless_injected W t b n s1) = None"
        using failed frame(1) by (auto simp: s2_def)
      ultimately show ?thesis
        using client s2 failed empty(2) by (intro lost) simp_all
    next
      case made
      then have "r = None" "s' = release (upd_fdo (queue_to_user_ctx (packet_of t b n)) (snd s2))"
        using client None
        by (auto simp: WinVhciQueueToUser_locked_def Let_def s'_def r_def c_def s1_def s2_def
            split: prod.splits)
      with client s2 made empty(2) show ?thesis by (intro queued) simp_all
    qed
  qed
qed

text \<open>The three outcomes of the region of \<open>WinVhciEvtIoRead\<close>.\<close>

lemma EvtIoRead_locked_cases:
  fixes s q
  defines "s' \<equiv> snd (WinVhciEvtIoRead_locked W q s)"
    and "r \<equiv> fst (WinVhciEvtIoRead_locked W q s)"
    and "c \<equiv> fdo s"
  obtains
    (taken) p ps where "HostToCtrlList c = p # ps" "r = (Some p, STATUS_SUCCESS)" "fw s' = fw s"
      "fdo s' = c\<lparr>HostToCtrlList := ps, HostToCtrlCount := HostToCtrlCount c - 1\<rparr>"
  | (parked) st where "HostToCtrlList c = []" "r = (None, st)" "NT_SUCCESS st" "fdo s' = c"
      "contents (fw s') =
        (contents (fw s))(UserReadQueue c := contents (fw s) (UserReadQueue c) @ [q])"
  | (refused) st where "HostToCtrlList c = []" "r = (None, st)" "\<not> NT_SUCCESS st" "fdo s' = c"
      "contents (fw s') = contents (fw s)"
proof (cases "HostToCtrlList c")
  case (Cons p ps)
  then show ?thesis
    by (intro taken) (simp_all add: WinVhciEvtIoRead_locked_def Let_def s'_def r_def c_def)
next
  case Nil
  obtain st w' where fwd: "WdfRequestForwardToIoQueue W q (UserReadQueue c) (fw s) = (st, w')"
    by (metis surj_pair)
  with Nil have "r = (None, st)" "fdo s' = c" "fw s' = w'"
    by (simp_all add: WinVhciEvtIoRead_locked_def Let_def s'_def r_def c_def)
  with Nil show ?thesis
    using forward_success [OF fwd] forward_failure [OF fwd]
    by (cases "NT_SUCCESS st") (auto intro: parked refused)
qed

end

lemma EvtIoRead_locked_frame [simp]:
  "pdos (snd (WinVhciEvtIoRead_locked W q s)) = pdos s"
  "mem (snd (WinVhciEvtIoRead_locked W q s)) = mem s"
  "pool (snd (WinVhciEvtIoRead_locked W q s)) = pool s"
  "calls (snd (WinVhciEvtIoRead_locked W q s)) = calls s @ [SpinLockAcquire, SpinLockRelease]"
  by (simp_all add: WinVhciEvtIoRead_locked_def Let_def split: list.split prod.split)

section \<open>The channel meets the rendezvous contract\<close>

text \<open>
  The two locked regions as the two operations of a rendezvous. The channel serves when a client has the handle, no failure is
  injected and the counter agrees with the list.
\<close>

definition user_put ::
  "'w wdf \<Rightarrow> WINVHCI_PACKET \<Rightarrow> 'w sys \<Rightarrow> WDFREQUEST option \<times> 'w sys" where
  "user_put W p = WinVhciQueueToUser_locked W (pkt_Type p) (pkt_Data p) (pkt_Length p)"

definition user_get ::
  "'w wdf \<Rightarrow> WDFREQUEST \<Rightarrow> 'w sys \<Rightarrow> WINVHCI_PACKET option \<times> 'w sys" where
  "user_get W r s = (case WinVhciEvtIoRead_locked W r s of ((po, status), s') \<Rightarrow> (po, s'))"

definition user_waiting ::
  "('w \<Rightarrow> WDFQUEUE \<Rightarrow> WDFREQUEST list) \<Rightarrow> 'w sys \<Rightarrow> WDFREQUEST list" where
  "user_waiting contents s = contents (fw s) (UserReadQueue (fdo s))"

definition user_backlog :: "'w sys \<Rightarrow> WINVHCI_PACKET list" where
  "user_backlog s = HostToCtrlList (fdo s)"

definition user_ready :: "'w sys \<Rightarrow> bool" where
  "user_ready s \<longleftrightarrow>
     Owner (fdo s) \<noteq> NULL_HANDLE \<and> FailAllocOneIn (fdo s) = 0
     \<and> HostToCtrlCount (fdo s) = of_nat (length (HostToCtrlList (fdo s)))"

lemma user_get_eq:
  "user_get W r s =
     (fst (fst (WinVhciEvtIoRead_locked W r s)), snd (WinVhciEvtIoRead_locked W r s))"
  by (simp add: user_get_def split_def)

lemmas user_channel_defs = user_put_def user_get_eq user_waiting_def user_backlog_def user_ready_def

context wdf_reliable
begin

lemma user_put_hands_over:
  assumes "user_ready s" and "user_waiting contents s = r # rs" and "user_backlog s = []"
  shows "\<exists>s'. user_put W p s = (Some r, s') \<and> user_ready s' \<and> user_waiting contents s' = rs
    \<and> user_backlog s' = []"
proof (cases rule: QueueToUser_locked_cases
    [where s = s and t = "pkt_Type p" and b = "pkt_Data p" and n = "pkt_Length p"])
  case (handed q rs')
  with assms show ?thesis
    by (cases "user_put W p s") (simp add: user_channel_defs)
qed (use assms in \<open>simp_all add: user_channel_defs\<close>)

lemma user_put_queues:
  assumes "user_ready s" and "pkt_whole p" and "user_waiting contents s = []"
  shows "\<exists>s'. user_put W p s = (None, s') \<and> user_ready s' \<and> user_waiting contents s' = []
    \<and> user_backlog s' = user_backlog s @ [p]"
proof (cases rule: QueueToUser_locked_cases
    [where s = s and t = "pkt_Type p" and b = "pkt_Data p" and n = "pkt_Length p"])
  case queued
  with assms show ?thesis
    by (cases "user_put W p s") (simp add: user_channel_defs)
next
  case lost
  with assms show ?thesis
    by (auto simp: user_channel_defs alloc_reliable)
qed (use assms in \<open>simp_all add: user_channel_defs\<close>)

lemma user_get_takes:
  assumes "user_ready s" and "user_waiting contents s = []" and "user_backlog s = p # ps"
  shows "\<exists>s'. user_get W r s = (Some p, s') \<and> user_ready s' \<and> user_waiting contents s' = []
    \<and> user_backlog s' = ps"
proof (cases rule: EvtIoRead_locked_cases [where s = s and q = r])
  case (taken p' ps')
  with assms show ?thesis by (simp add: user_channel_defs)
qed (use assms in \<open>simp_all add: user_channel_defs\<close>)

lemma user_get_parks:
  assumes "user_ready s" and "user_backlog s = []"
  shows "\<exists>s'. user_get W r s = (None, s') \<and> user_ready s'
    \<and> user_waiting contents s' = user_waiting contents s @ [r] \<and> user_backlog s' = []"
proof (cases rule: EvtIoRead_locked_cases [where s = s and q = r])
  case (parked st)
  with assms show ?thesis by (simp add: user_channel_defs)
next
  case (refused st)
  with assms forward_ok [of r "UserReadQueue (fdo s)" "fw s"] show ?thesis
    by (auto simp: WinVhciEvtIoRead_locked_def Let_def user_channel_defs split: prod.splits)
qed (use assms in \<open>simp_all add: user_channel_defs\<close>)

end

sublocale wdf_reliable \<subseteq> user: rendezvous "user_put W" "user_get W" "user_waiting contents"
  user_backlog user_ready pkt_whole
  by unfold_locales
    (simp_all add: user_put_hands_over user_put_queues user_get_takes user_get_parks)

context wdf_reliable
begin

lemmas user_pairs = user.run_pairs_from
lemmas user_refines_put = user.refines_spec_put
lemmas user_refines_get = user.refines_spec_get

end

end
