(* ===== verification/Stack_Channel.thy ===== *)
theory Stack_Channel
  imports Packet_Pool Rendezvous
begin

text \<open>
  Userspace to stack: \<open>WinVhciDeliverToStack\<close> (\<open>fdo.c\<close>) hands a packet to a pended BTHX read of
  its type or queues it, \<open>WinVhciTakeOrParkForStack\<close> (\<open>user.c\<close>) takes the oldest packet of a type or
  parks the read, and \<open>WinVhciCompleteRead\<close> (\<open>fdo.c\<close>) writes one packet into a read's buffer. The
  two channels, events and ACL data, share the code and differ in the fields it selects.
\<close>

section \<open>The channel a packet type selects\<close>

text \<open>
  \<open>WinVhciDeliverToStack\<close> and \<open>WinVhciTakeOrParkForStack\<close> both start by choosing the queue, the list
  and the counter: ACL selects the data channel, anything else the event channel.
\<close>

definition stack_queue :: "UCHAR \<Rightarrow> WINVHCI_FDO_CONTEXT \<Rightarrow> WDFQUEUE" where
  "stack_queue Type c = (if Type = WINVHCI_H4_ACL then ReadDataQueue c else ReadEventQueue c)"

definition stack_list :: "UCHAR \<Rightarrow> WINVHCI_FDO_CONTEXT \<Rightarrow> WINVHCI_PACKET list" where
  "stack_list Type c = (if Type = WINVHCI_H4_ACL then PendingDataList c else PendingEventList c)"

definition stack_count :: "UCHAR \<Rightarrow> WINVHCI_FDO_CONTEXT \<Rightarrow> ULONG" where
  "stack_count Type c = (if Type = WINVHCI_H4_ACL then PendingDataCount c else PendingEventCount c)"

definition stack_peak :: "UCHAR \<Rightarrow> WINVHCI_FDO_CONTEXT \<Rightarrow> ULONG" where
  "stack_peak Type c = (if Type = WINVHCI_H4_ACL then PendingDataPeak c else PendingEventPeak c)"

definition set_stack_list ::
  "UCHAR \<Rightarrow> WINVHCI_PACKET list \<Rightarrow> ULONG \<Rightarrow> WINVHCI_FDO_CONTEXT \<Rightarrow> WINVHCI_FDO_CONTEXT" where
  "set_stack_list Type ps n c =
     (if Type = WINVHCI_H4_ACL then c\<lparr>PendingDataList := ps, PendingDataCount := n\<rparr>
      else c\<lparr>PendingEventList := ps, PendingEventCount := n\<rparr>)"

lemmas stack_channel_defs =
  stack_queue_def stack_list_def stack_count_def stack_peak_def set_stack_list_def

section \<open>WinVhciTakeOrParkForStack\<close>

definition count_pended_read :: "UCHAR \<Rightarrow> WINVHCI_FDO_CONTEXT \<Rightarrow> WINVHCI_FDO_CONTEXT" where
  "count_pended_read Type c =
     (if Type = WINVHCI_H4_ACL then c\<lparr>PendedDataReads := PendedDataReads c + 1\<rparr>
      else c\<lparr>PendedEventReads := PendedEventReads c + 1\<rparr>)"

definition WinVhciTakeOrParkForStack ::
  "'w wdf \<Rightarrow> UCHAR \<Rightarrow> WDFREQUEST \<Rightarrow> WDFQUEUE \<Rightarrow> 'w sys \<Rightarrow>
   (NTSTATUS \<times> WINVHCI_PACKET option) \<times> 'w sys" where
  "WinVhciTakeOrParkForStack W Type Request Queue s =
     (let s = acquire s in
      case stack_list Type (fdo s) of
        p # ps \<Rightarrow>
          ((STATUS_SUCCESS, Some p),
           release (upd_fdo (\<lambda>c. set_stack_list Type ps (stack_count Type c - 1) c) s))
      | [] \<Rightarrow>
          (case WdfRequestForwardToIoQueue W Request Queue (fw s) of
             (status, w') \<Rightarrow>
               let s = s\<lparr>fw := w'\<rparr>;
                   s = (if NT_SUCCESS status then upd_fdo (count_pended_read Type) s else s)
               in ((status, None), release s)))"

section \<open>WinVhciCompleteRead\<close>

text \<open>
  Buffer and length come from the request's IRP. The three stores are the code's: the type byte at
  offset 4, the length at offset 0, the body from offset 5.
\<close>

definition fill_context ::
  "PVOID \<Rightarrow> UCHAR \<Rightarrow> UCHAR list \<Rightarrow> ULONG \<Rightarrow> memory \<Rightarrow> memory" where
  "fill_context out Type Body Length m =
     (let m = store_bytes m (out + 4) [Type];
          m = store_bytes m out (ulong_bytes Length)
      in if Length \<noteq> 0 then store_bytes m (out + 5) (take (unat Length) Body) else m)"

definition WinVhciCompleteRead ::
  "'w wdf \<Rightarrow> WDFREQUEST \<Rightarrow> UCHAR \<Rightarrow> UCHAR list \<Rightarrow> ULONG \<Rightarrow> 'w sys \<Rightarrow> NTSTATUS \<times> 'w sys" where
  "WinVhciCompleteRead W Request Type Body Length s =
     (let irp = WdfRequestWdmGetIrp W Request;
          out = UserBuffer irp
      in if out = NULL \<or> IrpOutputBufferLength irp < WINVHCI_HCI_CONTEXT_HEADER_SIZE then
           (STATUS_INVALID_PARAMETER, WdfRequestComplete Request STATUS_INVALID_PARAMETER s)
         else
           let capacity = IrpOutputBufferLength irp - WINVHCI_HCI_CONTEXT_HEADER_SIZE
           in if capacity < Length then
                (STATUS_BUFFER_TOO_SMALL, WdfRequestComplete Request STATUS_BUFFER_TOO_SMALL s)
              else
                (STATUS_SUCCESS,
                 WdfRequestCompleteWithInformation Request STATUS_SUCCESS
                   (ucast (WINVHCI_HCI_CONTEXT_HEADER_SIZE + Length))
                   (s\<lparr>mem := fill_context out Type Body Length (mem s)\<rparr>)))"

section \<open>WinVhciDeliverToStack\<close>

text \<open>Queueing a packet: list, counter, \<open>WritesTotal\<close> and the channel's peak.\<close>

definition queue_to_stack_ctx ::
  "UCHAR \<Rightarrow> WINVHCI_PACKET \<Rightarrow> WINVHCI_FDO_CONTEXT \<Rightarrow> WINVHCI_FDO_CONTEXT" where
  "queue_to_stack_ctx Type p c =
     (let n = stack_count Type c + 1;
          c = set_stack_list Type (stack_list Type c @ [p]) n c;
          c = c\<lparr>WritesTotal := WritesTotal c + 1\<rparr>
      in if Type = WINVHCI_H4_ACL
         then (if PendingDataPeak c < n then c\<lparr>PendingDataPeak := n\<rparr> else c)
         else (if PendingEventPeak c < n then c\<lparr>PendingEventPeak := n\<rparr> else c))"

text \<open>
  The locked region: the read that takes the packet, or the status to return when it was queued or
  could not be.
\<close>

definition WinVhciDeliverToStack_locked ::
  "'w wdf \<Rightarrow> UCHAR \<Rightarrow> UCHAR list \<Rightarrow> ULONG \<Rightarrow> 'w sys \<Rightarrow>
   (WDFREQUEST option \<times> NTSTATUS) \<times> 'w sys" where
  "WinVhciDeliverToStack_locked W Type Body Length s =
     (let s = acquire s in
      case retrieve_when W (stack_count Type (fdo s) = 0) (stack_queue Type (fdo s)) s of
        (Some request, s) \<Rightarrow>
          ((Some request, STATUS_SUCCESS),
           release (upd_fdo (\<lambda>c. c\<lparr>WritesTotal := WritesTotal c + 1\<rparr>) s))
      | (None, s) \<Rightarrow>
          (case alloc_unless_injected W Type Body Length s of
             (None, s) \<Rightarrow>
               ((None, STATUS_INSUFFICIENT_RESOURCES),
                release (upd_fdo (\<lambda>c. c\<lparr>DropsAllocFailed := DropsAllocFailed c + 1\<rparr>) s))
           | (Some p, s) \<Rightarrow>
               ((None, STATUS_SUCCESS), release (upd_fdo (queue_to_stack_ctx Type p) s))))"

definition WinVhciDeliverToStack ::
  "'w wdf \<Rightarrow> UCHAR \<Rightarrow> UCHAR list \<Rightarrow> ULONG \<Rightarrow> ('w sys, NTSTATUS) prog" where
  "WinVhciDeliverToStack W Type Body Length =
     atomically (WinVhciDeliverToStack_locked W Type Body Length)
       (\<lambda>(request, status). case request of
          None \<Rightarrow> Return status
        | Some r \<Rightarrow> atomically (WinVhciCompleteRead W r Type Body Length) Return)"

section \<open>What the regions do\<close>

lemma set_stack_list_fields [simp, ctx_simps]:
  "Owner (set_stack_list t ps n c) = Owner c"
  "UserReadQueue (set_stack_list t ps n c) = UserReadQueue c"
  "ReadEventQueue (set_stack_list t ps n c) = ReadEventQueue c"
  "ReadDataQueue (set_stack_list t ps n c) = ReadDataQueue c"
  "stack_queue u (set_stack_list t ps n c) = stack_queue u c"
  "stack_list t (set_stack_list t ps n c) = ps"
  "stack_count t (set_stack_list t ps n c) = n"
  "stack_peak u (set_stack_list t ps n c) = stack_peak u c"
  "HostToCtrlList (set_stack_list t ps n c) = HostToCtrlList c"
  "HostToCtrlCount (set_stack_list t ps n c) = HostToCtrlCount c"
  "HostToCtrlPeak (set_stack_list t ps n c) = HostToCtrlPeak c"
  "FailAllocOneIn (set_stack_list t ps n c) = FailAllocOneIn c"
  "RadioPresent (set_stack_list t ps n c) = RadioPresent c"
  "RadioStarted (set_stack_list t ps n c) = RadioStarted c"
  "CurrentRadioId (set_stack_list t ps n c) = CurrentRadioId c"
  "NextRadioId (set_stack_list t ps n c) = NextRadioId c"
  "RadiosAlive (set_stack_list t ps n c) = RadiosAlive c"
  by (simp_all add: stack_channel_defs)

lemma queue_to_stack_ctx_fields [simp, ctx_simps]:
  "Owner (queue_to_stack_ctx t p c) = Owner c"
  "UserReadQueue (queue_to_stack_ctx t p c) = UserReadQueue c"
  "ReadEventQueue (queue_to_stack_ctx t p c) = ReadEventQueue c"
  "ReadDataQueue (queue_to_stack_ctx t p c) = ReadDataQueue c"
  "stack_queue u (queue_to_stack_ctx t p c) = stack_queue u c"
  "stack_list t (queue_to_stack_ctx t p c) = stack_list t c @ [p]"
  "stack_count t (queue_to_stack_ctx t p c) = stack_count t c + 1"
  "stack_peak t (queue_to_stack_ctx t p c) =
     (if stack_peak t c < stack_count t c + 1 then stack_count t c + 1 else stack_peak t c)"
  "WritesTotal (queue_to_stack_ctx t p c) = WritesTotal c + 1"
  "HostToCtrlList (queue_to_stack_ctx t p c) = HostToCtrlList c"
  "HostToCtrlCount (queue_to_stack_ctx t p c) = HostToCtrlCount c"
  "HostToCtrlPeak (queue_to_stack_ctx t p c) = HostToCtrlPeak c"
  "FailAllocOneIn (queue_to_stack_ctx t p c) = FailAllocOneIn c"
  "RadioPresent (queue_to_stack_ctx t p c) = RadioPresent c"
  "RadioStarted (queue_to_stack_ctx t p c) = RadioStarted c"
  "CurrentRadioId (queue_to_stack_ctx t p c) = CurrentRadioId c"
  "NextRadioId (queue_to_stack_ctx t p c) = NextRadioId c"
  "RadiosAlive (queue_to_stack_ctx t p c) = RadiosAlive c"
  by (simp_all add: queue_to_stack_ctx_def Let_def stack_channel_defs)

lemma count_pended_read_fields [simp, ctx_simps]:
  "Owner (count_pended_read t c) = Owner c"
  "UserReadQueue (count_pended_read t c) = UserReadQueue c"
  "ReadEventQueue (count_pended_read t c) = ReadEventQueue c"
  "ReadDataQueue (count_pended_read t c) = ReadDataQueue c"
  "stack_queue u (count_pended_read t c) = stack_queue u c"
  "stack_list u (count_pended_read t c) = stack_list u c"
  "stack_count u (count_pended_read t c) = stack_count u c"
  "stack_peak u (count_pended_read t c) = stack_peak u c"
  "HostToCtrlList (count_pended_read t c) = HostToCtrlList c"
  "HostToCtrlCount (count_pended_read t c) = HostToCtrlCount c"
  "HostToCtrlPeak (count_pended_read t c) = HostToCtrlPeak c"
  "FailAllocOneIn (count_pended_read t c) = FailAllocOneIn c"
  "RadioPresent (count_pended_read t c) = RadioPresent c"
  "RadioStarted (count_pended_read t c) = RadioStarted c"
  "CurrentRadioId (count_pended_read t c) = CurrentRadioId c"
  "NextRadioId (count_pended_read t c) = NextRadioId c"
  "RadiosAlive (count_pended_read t c) = RadiosAlive c"
  by (simp_all add: count_pended_read_def stack_channel_defs)

text \<open>The other channel is left alone.\<close>

lemma stack_other_channel [simp]:
  assumes "(t = WINVHCI_H4_ACL) \<noteq> (u = WINVHCI_H4_ACL)"
  shows "stack_list u (set_stack_list t ps n c) = stack_list u c"
    "stack_count u (set_stack_list t ps n c) = stack_count u c"
    "stack_list u (queue_to_stack_ctx t p c) = stack_list u c"
    "stack_count u (queue_to_stack_ctx t p c) = stack_count u c"
    "stack_peak u (queue_to_stack_ctx t p c) = stack_peak u c"
  using assms by (auto simp: queue_to_stack_ctx_def Let_def stack_channel_defs)

text \<open>Counters that belong to no channel.\<close>

lemma stack_counter_updates [simp, ctx_simps]:
  "stack_queue t (c\<lparr>WritesTotal := x\<rparr>) = stack_queue t c"
  "stack_queue t (c\<lparr>DropsAllocFailed := x\<rparr>) = stack_queue t c"
  "stack_queue t (c\<lparr>DropsNoClient := x\<rparr>) = stack_queue t c"
  "stack_queue t (snd (WinVhciTestFailAlloc c)) = stack_queue t c"
  "stack_list t (c\<lparr>WritesTotal := x\<rparr>) = stack_list t c"
  "stack_list t (c\<lparr>DropsAllocFailed := x\<rparr>) = stack_list t c"
  "stack_list t (c\<lparr>DropsNoClient := x\<rparr>) = stack_list t c"
  "stack_list t (snd (WinVhciTestFailAlloc c)) = stack_list t c"
  "stack_count t (c\<lparr>WritesTotal := x\<rparr>) = stack_count t c"
  "stack_count t (c\<lparr>DropsAllocFailed := x\<rparr>) = stack_count t c"
  "stack_count t (c\<lparr>DropsNoClient := x\<rparr>) = stack_count t c"
  "stack_count t (snd (WinVhciTestFailAlloc c)) = stack_count t c"
  "stack_peak t (c\<lparr>WritesTotal := x\<rparr>) = stack_peak t c"
  "stack_peak t (c\<lparr>DropsAllocFailed := x\<rparr>) = stack_peak t c"
  "stack_peak t (c\<lparr>DropsNoClient := x\<rparr>) = stack_peak t c"
  "stack_peak t (snd (WinVhciTestFailAlloc c)) = stack_peak t c"
  by (simp_all add: stack_channel_defs)

text \<open>The three outcomes of the region of \<open>WinVhciDeliverToStack\<close>.\<close>

context wdf_queues
begin

lemma DeliverToStack_locked_cases:
  fixes s t b n
  defines "s' \<equiv> snd (WinVhciDeliverToStack_locked W t b n s)"
    and "r \<equiv> fst (WinVhciDeliverToStack_locked W t b n s)"
    and "c \<equiv> fdo s"
    and "c' \<equiv> snd (WinVhciTestFailAlloc (fdo s))"
  obtains
    (handed) q rs where "r = (Some q, STATUS_SUCCESS)" "stack_count t c = 0"
      "contents (fw s) (stack_queue t c) = q # rs"
      "contents (fw s') = (contents (fw s))(stack_queue t c := rs)"
      "pool s' = pool s" "fdo s' = c\<lparr>WritesTotal := WritesTotal c + 1\<rparr>"
  | (queued) "r = (None, STATUS_SUCCESS)"
      "stack_count t c = 0 \<Longrightarrow> contents (fw s) (stack_queue t c) = []"
      "contents (fw s') = contents (fw s)" "pool s' = pool s + 1"
      "fdo s' = queue_to_stack_ctx t (packet_of t b n) c'"
  | (lost) "r = (None, STATUS_INSUFFICIENT_RESOURCES)"
      "stack_count t c = 0 \<Longrightarrow> contents (fw s) (stack_queue t c) = []"
      "contents (fw s') = contents (fw s)" "pool s' = pool s"
      "fdo s' = c'\<lparr>DropsAllocFailed := DropsAllocFailed c' + 1\<rparr>"
      "\<exists>s1. fdo s1 = c \<and> fst (alloc_unless_injected W t b n s1) = None"
proof -
  define s1 where "s1 = retrieve_when W (stack_count t c = 0) (stack_queue t c) (acquire s)"
  have frame: "fdo (snd s1) = c" "pool (snd s1) = pool s"
    by (simp_all add: s1_def c_def)
  show ?thesis
  proof (cases "fst s1")
    case (Some q)
    note taken = retrieve_when_some [OF Some [unfolded s1_def], folded s1_def]
    from taken(2) obtain rs where "contents (fw s) (stack_queue t c) = q # rs"
      "contents (fw (snd s1)) = (contents (fw s))(stack_queue t c := rs)"
      by auto
    moreover have "r = (Some q, STATUS_SUCCESS)"
      "s' = release (upd_fdo (\<lambda>c. c\<lparr>WritesTotal := WritesTotal c + 1\<rparr>) (snd s1))"
      using Some
      by (auto simp: WinVhciDeliverToStack_locked_def Let_def s'_def r_def c_def s1_def
          split: prod.splits)
    ultimately show ?thesis
      using taken(1) frame by (intro handed) simp_all
  next
    case None
    note empty = retrieve_when_none [OF None [unfolded s1_def], folded s1_def]
    define s2 where "s2 = alloc_unless_injected W t b n (snd s1)"
    have s2: "contents (fw (snd s2)) = contents (fw s)" "fdo (snd s2) = c'"
      "pool (snd s2) = pool s + (if fst s2 = None then 0 else 1)"
      using empty(1) frame by (simp_all add: s2_def alloc_unless_injected_pool c_def c'_def)
    consider (failed) "fst s2 = None" | (made) "fst s2 = Some (packet_of t b n)"
      using alloc_unless_injected_result [of W t b n "snd s1"] by (auto simp: s2_def)
    then show ?thesis
    proof cases
      case failed
      then have "r = (None, STATUS_INSUFFICIENT_RESOURCES)"
        "s' = release (upd_fdo (\<lambda>c. c\<lparr>DropsAllocFailed := DropsAllocFailed c + 1\<rparr>) (snd s2))"
        using None
        by (auto simp: WinVhciDeliverToStack_locked_def Let_def s'_def r_def c_def s1_def s2_def
            split: prod.splits)
      moreover have "\<exists>s1. fdo s1 = c \<and> fst (alloc_unless_injected W t b n s1) = None"
        using failed frame(1) by (auto simp: s2_def)
      ultimately show ?thesis
        using s2 failed empty(2) by (intro lost) simp_all
    next
      case made
      then have "r = (None, STATUS_SUCCESS)"
        "s' = release (upd_fdo (queue_to_stack_ctx t (packet_of t b n)) (snd s2))"
        using None
        by (auto simp: WinVhciDeliverToStack_locked_def Let_def s'_def r_def c_def s1_def s2_def
            split: prod.splits)
      with s2 made empty(2) show ?thesis by (intro queued) simp_all
    qed
  qed
qed

text \<open>The three outcomes of \<open>WinVhciTakeOrParkForStack\<close>.\<close>

lemma TakeOrParkForStack_cases:
  fixes s t q qu
  defines "s' \<equiv> snd (WinVhciTakeOrParkForStack W t q qu s)"
    and "r \<equiv> fst (WinVhciTakeOrParkForStack W t q qu s)"
    and "c \<equiv> fdo s"
  obtains
    (taken) p ps where "stack_list t c = p # ps" "r = (STATUS_SUCCESS, Some p)" "fw s' = fw s"
      "fdo s' = set_stack_list t ps (stack_count t c - 1) c"
  | (parked) st where "stack_list t c = []" "r = (st, None)" "NT_SUCCESS st"
      "fdo s' = count_pended_read t c"
      "contents (fw s') = (contents (fw s))(qu := contents (fw s) qu @ [q])"
  | (refused) st where "stack_list t c = []" "r = (st, None)" "\<not> NT_SUCCESS st" "fdo s' = c"
      "contents (fw s') = contents (fw s)"
proof (cases "stack_list t c")
  case (Cons p ps)
  then show ?thesis
    by (intro taken) (simp_all add: WinVhciTakeOrParkForStack_def Let_def s'_def r_def c_def)
next
  case Nil
  obtain st w' where fwd: "WdfRequestForwardToIoQueue W q qu (fw s) = (st, w')"
    by (metis surj_pair)
  show ?thesis
  proof (cases "NT_SUCCESS st")
    case True
    with Nil fwd show ?thesis
      using forward_success [OF fwd True]
      by (intro parked) (simp_all add: WinVhciTakeOrParkForStack_def Let_def s'_def r_def c_def)
  next
    case False
    with Nil fwd show ?thesis
      using forward_failure [OF fwd False]
      by (intro refused) (simp_all add: WinVhciTakeOrParkForStack_def Let_def s'_def r_def c_def)
  qed
qed

end

lemma DeliverToStack_locked_frame [simp]:
  "pdos (snd (WinVhciDeliverToStack_locked W t b n s)) = pdos s"
  "mem (snd (WinVhciDeliverToStack_locked W t b n s)) = mem s"
  "calls (snd (WinVhciDeliverToStack_locked W t b n s)) =
     calls s @ [SpinLockAcquire, SpinLockRelease]"
  using retrieve_when_frame [of W "stack_count t (fdo s) = 0" "stack_queue t (fdo s)" "acquire s"]
  by (auto simp: WinVhciDeliverToStack_locked_def Let_def split: prod.splits option.splits
      dest!: arg_cong [where f = snd])

lemma TakeOrParkForStack_frame [simp]:
  "pdos (snd (WinVhciTakeOrParkForStack W t q qu s)) = pdos s"
  "mem (snd (WinVhciTakeOrParkForStack W t q qu s)) = mem s"
  "pool (snd (WinVhciTakeOrParkForStack W t q qu s)) = pool s"
  "calls (snd (WinVhciTakeOrParkForStack W t q qu s)) =
     calls s @ [SpinLockAcquire, SpinLockRelease]"
  by (simp_all add: WinVhciTakeOrParkForStack_def Let_def split: list.split prod.split)

lemma CompleteRead_frame [simp]:
  "fdo (snd (WinVhciCompleteRead W q t b n s)) = fdo s"
  "pdos (snd (WinVhciCompleteRead W q t b n s)) = pdos s"
  "fw (snd (WinVhciCompleteRead W q t b n s)) = fw s"
  "pool (snd (WinVhciCompleteRead W q t b n s)) = pool s"
  by (simp_all add: WinVhciCompleteRead_def Let_def)

section \<open>The bytes a completed read holds\<close>

text \<open>
  The three stores leave exactly the packed context; nothing outside \<open>5 + Length\<close> bytes changes.
\<close>

lemma fill_context_bytes:
  assumes "length b = unat n" and "unat n + 5 \<le> 2 ^ 64"
  shows "fill_context out t b n m = store_bytes m out (rw_context_bytes n t b)"
proof -
  have "\<not> (in_range (out + 4) (length [t]) p \<and> in_range out (length (ulong_bytes n)) p)" for p
    by (auto simp: in_range_def unat_eq_0)
  then have "store_bytes (store_bytes m (out + 4) [t]) out (ulong_bytes n)
      = store_bytes (store_bytes m out (ulong_bytes n)) (out + 4) [t]"
    by (intro store_bytes_commute) simp_all
  then show ?thesis
    using assms
    by (auto simp: fill_context_def Let_def rw_context_bytes_def store_bytes_append unat_eq_0
        algebra_simps)
qed

lemma TakeOrPark_status:
  "stack_list t (fdo s) = [] \<Longrightarrow>
   fst (fst (WinVhciTakeOrParkForStack W t q qu s)) =
     fst (WdfRequestForwardToIoQueue W q qu (fw s))"
  by (simp add: WinVhciTakeOrParkForStack_def Let_def split_def)

section \<open>The channels meet the rendezvous contract\<close>

text \<open>
  The locked regions of one type as the operations of a rendezvous; the packets are whole and of
  that type.
\<close>

definition stack_put ::
  "'w wdf \<Rightarrow> UCHAR \<Rightarrow> WINVHCI_PACKET \<Rightarrow> 'w sys \<Rightarrow> WDFREQUEST option \<times> 'w sys" where
  "stack_put W t p s =
     (case WinVhciDeliverToStack_locked W t (pkt_Data p) (pkt_Length p) s of
        ((request, status), s') \<Rightarrow> (request, s'))"

definition stack_get ::
  "'w wdf \<Rightarrow> UCHAR \<Rightarrow> WDFREQUEST \<Rightarrow> 'w sys \<Rightarrow> WINVHCI_PACKET option \<times> 'w sys" where
  "stack_get W t r s =
     (case WinVhciTakeOrParkForStack W t r (stack_queue t (fdo s)) s of
        ((status, po), s') \<Rightarrow> (po, s'))"

definition stack_waiting ::
  "('w \<Rightarrow> WDFQUEUE \<Rightarrow> WDFREQUEST list) \<Rightarrow> UCHAR \<Rightarrow> 'w sys \<Rightarrow> WDFREQUEST list" where
  "stack_waiting contents t s = contents (fw s) (stack_queue t (fdo s))"

definition stack_backlog :: "UCHAR \<Rightarrow> 'w sys \<Rightarrow> WINVHCI_PACKET list" where
  "stack_backlog t s = stack_list t (fdo s)"

definition stack_ready :: "UCHAR \<Rightarrow> 'w sys \<Rightarrow> bool" where
  "stack_ready t s \<longleftrightarrow>
     FailAllocOneIn (fdo s) = 0 \<and> stack_count t (fdo s) = of_nat (length (stack_list t (fdo s)))"

definition stack_valid :: "UCHAR \<Rightarrow> WINVHCI_PACKET \<Rightarrow> bool" where
  "stack_valid t p \<longleftrightarrow> pkt_whole p \<and> pkt_Type p = t"

lemma stack_put_eq:
  "stack_put W t p s =
     (fst (fst (WinVhciDeliverToStack_locked W t (pkt_Data p) (pkt_Length p) s)),
      snd (WinVhciDeliverToStack_locked W t (pkt_Data p) (pkt_Length p) s))"
  by (simp add: stack_put_def split_def)

lemma stack_get_eq:
  "stack_get W t r s =
     (snd (fst (WinVhciTakeOrParkForStack W t r (stack_queue t (fdo s)) s)),
      snd (WinVhciTakeOrParkForStack W t r (stack_queue t (fdo s)) s))"
  by (simp add: stack_get_def split_def)

lemma stack_valid_packet:
  "stack_valid t p \<Longrightarrow> packet_of t (pkt_Data p) (pkt_Length p) = p"
  using packet_of_whole [of p] by (auto simp: stack_valid_def)

lemmas stack_rendezvous_defs =
  stack_put_eq stack_get_eq stack_waiting_def stack_backlog_def stack_ready_def

context wdf_reliable
begin

lemma stack_put_hands_over:
  assumes "stack_ready t s" and "stack_waiting contents t s = r # rs" and "stack_backlog t s = []"
  shows "\<exists>s'. stack_put W t p s = (Some r, s') \<and> stack_ready t s' \<and> stack_waiting contents t s' = rs
    \<and> stack_backlog t s' = []"
proof (cases rule: DeliverToStack_locked_cases
    [where s = s and t = t and b = "pkt_Data p" and n = "pkt_Length p"])
  case (handed q rs')
  with assms show ?thesis by (simp add: stack_rendezvous_defs)
qed (use assms in \<open>simp_all add: stack_rendezvous_defs\<close>)

lemma stack_put_queues:
  assumes "stack_ready t s" and "stack_valid t p" and "stack_waiting contents t s = []"
  shows "\<exists>s'. stack_put W t p s = (None, s') \<and> stack_ready t s' \<and> stack_waiting contents t s' = []
    \<and> stack_backlog t s' = stack_backlog t s @ [p]"
proof (cases rule: DeliverToStack_locked_cases
    [where s = s and t = t and b = "pkt_Data p" and n = "pkt_Length p"])
  case queued
  with assms show ?thesis by (simp add: stack_rendezvous_defs stack_valid_packet)
next
  case lost
  with assms show ?thesis by (auto simp: stack_rendezvous_defs alloc_reliable)
qed (use assms in \<open>simp_all add: stack_rendezvous_defs\<close>)

lemma stack_get_takes:
  assumes "stack_ready t s" and "stack_waiting contents t s = []" and "stack_backlog t s = p # ps"
  shows "\<exists>s'. stack_get W t r s = (Some p, s') \<and> stack_ready t s' \<and> stack_waiting contents t s' = []
    \<and> stack_backlog t s' = ps"
proof (cases rule: TakeOrParkForStack_cases
    [where s = s and t = t and q = r and qu = "stack_queue t (fdo s)"])
  case (taken p' ps')
  with assms show ?thesis by (simp add: stack_rendezvous_defs)
qed (use assms in \<open>simp_all add: stack_rendezvous_defs\<close>)

lemma stack_get_parks:
  assumes "stack_ready t s" and "stack_backlog t s = []"
  shows "\<exists>s'. stack_get W t r s = (None, s') \<and> stack_ready t s'
    \<and> stack_waiting contents t s' = stack_waiting contents t s @ [r] \<and> stack_backlog t s' = []"
proof (cases rule: TakeOrParkForStack_cases
    [where s = s and t = t and q = r and qu = "stack_queue t (fdo s)"])
  case (parked st)
  with assms show ?thesis by (simp add: stack_rendezvous_defs)
next
  case (refused st)
  have "st = fst (WdfRequestForwardToIoQueue W r (stack_queue t (fdo s)) (fw s))"
    using refused(1,2) TakeOrPark_status [of t s W r "stack_queue t (fdo s)"] by simp
  with refused(3) forward_ok show ?thesis by simp
qed (use assms in \<open>simp_all add: stack_rendezvous_defs\<close>)

end

sublocale wdf_reliable \<subseteq> stack: rendezvous "stack_put W t" "stack_get W t"
  "stack_waiting contents t" "stack_backlog t" "stack_ready t" "stack_valid t"
  for t
  by unfold_locales
    (simp_all add: stack_put_hands_over stack_put_queues stack_get_takes stack_get_parks)

context wdf_reliable
begin

lemmas stack_refines_put = stack.refines_spec_put
lemmas stack_refines_get = stack.refines_spec_get

end

end
