(* ===== verification/Radio_Pdo.thy ===== *)
theory Radio_Pdo
  imports Packet_Pool
begin

text \<open>
  The radio's lifetime (\<open>pdo.c\<close>, with \<open>WinVhciRadioStackDown\<close> and \<open>WinVhciPurgeBacklogs\<close> of
  \<open>user.c\<close>): reporting and removing the child, the PDO's creation, power callbacks and cleanup, and
  the forwarding of its requests to the FDO. A callback that gets a PDO's device handle is given
  that PDO's context.
\<close>

section \<open>Dropping backlogs\<close>

definition free_events :: "'w sys \<Rightarrow> 'w sys" where
  "free_events s =
     (case WinVhciFreeList (PendingEventList (fdo s)) s of
        ((l, n), s) \<Rightarrow> upd_fdo (\<lambda>c. c\<lparr>PendingEventList := l, PendingEventCount := n\<rparr>) s)"

definition free_data :: "'w sys \<Rightarrow> 'w sys" where
  "free_data s =
     (case WinVhciFreeList (PendingDataList (fdo s)) s of
        ((l, n), s) \<Rightarrow> upd_fdo (\<lambda>c. c\<lparr>PendingDataList := l, PendingDataCount := n\<rparr>) s)"

definition free_host_to_ctrl :: "'w sys \<Rightarrow> 'w sys" where
  "free_host_to_ctrl s =
     (case WinVhciFreeList (HostToCtrlList (fdo s)) s of
        ((l, n), s) \<Rightarrow> upd_fdo (\<lambda>c. c\<lparr>HostToCtrlList := l, HostToCtrlCount := n\<rparr>) s)"

text \<open>\<open>WinVhciRadioStackDown\<close>: only for the current radio.\<close>

definition WinVhciRadioStackDown :: "ULONG \<Rightarrow> 'w sys \<Rightarrow> 'w sys" where
  "WinVhciRadioStackDown radioId s =
     (let s = acquire s in
      if radioId \<noteq> CurrentRadioId (fdo s) then release s
      else
        let s = upd_fdo (\<lambda>c. c\<lparr>RadioStarted := False\<rparr>) s;
            s = free_events s;
            s = free_data s
        in release s)"

definition WinVhciPurgeBacklogs :: "'w sys \<Rightarrow> 'w sys" where
  "WinVhciPurgeBacklogs s =
     (let s = acquire s;
          s = free_host_to_ctrl s;
          s = free_events s;
          s = free_data s
      in release s)"

lemma free_backlog_fields [simp]:
  "fdo (free_events s) = (fdo s)\<lparr>PendingEventList := [], PendingEventCount := 0\<rparr>"
  "fdo (free_data s) = (fdo s)\<lparr>PendingDataList := [], PendingDataCount := 0\<rparr>"
  "fdo (free_host_to_ctrl s) = (fdo s)\<lparr>HostToCtrlList := [], HostToCtrlCount := 0\<rparr>"
  "pool (free_events s) = pool s - int (length (PendingEventList (fdo s)))"
  "pool (free_data s) = pool s - int (length (PendingDataList (fdo s)))"
  "pool (free_host_to_ctrl s) = pool s - int (length (HostToCtrlList (fdo s)))"
  "fw (free_events s) = fw s" "fw (free_data s) = fw s" "fw (free_host_to_ctrl s) = fw s"
  "mem (free_events s) = mem s" "mem (free_data s) = mem s" "mem (free_host_to_ctrl s) = mem s"
  "pdos (free_events s) = pdos s" "pdos (free_data s) = pdos s"
  "pdos (free_host_to_ctrl s) = pdos s"
  "calls (free_events s) = calls s" "calls (free_data s) = calls s"
  "calls (free_host_to_ctrl s) = calls s"
  by (simp_all add: free_events_def free_data_def free_host_to_ctrl_def WinVhciFreeList_def)

lemma RadioStackDown_fdo:
  "fdo (WinVhciRadioStackDown radioId s) =
     (if radioId \<noteq> CurrentRadioId (fdo s) then fdo s
      else (fdo s)\<lparr>RadioStarted := False, PendingEventList := [], PendingEventCount := 0,
                    PendingDataList := [], PendingDataCount := 0\<rparr>)"
  by (simp add: WinVhciRadioStackDown_def Let_def)

lemma RadioStackDown_frame [simp]:
  "fw (WinVhciRadioStackDown radioId s) = fw s"
  "mem (WinVhciRadioStackDown radioId s) = mem s"
  "pdos (WinVhciRadioStackDown radioId s) = pdos s"
  "calls (WinVhciRadioStackDown radioId s) = calls s @ [SpinLockAcquire, SpinLockRelease]"
  by (simp_all add: WinVhciRadioStackDown_def Let_def)

lemma PurgeBacklogs_fields [simp]:
  "fdo (WinVhciPurgeBacklogs s) =
     (fdo s)\<lparr>HostToCtrlList := [], HostToCtrlCount := 0, PendingEventList := [],
             PendingEventCount := 0, PendingDataList := [], PendingDataCount := 0\<rparr>"
  "pool (WinVhciPurgeBacklogs s) = pool s - int (length (HostToCtrlList (fdo s)))
     - int (length (PendingEventList (fdo s))) - int (length (PendingDataList (fdo s)))"
  "fw (WinVhciPurgeBacklogs s) = fw s"
  "mem (WinVhciPurgeBacklogs s) = mem s"
  "pdos (WinVhciPurgeBacklogs s) = pdos s"
  "calls (WinVhciPurgeBacklogs s) = calls s @ [SpinLockAcquire, SpinLockRelease]"
  by (simp_all add: WinVhciPurgeBacklogs_def Let_def)

section \<open>Reporting and removing the child\<close>

definition WinVhciAddRadio :: "'w wdf \<Rightarrow> ULONG \<Rightarrow> 'w sys \<Rightarrow> NTSTATUS \<times> 'w sys" where
  "WinVhciAddRadio W radioId s =
     (case WdfChildListAddOrUpdateChildDescriptionAsPresent W radioId (fw s) of
        (status, w') \<Rightarrow> (status, log_call (ChildListAdd radioId status) (s\<lparr>fw := w'\<rparr>)))"

text \<open>A scan that reports nothing present marks every child missing.\<close>

definition WinVhciRemoveRadios :: "'w wdf \<Rightarrow> 'w sys \<Rightarrow> NTSTATUS \<times> 'w sys" where
  "WinVhciRemoveRadios W s =
     (STATUS_SUCCESS,
      log_call ChildListScan (s\<lparr>fw := WdfChildListScanNothingPresent W (fw s)\<rparr>))"

lemma AddRadio_frame [simp]:
  "fdo (snd (WinVhciAddRadio W i s)) = fdo s"
  "pdos (snd (WinVhciAddRadio W i s)) = pdos s"
  "mem (snd (WinVhciAddRadio W i s)) = mem s"
  "pool (snd (WinVhciAddRadio W i s)) = pool s"
  "fst (WinVhciAddRadio W i s) =
     fst (WdfChildListAddOrUpdateChildDescriptionAsPresent W i (fw s))"
  "fw (snd (WinVhciAddRadio W i s)) =
     snd (WdfChildListAddOrUpdateChildDescriptionAsPresent W i (fw s))"
  "calls (snd (WinVhciAddRadio W i s)) =
     calls s @ [ChildListAdd i (fst (WdfChildListAddOrUpdateChildDescriptionAsPresent W i (fw s)))]"
  by (simp_all add: WinVhciAddRadio_def split: prod.split)

lemma RemoveRadios_frame [simp]:
  "fdo (snd (WinVhciRemoveRadios W s)) = fdo s"
  "pdos (snd (WinVhciRemoveRadios W s)) = pdos s"
  "mem (snd (WinVhciRemoveRadios W s)) = mem s"
  "pool (snd (WinVhciRemoveRadios W s)) = pool s"
  "fw (snd (WinVhciRemoveRadios W s)) = WdfChildListScanNothingPresent W (fw s)"
  "calls (snd (WinVhciRemoveRadios W s)) = calls s @ [ChildListScan]"
  by (simp_all add: WinVhciRemoveRadios_def)

section \<open>Power callbacks and cleanup\<close>

definition WinVhciPdoEvtPrepareHardware :: "WINVHCI_PDO_CONTEXT \<Rightarrow> ('w sys, NTSTATUS) prog" where
  "WinVhciPdoEvtPrepareHardware pdoCtx = Return STATUS_SUCCESS"

definition D0Entry_locked :: "WINVHCI_PDO_CONTEXT \<Rightarrow> 'w sys \<Rightarrow> 'w sys" where
  "D0Entry_locked pdoCtx s =
     (let s = acquire s;
          current = (RadioId pdoCtx = CurrentRadioId (fdo s));
          s = (if current then upd_fdo (\<lambda>c. c\<lparr>RadioStarted := True\<rparr>) s else s)
      in release s)"

definition WinVhciPdoEvtD0Entry :: "WINVHCI_PDO_CONTEXT \<Rightarrow> ('w sys, NTSTATUS) prog" where
  "WinVhciPdoEvtD0Entry pdoCtx = act (D0Entry_locked pdoCtx) (Return STATUS_SUCCESS)"

definition WinVhciPdoEvtD0Exit :: "WINVHCI_PDO_CONTEXT \<Rightarrow> ('w sys, NTSTATUS) prog" where
  "WinVhciPdoEvtD0Exit pdoCtx =
     act (WinVhciRadioStackDown (RadioId pdoCtx)) (Return STATUS_SUCCESS)"

text \<open>\<open>InterlockedDecrement\<close> of the count of live PDOs, and nothing else.\<close>

definition WinVhciPdoEvtCleanup :: "WINVHCI_PDO_CONTEXT \<Rightarrow> ('w sys, unit) prog" where
  "WinVhciPdoEvtCleanup pdoCtx =
     act (upd_fdo (\<lambda>c. c\<lparr>RadiosAlive := RadiosAlive c - 1\<rparr>)) (Return ())"

lemma D0Entry_locked_fdo [simp]:
  "fdo (D0Entry_locked pdoCtx s) =
     (if RadioId pdoCtx = CurrentRadioId (fdo s) then (fdo s)\<lparr>RadioStarted := True\<rparr> else fdo s)"
  "fw (D0Entry_locked pdoCtx s) = fw s"
  "mem (D0Entry_locked pdoCtx s) = mem s"
  "pool (D0Entry_locked pdoCtx s) = pool s"
  "pdos (D0Entry_locked pdoCtx s) = pdos s"
  "calls (D0Entry_locked pdoCtx s) = calls s @ [SpinLockAcquire, SpinLockRelease]"
  by (simp_all add: D0Entry_locked_def Let_def)

section \<open>Forwarding the PDO's requests\<close>

definition WinVhciPdoForwardToParent :: "'w wdf \<Rightarrow> WDFREQUEST \<Rightarrow> ('w sys, unit) prog" where
  "WinVhciPdoForwardToParent W Request =
     act (upd_fdo (\<lambda>c. c\<lparr>PdoRequestCount := PdoRequestCount c + 1\<rparr>))
       (atomically
          (\<lambda>s. case WdfRequestForwardToParentDeviceIoQueue W Request (BthxIoQueue (fdo s)) (fw s) of
             (status, w') \<Rightarrow>
               (status,
                log_call (RequestForwardToParent Request (BthxIoQueue (fdo s)) status)
                  (s\<lparr>fw := w'\<rparr>)))
          (\<lambda>status.
             if \<not> NT_SUCCESS status then act (WdfRequestComplete Request status) (Return ())
             else Return ()))"

definition WinVhciPdoEvtInternalDeviceControl ::
  "'w wdf \<Rightarrow> WDFREQUEST \<Rightarrow> SIZE_T \<Rightarrow> SIZE_T \<Rightarrow> ('w sys, unit) prog" where
  "WinVhciPdoEvtInternalDeviceControl W Request OutputBufferLen InputBufferLen =
     WinVhciPdoForwardToParent W Request"

definition WinVhciPdoEvtDeviceControl ::
  "'w wdf \<Rightarrow> WDFREQUEST \<Rightarrow> SIZE_T \<Rightarrow> SIZE_T \<Rightarrow> ('w sys, unit) prog" where
  "WinVhciPdoEvtDeviceControl W Request OutputBufferLen InputBufferLen =
     WinVhciPdoForwardToParent W Request"

section \<open>Creating the PDO\<close>

definition WINVHCI_RADIO_DEVICE_ID :: string where
  "WINVHCI_RADIO_DEVICE_ID = ''winvhci'' @ [CHR 0x5C] @ ''radio''"

definition WINVHCI_RADIO_HARDWARE_ID :: string where
  "WINVHCI_RADIO_HARDWARE_ID = ''winvhci'' @ [CHR 0x5C] @ ''radio''"

definition WINVHCI_RADIO_COMPAT_ID :: string where
  "WINVHCI_RADIO_COMPAT_ID = ''MS_BTHX_BTHMINI''"

text \<open>
  \<open>status = <call>; if (!NT_SUCCESS(status)) { goto Fail; }\<close>, where \<open>Fail\<close> returns the status.
\<close>

definition or_fail ::
  "(NTSTATUS \<Rightarrow> wdf_call) \<Rightarrow> ('w \<Rightarrow> NTSTATUS \<times> 'w) \<Rightarrow> ('w sys, NTSTATUS) prog \<Rightarrow>
   ('w sys, NTSTATUS) prog" where
  "or_fail c f k =
     atomically (\<lambda>s. case f (fw s) of (status, w') \<Rightarrow> (status, log_call (c status) (s\<lparr>fw := w'\<rparr>)))
       (\<lambda>status. if \<not> NT_SUCCESS status then Return status else k)"

text \<open>The PDO's default queue: parallel, not power-managed, both control callbacks.\<close>

definition pdo_queue_config :: WDF_IO_QUEUE_CONFIG where
  "pdo_queue_config =
     \<lparr>DispatchType = WdfIoQueueDispatchParallel, DefaultQueue = True, PowerManaged = False,
      EvtIoRead = None, EvtIoWrite = None,
      EvtIoDeviceControl = Some Cb_WinVhciPdoEvtDeviceControl,
      EvtIoInternalDeviceControl = Some Cb_WinVhciPdoEvtInternalDeviceControl\<rparr>"

text \<open>What the power manager will call on it.\<close>

definition pdo_power_callbacks :: WDF_PNPPOWER_EVENT_CALLBACKS where
  "pdo_power_callbacks =
     \<lparr>EvtDevicePrepareHardware = Some Cb_WinVhciPdoEvtPrepareHardware,
      EvtDeviceD0Entry = Some Cb_WinVhciPdoEvtD0Entry,
      EvtDeviceD0Exit = Some Cb_WinVhciPdoEvtD0Exit,
      EvtDeviceSelfManagedIoCleanup = None\<rparr>"

text \<open>\<open>WdfDeviceCreate\<close>, with the cleanup callback among the attributes.\<close>

definition create_pdo :: "'w wdf \<Rightarrow> 'w sys \<Rightarrow> (NTSTATUS \<times> WDFDEVICE) \<times> 'w sys" where
  "create_pdo W s =
     (case WdfDeviceCreate W (fw s) of
        ((status, pdo), w') \<Rightarrow>
          ((status, pdo),
           log_call (DeviceCreate (Some Cb_WinVhciPdoEvtCleanup) status) (s\<lparr>fw := w'\<rparr>)))"

text \<open>
  Its context. \<open>WdfChildListGetDevice\<close> is the FDO the child list belongs to.
\<close>

definition fill_pdo_context :: "ULONG \<Rightarrow> WDFDEVICE \<Rightarrow> 'w sys \<Rightarrow> 'w sys" where
  "fill_pdo_context radioId pdo s =
     s\<lparr>pdos := (pdos s)(pdo \<mapsto> \<lparr>Fdo = Device (fdo s), RadioId = radioId\<rparr>)\<rparr>"

text \<open>\<open>InterlockedIncrement(&...->RadiosAlive)\<close>.\<close>

definition count_pdo :: "'w sys \<Rightarrow> 'w sys" where
  "count_pdo s = upd_fdo (\<lambda>c. c\<lparr>RadiosAlive := RadiosAlive c + 1\<rparr>) s"

definition WinVhciEvtChildListCreateDevice ::
  "'w wdf \<Rightarrow> ULONG \<Rightarrow> ('w sys, NTSTATUS) prog" where
  "WinVhciEvtChildListCreateDevice W radioId =
     or_fail (PdoAssignDeviceID WINVHCI_RADIO_DEVICE_ID)
       (WdfPdoInitAssignDeviceID W WINVHCI_RADIO_DEVICE_ID)
    (or_fail (PdoAddHardwareID WINVHCI_RADIO_HARDWARE_ID)
       (WdfPdoInitAddHardwareID W WINVHCI_RADIO_HARDWARE_ID)
    (or_fail (PdoAddCompatibleID WINVHCI_RADIO_COMPAT_ID)
       (WdfPdoInitAddCompatibleID W WINVHCI_RADIO_COMPAT_ID)
    (or_fail (PdoAssignInstanceID ''0'') (WdfPdoInitAssignInstanceID W ''0'')
    (or_fail (PdoAddDeviceText ''Virtual Bluetooth Radio'' ''winvhci'')
       (WdfPdoInitAddDeviceText W ''Virtual Bluetooth Radio'' ''winvhci'')
    (act (log_call (DeviceInit (WdfPdoInitSetDefaultLocale 0x409)))
    (act (log_call (DeviceInit WdfPdoInitAllowForwardingRequestToParent))
    (act (log_call (DeviceInit (WdfDeviceInitSetPnpPowerEventCallbacks pdo_power_callbacks)))
    (atomically (create_pdo W)
       (\<lambda>(status, pdo).
          if \<not> NT_SUCCESS status then Return status
          else
            act (fill_pdo_context radioId pdo)
             (act count_pdo
               (act (log_call (DeviceSetPnpCapabilities pdo True True))
                 (atomically
                    (\<lambda>s. case WdfIoQueueCreate W pdo pdo_queue_config (fw s) of
                       ((status, queue), w') \<Rightarrow>
                         (status,
                          log_call (QueueCreate pdo pdo_queue_config status) (s\<lparr>fw := w'\<rparr>)))
                    (\<lambda>status.
                       if \<not> NT_SUCCESS status then Return status
                       else Return STATUS_SUCCESS)))))))))))))"

end
