(* ===== verification/Control_Device.thy ===== *)
theory Control_Device
  imports User_Channel Stack_Channel Radio_Pdo
begin

text \<open>
  The userspace interface \<open>\\.\WinVhci\<close> (\<open>user.c\<close>): the control packet that creates the radio, the
  write path with its admission checks, the statistics request and the handle's lifetime.
\<close>

section \<open>WinVhciHandleControl\<close>

text \<open>The first locked region: \<open>None\<close> if a radio is already present, its id otherwise.\<close>

definition claim_radio_locked :: "'w sys \<Rightarrow> ULONG option \<times> 'w sys" where
  "claim_radio_locked s =
     (let s = acquire s in
      if RadioPresent (fdo s) then (None, release s)
      else
        let radioId = NextRadioId (fdo s)
        in (Some radioId,
            release (upd_fdo (\<lambda>c. c\<lparr>NextRadioId := NextRadioId c + 1, RadioPresent := True,
                                    CurrentRadioId := radioId\<rparr>) s)))"

text \<open>The second, when the child could not be reported.\<close>

definition unclaim_radio_locked :: "'w sys \<Rightarrow> 'w sys" where
  "unclaim_radio_locked s = release (upd_fdo (\<lambda>c. c\<lparr>RadioPresent := False\<rparr>) (acquire s))"

text \<open>The reply \<open>FF FF <opcode> <id_lo> <id_hi>\<close>, without its leading type byte.\<close>

definition control_reply_body :: "UCHAR \<Rightarrow> ULONG \<Rightarrow> UCHAR list" where
  "control_reply_body opcode radioId =
     [WINVHCI_H4_VENDOR, opcode, ucast (and radioId 0xFF), ucast (and (drop_bit 8 radioId) 0xFF)]"

definition WinVhciHandleControl ::
  "'w wdf \<Rightarrow> UCHAR list \<Rightarrow> ULONG \<Rightarrow> ('w sys, NTSTATUS) prog" where
  "WinVhciHandleControl W Body Length =
     (if Length \<noteq> 1 then Return STATUS_INVALID_PARAMETER
      else
        let opcode = Body ! 0 in
        if and opcode 0x3C \<noteq> 0 then Return STATUS_INVALID_PARAMETER
        else if and opcode 0xC0 \<noteq> 0 then Return STATUS_NOT_SUPPORTED
        else
          atomically claim_radio_locked
            (\<lambda>claimed. case claimed of
               None \<Rightarrow> Return STATUS_INVALID_DEVICE_STATE
             | Some radioId \<Rightarrow>
                 atomically (WinVhciAddRadio W radioId)
                   (\<lambda>status.
                      if \<not> NT_SUCCESS status then act unclaim_radio_locked (Return status)
                      else
                        bind_prog
                          (WinVhciQueueToUser W WINVHCI_H4_VENDOR
                             (control_reply_body opcode radioId) 4)
                          (\<lambda>_. Return STATUS_SUCCESS))))"

section \<open>WinVhciDispatchWrite\<close>

text \<open>The admission check, under the lock: is there a radio, and is its stack consuming?\<close>

definition admission_locked :: "'w sys \<Rightarrow> bool \<times> 'w sys" where
  "admission_locked s =
     (let s = acquire s;
          ready = (RadioPresent (fdo s) \<and> RadioStarted (fdo s));
          s = (if \<not> ready then upd_fdo (\<lambda>c. c\<lparr>WritesNoRadio := WritesNoRadio c + 1\<rparr>) s else s)
      in (ready, release s))"

text \<open>The largest body the stack's read buffers take, by type.\<close>

definition body_limit :: "UCHAR \<Rightarrow> ULONG" where
  "body_limit type =
     (if type = WINVHCI_H4_ACL then WINVHCI_MAX_ACL_TRANSFER_IN else WINVHCI_MAX_EVENT_SIZE)"

text \<open>The switch on the type byte.\<close>

definition dispatch_by_type ::
  "'w wdf \<Rightarrow> UCHAR \<Rightarrow> UCHAR list \<Rightarrow> ULONG \<Rightarrow> ('w sys, NTSTATUS) prog" where
  "dispatch_by_type W type Body bodyLength =
     (if type = WINVHCI_H4_VENDOR then WinVhciHandleControl W Body bodyLength
      else if type = WINVHCI_H4_EVENT \<or> type = WINVHCI_H4_ACL then
        (if body_limit type < bodyLength then Return STATUS_INVALID_PARAMETER
         else
           atomically admission_locked
             (\<lambda>ready.
                if \<not> ready then Return STATUS_DEVICE_NOT_READY
                else WinVhciDeliverToStack W type Body bodyLength))
      else if type = WINVHCI_H4_COMMAND then Return STATUS_INVALID_PARAMETER
      else if type = WINVHCI_H4_SCO \<or> type = WINVHCI_H4_ISO then Return STATUS_NOT_SUPPORTED
      else Return STATUS_INVALID_PARAMETER)"

text \<open>
  One write. The system buffer of a buffered write belongs to the request, so its bytes are read
  once.
\<close>

definition WinVhciDispatchWrite :: "'w wdf \<Rightarrow> WDFREQUEST \<Rightarrow> ('w sys, unit) prog" where
  "WinVhciDispatchWrite W Request =
     (let Length = WdfRequestGetParameters_WriteLength W Request in
      if Length < 2 \<or> ucast WINVHCI_MAX_H4_PACKET < Length then
        act (WdfRequestComplete Request STATUS_INVALID_PARAMETER) (Return ())
      else
        case WdfRequestRetrieveInputBuffer W Request 2 of
          (status, buffer, bufferLength) \<Rightarrow>
            if \<not> NT_SUCCESS status then act (WdfRequestComplete Request status) (Return ())
            else
              let bodyLength = ucast bufferLength - 1 in
              observe (\<lambda>s. (mem s buffer, load_bytes (mem s) (buffer + 1) (unat bodyLength)))
                (\<lambda>(type, Body).
                   bind_prog (dispatch_by_type W type Body bodyLength)
                     (\<lambda>status.
                        act (WdfRequestCompleteWithInformation Request status
                               (if NT_SUCCESS status then Length else 0))
                          (Return ()))))"

definition WinVhciEvtIoWrite :: "'w wdf \<Rightarrow> WDFREQUEST \<Rightarrow> SIZE_T \<Rightarrow> ('w sys, unit) prog" where
  "WinVhciEvtIoWrite W Request Length = WinVhciDispatchWrite W Request"

section \<open>WinVhciEvtIoDeviceControl\<close>

text \<open>
  \<open>sizeof(WINVHCI_STATS)\<close> is thirteen \<open>ULONG\<close>s. The buffer is cleared and \<open>Size\<close> set, the eleven
  counters are copied under the lock, \<open>RadiosAlive\<close> after it.
\<close>

definition sizeof_WINVHCI_STATS :: SIZE_T where
  "sizeof_WINVHCI_STATS = 52"

text \<open>The structure that lies at an address.\<close>

definition load_stats :: "memory \<Rightarrow> PVOID \<Rightarrow> WINVHCI_STATS" where
  "load_stats m p =
     \<lparr>st_Size = load_ulong m p, st_DropsNoClient = load_ulong m (p + 4),
      st_DropsAllocFailed = load_ulong m (p + 8), st_HostToCtrlCount = load_ulong m (p + 12),
      st_HostToCtrlPeak = load_ulong m (p + 16), st_PendingEventCount = load_ulong m (p + 20),
      st_PendingEventPeak = load_ulong m (p + 24), st_PendingDataCount = load_ulong m (p + 28),
      st_PendingDataPeak = load_ulong m (p + 32), st_WritesTotal = load_ulong m (p + 36),
      st_QueuedToUserTotal = load_ulong m (p + 40), st_WritesNoRadio = load_ulong m (p + 44),
      st_RadiosAlive = load_ulong m (p + 48)\<rparr>"

definition stats_counters :: "WINVHCI_FDO_CONTEXT \<Rightarrow> ULONG list" where
  "stats_counters c =
     [DropsNoClient c, DropsAllocFailed c, HostToCtrlCount c, HostToCtrlPeak c,
      PendingEventCount c, PendingEventPeak c, PendingDataCount c, PendingDataPeak c,
      WritesTotal c, QueuedToUserTotal c, WritesNoRadio c]"

definition stats_clear :: "PVOID \<Rightarrow> 'w sys \<Rightarrow> 'w sys" where
  "stats_clear out s =
     s\<lparr>mem := store_bytes (store_bytes (mem s) out (replicate 52 0)) out
                (ulong_bytes (ucast sizeof_WINVHCI_STATS))\<rparr>"

definition stats_locked :: "PVOID \<Rightarrow> 'w sys \<Rightarrow> 'w sys" where
  "stats_locked out s =
     (let s = acquire s
      in release (s\<lparr>mem := store_bytes (mem s) (out + 4)
                       (concat (map ulong_bytes (stats_counters (fdo s))))\<rparr>))"

definition stats_radios :: "PVOID \<Rightarrow> 'w sys \<Rightarrow> 'w sys" where
  "stats_radios out s =
     s\<lparr>mem := store_bytes (mem s) (out + 48) (ulong_bytes (RadiosAlive (fdo s)))\<rparr>"

definition WinVhciEvtIoDeviceControl ::
  "'w wdf \<Rightarrow> WDFREQUEST \<Rightarrow> SIZE_T \<Rightarrow> SIZE_T \<Rightarrow> ULONG \<Rightarrow> ('w sys, unit) prog" where
  "WinVhciEvtIoDeviceControl W Request OutputBufferLen InputBufferLen IoControlCode =
     (if IoControlCode \<noteq> IOCTL_WINVHCI_GET_STATS then
        act (WdfRequestComplete Request STATUS_INVALID_DEVICE_REQUEST) (Return ())
      else if OutputBufferLen < sizeof_WINVHCI_STATS then
        act (WdfRequestCompleteWithInformation Request STATUS_BUFFER_TOO_SMALL
               sizeof_WINVHCI_STATS) (Return ())
      else
        case WdfRequestRetrieveOutputBuffer W Request sizeof_WINVHCI_STATS of
          (status, out, outLength) \<Rightarrow>
            if \<not> NT_SUCCESS status then act (WdfRequestComplete Request status) (Return ())
            else
              act (stats_clear out)
               (act (stats_locked out)
                 (act (stats_radios out)
                   (act (WdfRequestCompleteWithInformation Request STATUS_SUCCESS
                           sizeof_WINVHCI_STATS)
                     (Return ())))))"

section \<open>The handle's lifetime\<close>

definition set_owner_locked :: "WDFFILEOBJECT \<Rightarrow> 'w sys \<Rightarrow> 'w sys" where
  "set_owner_locked FileObject s =
     release (upd_fdo (\<lambda>c. c\<lparr>Owner := FileObject\<rparr>) (acquire s))"

definition WinVhciEvtDeviceFileCreate ::
  "WDFREQUEST \<Rightarrow> WDFFILEOBJECT \<Rightarrow> ('w sys, unit) prog" where
  "WinVhciEvtDeviceFileCreate Request FileObject =
     act (set_owner_locked FileObject)
       (act (WdfRequestComplete Request STATUS_SUCCESS) (Return ()))"

text \<open>The close's first region: the handle and the radio are gone; was there a radio?\<close>

definition close_locked :: "'w sys \<Rightarrow> bool \<times> 'w sys" where
  "close_locked s =
     (let s = acquire s;
          hadRadio = RadioPresent (fdo s)
      in (hadRadio,
          release (upd_fdo (\<lambda>c. c\<lparr>RadioPresent := False, Owner := NULL_HANDLE\<rparr>) s)))"

text \<open>
  \<open>WdfIoQueuePurgeSynchronously\<close> waits until no request of the queue is left, on the queue or in the
  hands of a handler that took it off. A region cannot wait: this one is the moment the wait is over.
  That the wait does end, because no handler that is waited for is itself at a purge, is shown in
  \<open>Purge_Waits\<close>.
\<close>

definition purge_queue ::
  "'w wdf \<Rightarrow> (WINVHCI_FDO_CONTEXT \<Rightarrow> WDFQUEUE) \<Rightarrow> 'w sys \<Rightarrow> 'w sys" where
  "purge_queue W q s =
     log_call (QueuePurge (q (fdo s)))
       (s\<lparr>fw := WdfIoQueuePurgeSynchronously W (q (fdo s)) (fw s)\<rparr>)"

definition start_queue ::
  "'w wdf \<Rightarrow> (WINVHCI_FDO_CONTEXT \<Rightarrow> WDFQUEUE) \<Rightarrow> 'w sys \<Rightarrow> 'w sys" where
  "start_queue W q s =
     log_call (QueueStart (q (fdo s))) (s\<lparr>fw := WdfIoQueueStart W (q (fdo s)) (fw s)\<rparr>)"

text \<open>What follows the removal of the radio: the stack's reads are released, then the backlogs go.\<close>

definition close_release :: "'w wdf \<Rightarrow> ('w sys, unit) prog" where
  "close_release W =
     act (purge_queue W ReadEventQueue)
      (act (purge_queue W ReadDataQueue)
        (act (start_queue W ReadEventQueue)
          (act (start_queue W ReadDataQueue)
            (act WinVhciPurgeBacklogs (Return ())))))"

definition WinVhciEvtFileClose :: "'w wdf \<Rightarrow> ('w sys, unit) prog" where
  "WinVhciEvtFileClose W =
     atomically close_locked
       (\<lambda>hadRadio.
          if hadRadio then atomically (WinVhciRemoveRadios W) (\<lambda>_. close_release W)
          else close_release W)"

end
