(* ===== verification/Bthx_Transport.thy ===== *)
theory Bthx_Transport
  imports User_Channel Stack_Channel
begin

text \<open>
  The BTHX contract (\<open>fdo.c\<close>): the five \<open>METHOD_NEITHER\<close> requests BthMini sends, dispatched by
  \<open>WinVhciBthxDispatch\<close>. One definition per case of its switch; a case yields the status and the
  information the request is completed with at the end of the function, or nothing when it has
  already returned.
\<close>

section \<open>Registry knobs\<close>

definition winvhci_registry_path :: string where
  "winvhci_registry_path =
     [CHR 0x5C] @ ''Registry'' @ [CHR 0x5C] @ ''Machine'' @ [CHR 0x5C] @ ''SOFTWARE'' @ [CHR 0x5C]
     @ ''winvhci''"

text \<open>
  \<open>WinVhciReadUlong\<close>: \<open>None\<close> is the result \<open>FALSE\<close>, which leaves the caller's value untouched. It
  refuses to run above \<open>PASSIVE_LEVEL\<close> (0).
\<close>

definition WinVhciReadUlong :: "'w wdf \<Rightarrow> string \<Rightarrow> 'w \<Rightarrow> ULONG option" where
  "WinVhciReadUlong W Name w =
     (if KeGetCurrentIrql W w \<noteq> 0 then None
      else if \<not> NT_SUCCESS (WdfRegistryOpenKey W winvhci_registry_path w) then None
      else
        case WdfRegistryQueryULong W winvhci_registry_path Name w of
          (status, v) \<Rightarrow> if \<not> NT_SUCCESS status then None else Some v)"

text \<open>\<open>(VOID)WinVhciReadUlong(device, Name, &value)\<close> with \<open>value\<close> seeded with a default.\<close>

definition knob :: "'w wdf \<Rightarrow> string \<Rightarrow> ULONG \<Rightarrow> 'w \<Rightarrow> ULONG" where
  "knob W Name dflt w = (case WinVhciReadUlong W Name w of None \<Rightarrow> dflt | Some v \<Rightarrow> v)"

section \<open>The requests\<close>

text \<open>
  The control codes of \<open>bthxddi.h\<close> are symbolic here; every other code takes the switch's default.
\<close>

datatype BTHX_IOCTL =
    IOCTL_BTHX_GET_VERSION
  | IOCTL_BTHX_SET_VERSION
  | IOCTL_BTHX_QUERY_CAPABILITIES
  | IOCTL_BTHX_WRITE_HCI
  | IOCTL_BTHX_READ_HCI
  | IOCTL_BTHX_UNKNOWN ULONG

text \<open>Enumerators and the version constant, as recorded in \<open>docs/design.md\<close>.\<close>

definition HciPacketEvent :: ULONG where "HciPacketEvent = 4"
definition HciPacketAclData :: ULONG where "HciPacketAclData = 2"
definition BTHX_DDI_VERSION_1 :: ULONG where "BTHX_DDI_VERSION_1 = 1"
definition ScoSupportHCIBypass :: ULONG where "ScoSupportHCIBypass = 2"

type_synonym bthx_answer = "(NTSTATUS \<times> ULONG_PTR) option"

definition bthx_get_version ::
  "'w wdf \<Rightarrow> PVOID \<Rightarrow> SIZE_T \<Rightarrow> ('w sys, bthx_answer) prog" where
  "bthx_get_version W outBuf OutLen =
     (if outBuf = NULL \<or> OutLen < sizeof_BTHX_VERSION W then
        Return (Some (STATUS_BUFFER_TOO_SMALL, 0))
      else
        act (\<lambda>s. s\<lparr>mem := store_bytes (mem s) outBuf (BTHX_VERSION_bytes W BTHX_DDI_VERSION_1)\<rparr>)
          (Return (Some (STATUS_SUCCESS, sizeof_BTHX_VERSION W))))"

text \<open>\<open>ctx->BthxVersion\<close> is written without the lock, as in the code.\<close>

definition bthx_set_version ::
  "'w wdf \<Rightarrow> PVOID \<Rightarrow> SIZE_T \<Rightarrow> ('w sys, bthx_answer) prog" where
  "bthx_set_version W inBuf InLen =
     (if inBuf = NULL \<or> InLen < sizeof_BTHX_VERSION W then
        Return (Some (STATUS_INVALID_PARAMETER, 0))
      else
        act (\<lambda>s. let v = BTHX_VERSION_of_bytes W
                           (load_bytes (mem s) inBuf (unat (sizeof_BTHX_VERSION W)))
                 in upd_fdo (\<lambda>c. c\<lparr>BthxVersion := v\<rparr>) s)
          (Return (Some (STATUS_SUCCESS, 0))))"

definition reported_capabilities :: "'w wdf \<Rightarrow> 'w \<Rightarrow> BTHX_CAPABILITIES" where
  "reported_capabilities W w =
     \<lparr>MaxAclTransferInSize = WINVHCI_MAX_ACL_TRANSFER_IN,
      ScoSupport = knob W ''WvScoSupport'' ScoSupportHCIBypass w,
      MaxScoChannels = knob W ''WvMaxScoChannels'' 1 w,
      IsDeviceIdleCapable = False,
      IsDeviceWakeCapable = False\<rparr>"

definition bthx_query_capabilities ::
  "'w wdf \<Rightarrow> PVOID \<Rightarrow> SIZE_T \<Rightarrow> ('w sys, bthx_answer) prog" where
  "bthx_query_capabilities W outBuf OutLen =
     (if outBuf = NULL \<or> OutLen < sizeof_BTHX_CAPABILITIES W then
        Return (Some (STATUS_BUFFER_TOO_SMALL, 0))
      else
        act (\<lambda>s. s\<lparr>mem := store_bytes (mem s) outBuf
                             (BTHX_CAPABILITIES_bytes W (reported_capabilities W (fw s)))\<rparr>)
          (Return (Some (STATUS_SUCCESS, sizeof_BTHX_CAPABILITIES W))))"

definition count_write_locked :: "'w sys \<Rightarrow> 'w sys" where
  "count_write_locked s =
     release (upd_fdo (\<lambda>c. c\<lparr>WriteHciCount := WriteHciCount c + 1\<rparr>) (acquire s))"

definition bthx_write_hci ::
  "'w wdf \<Rightarrow> PVOID \<Rightarrow> SIZE_T \<Rightarrow> ('w sys, bthx_answer) prog" where
  "bthx_write_hci W inBuf InLen =
     (if inBuf = NULL \<or> InLen < ucast WINVHCI_HCI_CONTEXT_HEADER_SIZE then
        Return (Some (STATUS_INVALID_PARAMETER, 0))
      else
        observe (\<lambda>s. (ctx_DataLen (mem s) inBuf, ctx_Type (mem s) inBuf,
                      ctx_Data (mem s) inBuf (ctx_DataLen (mem s) inBuf)))
          (\<lambda>(dataLen, type, data).
             if ucast InLen - WINVHCI_HCI_CONTEXT_HEADER_SIZE < dataLen
                \<or> WINVHCI_MAX_BODY < dataLen then
               Return (Some (STATUS_INVALID_PARAMETER, 0))
             else
               act count_write_locked
                 (bind_prog (WinVhciQueueToUser W type data dataLen)
                    (\<lambda>_. Return (Some (STATUS_SUCCESS, ucast dataLen))))))"

text \<open>
  The queue a read goes to: its requested type, or its capacity when the type is neither of the two.
\<close>

definition read_target :: "ULONG \<Rightarrow> ULONG \<Rightarrow> WINVHCI_FDO_CONTEXT \<Rightarrow> WDFQUEUE" where
  "read_target requested capacity c =
     (if requested = HciPacketEvent then ReadEventQueue c
      else if requested = HciPacketAclData then ReadDataQueue c
      else if WINVHCI_MAX_ACL_TRANSFER_IN \<le> capacity then ReadDataQueue c
      else ReadEventQueue c)"

definition read_want_type :: "WDFQUEUE \<Rightarrow> WINVHCI_FDO_CONTEXT \<Rightarrow> UCHAR" where
  "read_want_type target c =
     (if target = ReadDataQueue c then WINVHCI_H4_ACL else WINVHCI_H4_EVENT)"

definition bthx_read_hci ::
  "'w wdf \<Rightarrow> WDFREQUEST \<Rightarrow> PVOID \<Rightarrow> SIZE_T \<Rightarrow> PVOID \<Rightarrow> SIZE_T \<Rightarrow> ('w sys, bthx_answer) prog" where
  "bthx_read_hci W Request inBuf InLen outBuf OutLen =
     (if inBuf = NULL \<or> InLen < 4 \<or> outBuf = NULL
         \<or> OutLen < ucast WINVHCI_HCI_CONTEXT_HEADER_SIZE then
        Return (Some (STATUS_INVALID_PARAMETER, 0))
      else if outBuf \<noteq> inBuf + WINVHCI_READ_TYPE_WORD_SIZE then
        Return (Some (STATUS_INVALID_DEVICE_REQUEST, 0))
      else
        observe
          (\<lambda>s. let target = read_target (load_ulong (mem s) inBuf)
                              (ucast OutLen - WINVHCI_HCI_CONTEXT_HEADER_SIZE) (fdo s)
               in (target, read_want_type target (fdo s)))
          (\<lambda>(target, wantType).
             atomically (WinVhciTakeOrParkForStack W wantType Request target)
               (\<lambda>(status, queued).
                  case queued of
                    Some p \<Rightarrow>
                      atomically
                        (WinVhciCompleteRead W Request (pkt_Type p) (pkt_Data p) (pkt_Length p))
                        (\<lambda>_. act (ExFreePoolWithTag p) (Return None))
                  | None \<Rightarrow>
                      if \<not> NT_SUCCESS status then Return (Some (status, 0))
                      else Return None)))"

section \<open>WinVhciBthxDispatch\<close>

definition count_ioctl_locked :: "'w sys \<Rightarrow> 'w sys" where
  "count_ioctl_locked s =
     release (upd_fdo (\<lambda>c. c\<lparr>IoctlCount := IoctlCount c + 1\<rparr>) (acquire s))"

definition bthx_switch ::
  "'w wdf \<Rightarrow> WDFREQUEST \<Rightarrow> PVOID \<Rightarrow> SIZE_T \<Rightarrow> PVOID \<Rightarrow> SIZE_T \<Rightarrow> BTHX_IOCTL \<Rightarrow>
   ('w sys, bthx_answer) prog" where
  "bthx_switch W Request inBuf InLen outBuf OutLen code =
     (case code of
        IOCTL_BTHX_GET_VERSION \<Rightarrow> bthx_get_version W outBuf OutLen
      | IOCTL_BTHX_SET_VERSION \<Rightarrow> bthx_set_version W inBuf InLen
      | IOCTL_BTHX_QUERY_CAPABILITIES \<Rightarrow> bthx_query_capabilities W outBuf OutLen
      | IOCTL_BTHX_WRITE_HCI \<Rightarrow> bthx_write_hci W inBuf InLen
      | IOCTL_BTHX_READ_HCI \<Rightarrow> bthx_read_hci W Request inBuf InLen outBuf OutLen
      | IOCTL_BTHX_UNKNOWN _ \<Rightarrow> Return (Some (STATUS_INVALID_DEVICE_REQUEST, 0)))"

definition WinVhciBthxDispatch ::
  "'w wdf \<Rightarrow> WDFREQUEST \<Rightarrow> SIZE_T \<Rightarrow> SIZE_T \<Rightarrow> BTHX_IOCTL \<Rightarrow> ('w sys, unit) prog" where
  "WinVhciBthxDispatch W Request OutputBufferLen InputBufferLen IoControlCode =
     (let irp = WdfRequestWdmGetIrp W Request;
          inBuf = Type3InputBuffer irp;
          outBuf = UserBuffer irp
      in if RequestorMode irp \<noteq> KernelMode then
           act (WdfRequestComplete Request STATUS_ACCESS_DENIED) (Return ())
         else
           act count_ioctl_locked
             (bind_prog
                (bthx_switch W Request inBuf InputBufferLen outBuf OutputBufferLen IoControlCode)
                (\<lambda>answer. case answer of
                   None \<Rightarrow> Return ()
                 | Some (status, info) \<Rightarrow>
                     act (WdfRequestCompleteWithInformation Request status info) (Return ()))))"

definition WinVhciEvtBthxInternalDeviceControl ::
  "'w wdf \<Rightarrow> WDFREQUEST \<Rightarrow> SIZE_T \<Rightarrow> SIZE_T \<Rightarrow> BTHX_IOCTL \<Rightarrow> ('w sys, unit) prog" where
  "WinVhciEvtBthxInternalDeviceControl W Request OutputBufferLen InputBufferLen IoControlCode =
     WinVhciBthxDispatch W Request OutputBufferLen InputBufferLen IoControlCode"

definition WinVhciEvtBthxDeviceControl ::
  "'w wdf \<Rightarrow> WDFREQUEST \<Rightarrow> SIZE_T \<Rightarrow> SIZE_T \<Rightarrow> BTHX_IOCTL \<Rightarrow> ('w sys, unit) prog" where
  "WinVhciEvtBthxDeviceControl W Request OutputBufferLen InputBufferLen IoControlCode =
     WinVhciBthxDispatch W Request OutputBufferLen InputBufferLen IoControlCode"

end
