(* ===== verification/Driver_Setup.thy ===== *)
theory Driver_Setup
  imports Control_Device Bthx_Transport
begin

text \<open>
  Device creation and teardown (\<open>driver.c\<close>, and the queue set-up of \<open>fdo.c\<close> and \<open>user.c\<close>). Device
  creation is single-threaded: the device has no handle and no child yet.
\<close>

section \<open>Queue configurations\<close>

definition manual_queue_config :: WDF_IO_QUEUE_CONFIG where
  "manual_queue_config =
     \<lparr>DispatchType = WdfIoQueueDispatchManual, DefaultQueue = False, PowerManaged = False,
      EvtIoRead = None, EvtIoWrite = None, EvtIoDeviceControl = None,
      EvtIoInternalDeviceControl = None\<rparr>"

definition bthx_queue_config :: WDF_IO_QUEUE_CONFIG where
  "bthx_queue_config =
     \<lparr>DispatchType = WdfIoQueueDispatchParallel, DefaultQueue = False, PowerManaged = False,
      EvtIoRead = None, EvtIoWrite = None,
      EvtIoDeviceControl = Some Cb_WinVhciEvtBthxDeviceControl,
      EvtIoInternalDeviceControl = Some Cb_WinVhciEvtBthxInternalDeviceControl\<rparr>"

definition user_queue_config :: WDF_IO_QUEUE_CONFIG where
  "user_queue_config =
     \<lparr>DispatchType = WdfIoQueueDispatchParallel, DefaultQueue = True, PowerManaged = False,
      EvtIoRead = Some Cb_WinVhciEvtIoRead, EvtIoWrite = Some Cb_WinVhciEvtIoWrite,
      EvtIoDeviceControl = Some Cb_WinVhciEvtIoDeviceControl,
      EvtIoInternalDeviceControl = None\<rparr>"

text \<open>
  \<open>status = WdfIoQueueCreate(Device, &config, ..., &field); if (!NT_SUCCESS(status)) return status;\<close>
\<close>

definition create_queue ::
  "'w wdf \<Rightarrow> WDFDEVICE \<Rightarrow> WDF_IO_QUEUE_CONFIG \<Rightarrow>
   (WDFQUEUE \<Rightarrow> WINVHCI_FDO_CONTEXT \<Rightarrow> WINVHCI_FDO_CONTEXT) \<Rightarrow>
   ('w sys, NTSTATUS) prog \<Rightarrow> ('w sys, NTSTATUS) prog" where
  "create_queue W device config field k =
     atomically
       (\<lambda>s. case WdfIoQueueCreate W device config (fw s) of
          ((status, queue), w') \<Rightarrow>
            (status,
             log_call (QueueCreate device config status)
               (if NT_SUCCESS status then upd_fdo (field queue) (s\<lparr>fw := w'\<rparr>)
                else s\<lparr>fw := w'\<rparr>)))
       (\<lambda>status. if \<not> NT_SUCCESS status then Return status else k)"

section \<open>WinVhciFdoCreateQueues\<close>

definition WinVhciFdoCreateQueues :: "'w wdf \<Rightarrow> WDFDEVICE \<Rightarrow> ('w sys, NTSTATUS) prog" where
  "WinVhciFdoCreateQueues W device =
     act (\<lambda>s. upd_fdo (\<lambda>c. c\<lparr>FailAllocOneIn := knob W ''WvFailAllocOneIn'' 0 (fw s)\<rparr>) s)
       (create_queue W device bthx_queue_config (\<lambda>q c. c\<lparr>BthxIoQueue := q\<rparr>)
         (create_queue W device manual_queue_config (\<lambda>q c. c\<lparr>ReadEventQueue := q\<rparr>)
           (create_queue W device manual_queue_config (\<lambda>q c. c\<lparr>ReadDataQueue := q\<rparr>)
             (Return STATUS_SUCCESS))))"

section \<open>WinVhciUserInitDevice\<close>

text \<open>Buffered I/O, one handle at a time, and the two callbacks of its lifetime.\<close>

definition user_file_config :: WDF_FILEOBJECT_CONFIG where
  "user_file_config =
     \<lparr>EvtDeviceFileCreate = Some Cb_WinVhciEvtDeviceFileCreate,
      EvtFileClose = Some Cb_WinVhciEvtFileClose, EvtFileCleanup = None\<rparr>"

definition WinVhciUserInitDevice :: "('w sys, NTSTATUS) prog" where
  "WinVhciUserInitDevice =
     act (log_call (DeviceInit (WdfDeviceInitSetIoType WdfDeviceIoBuffered)))
    (act (log_call (DeviceInit (WdfDeviceInitSetExclusive True)))
    (act (log_call (DeviceInit (WdfDeviceInitSetFileObjectConfig user_file_config)))
       (Return STATUS_SUCCESS)))"

section \<open>WinVhciUserCreateQueues\<close>

definition WinVhciSymbolicLink :: string where
  "WinVhciSymbolicLink = [CHR 0x5C] @ ''DosDevices'' @ [CHR 0x5C] @ ''WinVhci''"

definition WinVhciUserCreateQueues :: "'w wdf \<Rightarrow> WDFDEVICE \<Rightarrow> ('w sys, NTSTATUS) prog" where
  "WinVhciUserCreateQueues W device =
     act (upd_fdo (\<lambda>c. c\<lparr>HostToCtrlList := [], PendingEventList := [], PendingDataList := [],
                         NextRadioId := 1\<rparr>))
       (create_queue W device user_queue_config (\<lambda>q c. c)
         (create_queue W device manual_queue_config (\<lambda>q c. c\<lparr>UserReadQueue := q\<rparr>)
           (atomically
              (\<lambda>s. case WdfDeviceCreateSymbolicLink W device WinVhciSymbolicLink (fw s) of
                 (status, w') \<Rightarrow>
                   (status, log_call (SymbolicLinkCreate WinVhciSymbolicLink status)
                              (s\<lparr>fw := w'\<rparr>)))
              (\<lambda>status. if \<not> NT_SUCCESS status then Return status else Return STATUS_SUCCESS))))"

section \<open>WinVhciEvtDeviceAdd\<close>

text \<open>\<open>RtlZeroMemory(fdoContext, sizeof(*fdoContext))\<close>.\<close>

definition zero_fdo_context :: WINVHCI_FDO_CONTEXT where
  "zero_fdo_context =
     \<lparr>Device = NULL_HANDLE, BthxIoQueue = NULL_HANDLE, ReadEventQueue = NULL_HANDLE,
      ReadDataQueue = NULL_HANDLE, UserReadQueue = NULL_HANDLE, Owner = NULL_HANDLE,
      HostToCtrlList = [], PendingEventList = [], PendingDataList = [],
      HostToCtrlCount = 0, PendingEventCount = 0, PendingDataCount = 0,
      HostToCtrlPeak = 0, PendingEventPeak = 0, PendingDataPeak = 0,
      DropsNoClient = 0, DropsAllocFailed = 0,
      WritesTotal = 0, QueuedToUserTotal = 0, WritesNoRadio = 0,
      RadiosAlive = 0, RadioPresent = False, RadioStarted = False,
      CurrentRadioId = 0, NextRadioId = 0, Lock = NULL_HANDLE, BthxVersion = 0,
      FailAllocOneIn = 0, AllocSeq = 0, PdoRequestCount = 0, IoctlCount = 0, WriteHciCount = 0,
      PendedEventReads = 0, PendedDataReads = 0\<rparr>"

definition fdo_power_callbacks :: WDF_PNPPOWER_EVENT_CALLBACKS where
  "fdo_power_callbacks =
     \<lparr>EvtDevicePrepareHardware = None, EvtDeviceD0Entry = None, EvtDeviceD0Exit = None,
      EvtDeviceSelfManagedIoCleanup = Some Cb_WinVhciEvtSelfManagedIoCleanup\<rparr>"

text \<open>The device object, with its context cleared, and then its lock.\<close>

definition create_fdo :: "'w wdf \<Rightarrow> 'w sys \<Rightarrow> (NTSTATUS \<times> WDFDEVICE) \<times> 'w sys" where
  "create_fdo W s =
     (case WdfDeviceCreate W (fw s) of
        ((status, device), w') \<Rightarrow>
          ((status, device),
           log_call (DeviceCreate None status)
             (if NT_SUCCESS status then s\<lparr>fw := w', fdo := zero_fdo_context\<lparr>Device := device\<rparr>\<rparr>
              else s\<lparr>fw := w'\<rparr>)))"

definition create_lock :: "'w wdf \<Rightarrow> 'w sys \<Rightarrow> NTSTATUS \<times> 'w sys" where
  "create_lock W s =
     (case WdfSpinLockCreate W (fw s) of
        ((status, lock), w') \<Rightarrow>
          (status,
           log_call (SpinLockCreate status)
             (if NT_SUCCESS status then upd_fdo (\<lambda>c. c\<lparr>Lock := lock\<rparr>) (s\<lparr>fw := w'\<rparr>)
              else s\<lparr>fw := w'\<rparr>)))"

definition WinVhciEvtDeviceAdd :: "'w wdf \<Rightarrow> ('w sys, NTSTATUS) prog" where
  "WinVhciEvtDeviceAdd W =
     act (log_call (DeviceInit (WdfFdoInitSetDefaultChildListConfig Cb_WinVhciEvtChildListCreateDevice)))
    (act (log_call (DeviceInit (WdfDeviceInitSetPnpPowerEventCallbacks fdo_power_callbacks)))
    (bind_prog WinVhciUserInitDevice
       (\<lambda>status.
          if \<not> NT_SUCCESS status then Return status
          else
            atomically (create_fdo W)
              (\<lambda>(status, device).
                 if \<not> NT_SUCCESS status then Return status
                 else
                   atomically (create_lock W)
                     (\<lambda>status.
                        if \<not> NT_SUCCESS status then Return status
                        else
                          bind_prog (WinVhciFdoCreateQueues W device)
                            (\<lambda>status.
                               if \<not> NT_SUCCESS status then Return status
                               else
                                 bind_prog (WinVhciUserCreateQueues W device)
                                   (\<lambda>status.
                                      if \<not> NT_SUCCESS status then Return status
                                      else Return STATUS_SUCCESS)))))))"

section \<open>DriverEntry and unload\<close>

definition DriverEntry :: "'w wdf \<Rightarrow> ('w sys, NTSTATUS) prog" where
  "DriverEntry W =
     atomically
       (\<lambda>s. case WdfDriverCreate W Cb_WinVhciEvtDeviceAdd Cb_WinVhciEvtDriverContextCleanup (fw s) of
          (status, w') \<Rightarrow>
            (status,
             log_call (DriverCreate Cb_WinVhciEvtDeviceAdd Cb_WinVhciEvtDriverContextCleanup status)
               (s\<lparr>fw := w'\<rparr>)))
       Return"

text \<open>It only prints.\<close>

definition WinVhciEvtDriverContextCleanup :: "('w sys, unit) prog" where
  "WinVhciEvtDriverContextCleanup = Return ()"

section \<open>WinVhciEvtSelfManagedIoCleanup\<close>

definition purge_if_created ::
  "'w wdf \<Rightarrow> (WINVHCI_FDO_CONTEXT \<Rightarrow> WDFQUEUE) \<Rightarrow> 'w sys \<Rightarrow> 'w sys" where
  "purge_if_created W q s = (if q (fdo s) \<noteq> NULL_HANDLE then purge_queue W q s else s)"

definition WinVhciEvtSelfManagedIoCleanup :: "'w wdf \<Rightarrow> ('w sys, unit) prog" where
  "WinVhciEvtSelfManagedIoCleanup W =
     act (purge_if_created W ReadEventQueue)
       (act (purge_if_created W ReadDataQueue)
         (act WinVhciPurgeBacklogs (Return ())))"

end
