(* ===== verification/Invariants.thy ===== *)
theory Invariants
  imports Driver_Setup
begin

text \<open>
  The invariant of the driver and its preservation by every atomic region. Per channel: reads and
  packets never wait at the same time, the counter is the length of the list, the peak bounds it.
  Per backlog: every packet is well formed, of the type of its list and small enough for the far
  side.
\<close>

section \<open>One channel\<close>

definition channel_ok :: "'r list \<Rightarrow> 'p list \<Rightarrow> ULONG \<Rightarrow> ULONG \<Rightarrow> bool" where
  "channel_ok reads pkts n pk \<longleftrightarrow>
     (reads = [] \<or> pkts = []) \<and> n = of_nat (length pkts) \<and> peak_ok pkts pk"

lemma channel_ok_empty [simp]: "channel_ok reads [] n pk \<longleftrightarrow> n = 0"
  by (simp add: channel_ok_def)

lemma channel_ok_enqueue:
  assumes "channel_ok reads pkts n pk" and "n = 0 \<Longrightarrow> reads = []"
  shows "channel_ok reads (pkts @ [p]) (n + 1) (if pk < n + 1 then n + 1 else pk)"
proof -
  have "reads = []"
    using assms by (cases "n = 0") (auto simp: channel_ok_def)
  moreover have "peak_ok (pkts @ [p]) (if pk < n + 1 then n + 1 else pk)"
    using assms(1) by (intro peak_ok_snoc) (simp_all add: channel_ok_def)
  ultimately show ?thesis
    using assms(1) by (simp add: channel_ok_def)
qed

lemma channel_ok_hand_over: "channel_ok (q # rs) pkts n pk \<Longrightarrow> channel_ok rs pkts n pk"
  by (auto simp: channel_ok_def)

lemma channel_ok_take: "channel_ok reads (p # ps) n pk \<Longrightarrow> channel_ok reads ps (n - 1) pk"
  by (auto simp: channel_ok_def peak_ok_Cons)

lemma channel_ok_fewer_reads:
  "channel_ok reads pkts n pk \<Longrightarrow> (reads = [] \<Longrightarrow> reads' = []) \<Longrightarrow> channel_ok reads' pkts n pk"
  by (auto simp: channel_ok_def)

section \<open>The packets of a backlog\<close>

definition packet_ok :: "ULONG \<Rightarrow> WINVHCI_PACKET \<Rightarrow> bool" where
  "packet_ok limit p \<longleftrightarrow> pkt_whole p \<and> pkt_Length p \<le> limit"

definition stack_packet :: "UCHAR \<Rightarrow> WINVHCI_PACKET \<Rightarrow> bool" where
  "stack_packet t p \<longleftrightarrow> pkt_Type p = t \<and> packet_ok (body_limit t) p"

lemma packet_of_ok [simp]:
  "length b = unat n \<Longrightarrow> n \<le> limit \<Longrightarrow> packet_ok limit (packet_of t b n)"
  by (simp add: packet_ok_def pkt_whole_def)

section \<open>The driver\<close>

definition user_ok :: "('w \<Rightarrow> WDFQUEUE \<Rightarrow> WDFREQUEST list) \<Rightarrow> 'w sys \<Rightarrow> bool" where
  "user_ok contents s \<longleftrightarrow>
     channel_ok (contents (fw s) (UserReadQueue (fdo s))) (HostToCtrlList (fdo s))
       (HostToCtrlCount (fdo s)) (HostToCtrlPeak (fdo s))
     \<and> list_all (packet_ok WINVHCI_MAX_BODY) (HostToCtrlList (fdo s))"

definition stack_ok ::
  "('w \<Rightarrow> WDFQUEUE \<Rightarrow> WDFREQUEST list) \<Rightarrow> UCHAR \<Rightarrow> 'w sys \<Rightarrow> bool" where
  "stack_ok contents t s \<longleftrightarrow>
     channel_ok (contents (fw s) (stack_queue t (fdo s))) (stack_list t (fdo s))
       (stack_count t (fdo s)) (stack_peak t (fdo s))
     \<and> list_all (stack_packet t) (stack_list t (fdo s))"

definition queues_distinct :: "WINVHCI_FDO_CONTEXT \<Rightarrow> bool" where
  "queues_distinct c \<longleftrightarrow> distinct [UserReadQueue c, ReadEventQueue c, ReadDataQueue c]"

definition driver_inv :: "('w \<Rightarrow> WDFQUEUE \<Rightarrow> WDFREQUEST list) \<Rightarrow> 'w sys \<Rightarrow> bool" where
  "driver_inv contents s \<longleftrightarrow>
     queues_distinct (fdo s) \<and> user_ok contents s
     \<and> stack_ok contents WINVHCI_H4_EVENT s \<and> stack_ok contents WINVHCI_H4_ACL s"

definition stack_type :: "UCHAR \<Rightarrow> bool" where
  "stack_type t \<longleftrightarrow> t = WINVHCI_H4_EVENT \<or> t = WINVHCI_H4_ACL"

text \<open>The type of the other stack channel.\<close>

definition other_type :: "UCHAR \<Rightarrow> UCHAR" where
  "other_type t = (if t = WINVHCI_H4_ACL then WINVHCI_H4_EVENT else WINVHCI_H4_ACL)"

lemma other_type_neq [simp]: "(t = WINVHCI_H4_ACL) \<noteq> (other_type t = WINVHCI_H4_ACL)"
  by (simp add: other_type_def)

lemma driver_inv_split:
  "stack_type t \<Longrightarrow>
   driver_inv contents s \<longleftrightarrow>
     queues_distinct (fdo s) \<and> user_ok contents s \<and> stack_ok contents t s
     \<and> stack_ok contents (other_type t) s"
  by (auto simp: driver_inv_def stack_type_def other_type_def)

lemma stack_queue_distinct:
  assumes "queues_distinct c"
  shows "UserReadQueue c \<noteq> stack_queue t c" "stack_queue t c \<noteq> UserReadQueue c"
    "stack_queue t c \<noteq> stack_queue (other_type t) c"
    "stack_queue (other_type t) c \<noteq> stack_queue t c"
  using assms by (auto simp: queues_distinct_def stack_queue_def other_type_def)

section \<open>States that look alike\<close>

text \<open>
  The invariant reads the queues, the backlogs and their counters. A region that leaves those alone
  keeps it.
\<close>

definition same_channels :: "WINVHCI_FDO_CONTEXT \<Rightarrow> WINVHCI_FDO_CONTEXT \<Rightarrow> bool" where
  "same_channels c c' \<longleftrightarrow>
     UserReadQueue c' = UserReadQueue c \<and> ReadEventQueue c' = ReadEventQueue c
     \<and> ReadDataQueue c' = ReadDataQueue c
     \<and> HostToCtrlList c' = HostToCtrlList c \<and> HostToCtrlCount c' = HostToCtrlCount c
     \<and> HostToCtrlPeak c' = HostToCtrlPeak c
     \<and> PendingEventList c' = PendingEventList c \<and> PendingEventCount c' = PendingEventCount c
     \<and> PendingEventPeak c' = PendingEventPeak c
     \<and> PendingDataList c' = PendingDataList c \<and> PendingDataCount c' = PendingDataCount c
     \<and> PendingDataPeak c' = PendingDataPeak c"

lemma driver_inv_cong:
  assumes "same_channels (fdo s) (fdo s')" and "contents (fw s') = contents (fw s)"
  shows "driver_inv contents s' \<longleftrightarrow> driver_inv contents s"
  using assms
  by (simp add: same_channels_def driver_inv_def queues_distinct_def user_ok_def stack_ok_def
      stack_channel_defs)

lemma driver_inv_same:
  "driver_inv contents s \<Longrightarrow> same_channels (fdo s) (fdo s') \<Longrightarrow>
   contents (fw s') = contents (fw s) \<Longrightarrow> driver_inv contents s'"
  by (simp add: driver_inv_cong)

lemma same_channels_refl [simp]: "same_channels c c"
  by (simp add: same_channels_def)

text \<open>Losing waiting reads (cancelled, purged) keeps it too.\<close>

lemma driver_inv_fewer_reads:
  assumes "driver_inv contents s" and "same_channels (fdo s) (fdo s')"
    and "\<And>q. contents (fw s) q = [] \<Longrightarrow> contents (fw s') q = []"
  shows "driver_inv contents s'"
  using assms
  by (auto simp: same_channels_def driver_inv_def queues_distinct_def user_ok_def stack_ok_def
      stack_channel_defs intro: channel_ok_fewer_reads)

section \<open>The regions of the data path\<close>

context wdf_queues
begin

lemma QueueToUser_locked_inv:
  assumes inv: "driver_inv contents s" and b: "length b = unat n" "n \<le> WINVHCI_MAX_BODY"
  shows "driver_inv contents (snd (WinVhciQueueToUser_locked W t b n s))"
proof (cases rule: QueueToUser_locked_cases [where s = s and t = t and b = b and n = n])
  case no_client
  with inv show ?thesis by (auto intro: driver_inv_same simp: same_channels_def)
next
  case (handed q rs)
  with inv show ?thesis
    by (auto simp: driver_inv_def user_ok_def stack_ok_def stack_queue_distinct
        dest: channel_ok_hand_over)
next
  case queued
  then have "channel_ok (contents (fw s) (UserReadQueue (fdo s)))
      (HostToCtrlList (fdo s) @ [packet_of t b n]) (HostToCtrlCount (fdo s) + 1)
      (if HostToCtrlPeak (fdo s) < HostToCtrlCount (fdo s) + 1 then HostToCtrlCount (fdo s) + 1
       else HostToCtrlPeak (fdo s))"
    using inv by (intro channel_ok_enqueue) (auto simp: driver_inv_def user_ok_def)
  with queued inv b show ?thesis
    by (simp add: driver_inv_def user_ok_def stack_ok_def queues_distinct_def stack_channel_defs
        split del: if_split cong: if_cong)
next
  case lost
  with inv show ?thesis by (auto intro: driver_inv_same simp: same_channels_def)
qed

lemma EvtIoRead_locked_inv:
  assumes inv: "driver_inv contents s"
  shows "driver_inv contents (snd (WinVhciEvtIoRead_locked W q s))"
proof (cases rule: EvtIoRead_locked_cases [where s = s and q = q])
  case (taken p ps)
  with inv show ?thesis
    by (auto simp: driver_inv_def user_ok_def stack_ok_def queues_distinct_def stack_channel_defs
        dest: channel_ok_take)
next
  case (parked st)
  with inv show ?thesis
    by (auto simp: driver_inv_def user_ok_def stack_ok_def stack_queue_distinct)
next
  case (refused st)
  with inv show ?thesis by (auto intro: driver_inv_same)
qed

lemma DeliverToStack_locked_inv:
  assumes inv: "driver_inv contents s" and t: "stack_type t"
    and b: "length b = unat n" "n \<le> body_limit t"
  shows "driver_inv contents (snd (WinVhciDeliverToStack_locked W t b n s))"
proof (cases rule: DeliverToStack_locked_cases [where s = s and t = t and b = b and n = n])
  case (handed q rs)
  with inv have "channel_ok rs (stack_list t (fdo s)) (stack_count t (fdo s)) (stack_peak t (fdo s))"
    by (auto simp: driver_inv_split [OF t] stack_ok_def dest: channel_ok_hand_over)
  moreover have d: "queues_distinct (fdo s)"
    using inv by (simp add: driver_inv_def)
  ultimately show ?thesis
    using handed inv
    by (simp add: driver_inv_split [OF t] user_ok_def stack_ok_def stack_queue_distinct [OF d])
      (simp add: queues_distinct_def)
next
  case queued
  then have "channel_ok (contents (fw s) (stack_queue t (fdo s)))
      (stack_list t (fdo s) @ [packet_of t b n]) (stack_count t (fdo s) + 1)
      (if stack_peak t (fdo s) < stack_count t (fdo s) + 1 then stack_count t (fdo s) + 1
       else stack_peak t (fdo s))"
    using inv by (intro channel_ok_enqueue) (auto simp: driver_inv_split [OF t] stack_ok_def)
  with queued inv b show ?thesis
    by (simp add: driver_inv_split [OF t] user_ok_def stack_ok_def queues_distinct_def
        stack_packet_def split del: if_split cong: if_cong)
next
  case lost
  with inv show ?thesis by (auto intro: driver_inv_same simp: same_channels_def)
qed

lemma TakeOrParkForStack_inv:
  assumes inv: "driver_inv contents s" and t: "stack_type t"
    and qu: "qu = stack_queue t (fdo s)"
  shows "driver_inv contents (snd (WinVhciTakeOrParkForStack W t q qu s))"
proof (cases rule: TakeOrParkForStack_cases [where s = s and t = t and q = q and qu = qu])
  case (taken p ps)
  with inv show ?thesis
    by (auto simp: driver_inv_split [OF t] user_ok_def stack_ok_def queues_distinct_def
        dest: channel_ok_take)
next
  case (parked st)
  moreover have d: "queues_distinct (fdo s)"
    using inv by (simp add: driver_inv_def)
  ultimately show ?thesis
    using inv qu
    by (simp add: driver_inv_split [OF t] user_ok_def stack_ok_def stack_queue_distinct [OF d])
      (simp add: queues_distinct_def)
next
  case (refused st)
  with inv show ?thesis by (auto intro: driver_inv_same)
qed

end

section \<open>The lock\<close>

text \<open>
  The log of calls read as an automaton: the lock is taken when free and released when held, and
  nothing that can call back into the driver (a completion, a purge, a child-list operation) is
  called under it.
\<close>

definition lock_step :: "bool \<Rightarrow> wdf_call \<Rightarrow> bool option" where
  "lock_step held c =
     (if c = SpinLockAcquire then (if held then None else Some True)
      else if c = SpinLockRelease then (if held then Some False else None)
      else if held then None else Some False)"

primrec lock_run :: "bool \<Rightarrow> wdf_call list \<Rightarrow> bool option" where
  "lock_run held [] = Some held"
| "lock_run held (c # cs) =
     (case lock_step held c of None \<Rightarrow> None | Some held' \<Rightarrow> lock_run held' cs)"

definition lock_discipline :: "wdf_call list \<Rightarrow> bool" where
  "lock_discipline cs \<longleftrightarrow> lock_run False cs = Some False"

lemma lock_run_append:
  "lock_run held (cs @ ds) =
     (case lock_run held cs of None \<Rightarrow> None | Some held' \<Rightarrow> lock_run held' ds)"
  by (induction cs arbitrary: held) (simp_all split: option.split)

lemma lock_discipline_append:
  "lock_discipline cs \<Longrightarrow> lock_discipline ds \<Longrightarrow> lock_discipline (cs @ ds)"
  by (simp add: lock_discipline_def lock_run_append)

lemma lock_discipline_simps [simp]:
  "lock_discipline []"
  "lock_discipline [SpinLockAcquire, SpinLockRelease]"
  "c \<noteq> SpinLockAcquire \<Longrightarrow> c \<noteq> SpinLockRelease \<Longrightarrow> lock_discipline [c]"
  by (simp_all add: lock_discipline_def lock_step_def)

section \<open>The invariant of the running system\<close>

text \<open>
  Once the device exists its queue handles never change, and the next radio id is one past the
  current one.
\<close>

definition queues_of :: "WINVHCI_FDO_CONTEXT \<Rightarrow> WDFQUEUE \<times> WDFQUEUE \<times> WDFQUEUE" where
  "queues_of c = (UserReadQueue c, ReadEventQueue c, ReadDataQueue c)"

definition ids_ok :: "WINVHCI_FDO_CONTEXT \<Rightarrow> bool" where
  "ids_ok c \<longleftrightarrow> NextRadioId c = CurrentRadioId c + 1"

definition system_inv ::
  "('w \<Rightarrow> WDFQUEUE \<Rightarrow> WDFREQUEST list) \<Rightarrow> WDFQUEUE \<times> WDFQUEUE \<times> WDFQUEUE \<Rightarrow>
   'w sys \<Rightarrow> bool" where
  "system_inv contents qs s \<longleftrightarrow>
     queues_of (fdo s) = qs \<and> ids_ok (fdo s) \<and> lock_discipline (calls s)
     \<and> driver_inv contents s"

lemma system_invI:
  assumes "system_inv contents qs s" and "driver_inv contents s'"
    and "queues_of (fdo s') = queues_of (fdo s)" and "ids_ok (fdo s) \<Longrightarrow> ids_ok (fdo s')"
    and "calls s' = calls s @ cs" and "lock_discipline cs"
  shows "system_inv contents qs s'"
  using assms by (simp add: system_inv_def lock_discipline_append)

lemma system_inv_frame:
  assumes "system_inv contents qs s" and "same_channels (fdo s) (fdo s')"
    and "ids_ok (fdo s) \<Longrightarrow> ids_ok (fdo s')"
    and "\<And>q. contents (fw s) q = [] \<Longrightarrow> contents (fw s') q = []"
    and "calls s' = calls s @ cs" and "lock_discipline cs"
  shows "system_inv contents qs s'"
proof (rule system_invI [OF assms(1) _ _ assms(3) assms(5,6)])
  show "driver_inv contents s'"
    using assms(1,2,4) by (auto simp: system_inv_def intro: driver_inv_fewer_reads)
  show "queues_of (fdo s') = queues_of (fdo s)"
    using assms(2) by (simp add: same_channels_def queues_of_def)
qed

text \<open>Regions that leave the framework alone and touch no channel.\<close>

lemma system_inv_quiet:
  assumes "system_inv contents qs s" and "same_channels (fdo s) (fdo s')"
    and "ids_ok (fdo s) \<Longrightarrow> ids_ok (fdo s')" and "fw s' = fw s"
    and "calls s' = calls s @ cs" and "lock_discipline cs"
  shows "system_inv contents qs s'"
  using assms by (auto intro: system_inv_frame)

end
