(* ===== verification/Interleavings.thy ===== *)
theory Interleavings
  imports Invariants
begin

text \<open>
  Every handler keeps the invariant in each of its regions, so the invariant holds in every
  interleaving of any number of handlers, with reads cancelled and buffers changed in between.
\<close>

section \<open>Regions that touch no channel\<close>

lemma set_mem_inv [region_inv]:
  "system_inv contents qs s \<Longrightarrow> system_inv contents qs (s\<lparr>mem := m\<rparr>)"
  by (erule system_inv_quiet [where cs = "[]"]) simp_all

lemma complete_inv [region_inv]:
  "system_inv contents qs s \<Longrightarrow>
   system_inv contents qs (WdfRequestCompleteWithInformation r st i s)"
  by (erule system_inv_quiet [where cs = "[RequestComplete r st i]"]) simp_all

lemma complete0_inv [region_inv]:
  "system_inv contents qs s \<Longrightarrow> system_inv contents qs (WdfRequestComplete r st s)"
  by (simp add: WdfRequestComplete_def complete_inv)

lemma free_inv [region_inv]:
  "system_inv contents qs s \<Longrightarrow> system_inv contents qs (ExFreePoolWithTag p s)"
  by (erule system_inv_quiet [where cs = "[]"]) simp_all

lemma claim_radio_inv [region_inv]:
  "system_inv contents qs s \<Longrightarrow> system_inv contents qs (snd (claim_radio_locked s))"
  by (erule system_inv_quiet [where cs = "[SpinLockAcquire, SpinLockRelease]"])
    (simp_all add: claim_radio_locked_def Let_def same_channels_def ids_ok_def)

lemma small_regions_inv [region_inv]:
  "system_inv contents qs s \<Longrightarrow> system_inv contents qs (unclaim_radio_locked s)"
  "system_inv contents qs s \<Longrightarrow> system_inv contents qs (snd (admission_locked s))"
  "system_inv contents qs s \<Longrightarrow> system_inv contents qs (set_owner_locked f s)"
  "system_inv contents qs s \<Longrightarrow> system_inv contents qs (snd (close_locked s))"
  "system_inv contents qs s \<Longrightarrow> system_inv contents qs (D0Entry_locked pdoCtx s)"
  "system_inv contents qs s \<Longrightarrow> system_inv contents qs (count_write_locked s)"
  "system_inv contents qs s \<Longrightarrow> system_inv contents qs (count_ioctl_locked s)"
  "system_inv contents qs s \<Longrightarrow> system_inv contents qs (stats_locked out s)"
  by (erule system_inv_quiet [where cs = "[SpinLockAcquire, SpinLockRelease]"];
      simp add: unclaim_radio_locked_def admission_locked_def set_owner_locked_def
        close_locked_def count_write_locked_def count_ioctl_locked_def stats_locked_def Let_def
        same_channels_def ids_ok_def)+

lemma stats_unlocked_inv [region_inv]:
  "system_inv contents qs s \<Longrightarrow> system_inv contents qs (stats_clear out s)"
  "system_inv contents qs s \<Longrightarrow> system_inv contents qs (stats_radios out s)"
  by (simp_all add: stats_clear_def stats_radios_def region_inv)

text \<open>The counters of the debugger, the version and the live count are outside the invariant.\<close>

lemma counters_inv [region_inv]:
  "system_inv contents qs s \<Longrightarrow>
   system_inv contents qs (upd_fdo (\<lambda>c. c\<lparr>PdoRequestCount := f c\<rparr>) s)"
  "system_inv contents qs s \<Longrightarrow> system_inv contents qs (upd_fdo (\<lambda>c. c\<lparr>RadiosAlive := g c\<rparr>) s)"
  "system_inv contents qs s \<Longrightarrow> system_inv contents qs (upd_fdo (\<lambda>c. c\<lparr>BthxVersion := v\<rparr>) s)"
  by (erule system_inv_quiet [where cs = "[]"]; simp add: same_channels_def ids_ok_def)+

section \<open>Regions that empty backlogs\<close>

lemma RadioStackDown_inv [region_inv]:
  assumes "system_inv contents qs s"
  shows "system_inv contents qs (WinVhciRadioStackDown i s)"
  using assms
  by (intro system_invI [OF assms, where cs = "[SpinLockAcquire, SpinLockRelease]"])
    (simp_all add: RadioStackDown_fdo queues_of_def ids_ok_def system_inv_def driver_inv_def
      queues_distinct_def user_ok_def stack_ok_def stack_channel_defs)

lemma PurgeBacklogs_inv [region_inv]:
  assumes "system_inv contents qs s"
  shows "system_inv contents qs (WinVhciPurgeBacklogs s)"
  using assms
  by (intro system_invI [OF assms, where cs = "[SpinLockAcquire, SpinLockRelease]"])
    (simp_all add: queues_of_def ids_ok_def system_inv_def driver_inv_def
      queues_distinct_def user_ok_def stack_ok_def stack_channel_defs)

section \<open>Regions that call the framework\<close>

context wdf_queues
begin

lemma QueueToUser_handles:
  "queues_of (fdo (snd (WinVhciQueueToUser_locked W t b n s))) = queues_of (fdo s)
   \<and> ids_ok (fdo (snd (WinVhciQueueToUser_locked W t b n s))) = ids_ok (fdo s)"
  by (cases rule: QueueToUser_locked_cases [where s = s and t = t and b = b and n = n])
    (simp_all add: queues_of_def ids_ok_def)

lemma EvtIoRead_handles:
  "queues_of (fdo (snd (WinVhciEvtIoRead_locked W q s))) = queues_of (fdo s)
   \<and> ids_ok (fdo (snd (WinVhciEvtIoRead_locked W q s))) = ids_ok (fdo s)"
  by (cases rule: EvtIoRead_locked_cases [where s = s and q = q])
    (simp_all add: queues_of_def ids_ok_def)

lemma DeliverToStack_handles:
  "queues_of (fdo (snd (WinVhciDeliverToStack_locked W t b n s))) = queues_of (fdo s)
   \<and> ids_ok (fdo (snd (WinVhciDeliverToStack_locked W t b n s))) = ids_ok (fdo s)"
  by (cases rule: DeliverToStack_locked_cases [where s = s and t = t and b = b and n = n])
    (simp_all add: queues_of_def ids_ok_def)

lemma TakeOrParkForStack_handles:
  "queues_of (fdo (snd (WinVhciTakeOrParkForStack W t q qu s))) = queues_of (fdo s)
   \<and> ids_ok (fdo (snd (WinVhciTakeOrParkForStack W t q qu s))) = ids_ok (fdo s)"
  by (cases rule: TakeOrParkForStack_cases [where s = s and t = t and q = q and qu = qu])
    (simp_all add: queues_of_def ids_ok_def)

lemma data_path_inv [region_inv]:
  assumes inv: "system_inv contents qs s"
  shows "length b = unat n \<Longrightarrow> n \<le> WINVHCI_MAX_BODY \<Longrightarrow>
      system_inv contents qs (snd (WinVhciQueueToUser_locked W t b n s))"
    and "system_inv contents qs (snd (WinVhciEvtIoRead_locked W q s))"
    and "stack_type t \<Longrightarrow> length b = unat n \<Longrightarrow> n \<le> body_limit t \<Longrightarrow>
      system_inv contents qs (snd (WinVhciDeliverToStack_locked W t b n s))"
    and "stack_type t \<Longrightarrow> qu = stack_queue t (fdo s) \<Longrightarrow>
      system_inv contents qs (snd (WinVhciTakeOrParkForStack W t q qu s))"
proof -
  have d: "driver_inv contents s"
    using inv by (simp add: system_inv_def)
  note step = system_invI [OF inv, where cs = "[SpinLockAcquire, SpinLockRelease]"]
  show "system_inv contents qs (snd (WinVhciQueueToUser_locked W t b n s))"
    if "length b = unat n" "n \<le> WINVHCI_MAX_BODY"
    by (rule step) (simp_all add: QueueToUser_handles QueueToUser_locked_inv [OF d that])
  show "system_inv contents qs (snd (WinVhciEvtIoRead_locked W q s))"
    by (rule step) (simp_all add: EvtIoRead_handles EvtIoRead_locked_inv [OF d])
  show "system_inv contents qs (snd (WinVhciDeliverToStack_locked W t b n s))"
    if "stack_type t" "length b = unat n" "n \<le> body_limit t"
    by (rule step) (simp_all add: DeliverToStack_handles DeliverToStack_locked_inv [OF d that])
  show "system_inv contents qs (snd (WinVhciTakeOrParkForStack W t q qu s))"
    if "stack_type t" "qu = stack_queue t (fdo s)"
    by (rule step) (simp_all add: TakeOrParkForStack_handles TakeOrParkForStack_inv [OF d that])
qed

lemma log_call_inv [region_inv]:
  "system_inv contents qs s \<Longrightarrow> lock_discipline [c] \<Longrightarrow> system_inv contents qs (log_call c s)"
  by (erule system_inv_quiet) simp_all

lemma framework_calls_inv [region_inv]:
  assumes inv: "system_inv contents qs s"
  shows "system_inv contents qs (snd (WinVhciAddRadio W i s))"
    and "system_inv contents qs (snd (WinVhciRemoveRadios W s))"
    and "system_inv contents qs (purge_queue W qf s)"
    and "system_inv contents qs (start_queue W qf s)"
    and "system_inv contents qs (s\<lparr>fw := snd (WdfRequestForwardToParentDeviceIoQueue W r q (fw s))\<rparr>)"
  subgoal using inv by (rule system_inv_frame) (auto simp: add_child_contents)
  subgoal using inv by (rule system_inv_frame) (auto simp: scan_contents)
  subgoal using inv by (rule system_inv_frame) (auto simp: purge_queue_def purge_contents)
  subgoal using inv by (rule system_inv_frame) (auto simp: start_queue_def start_contents)
  subgoal using inv by (rule system_inv_frame [where cs = "[]"])
      (auto simp: forward_parent_contents)
  done

lemma CompleteRead_inv [region_inv]:
  "system_inv contents qs s \<Longrightarrow>
   system_inv contents qs (snd (WinVhciCompleteRead W q t b n s))"
  by (simp add: WinVhciCompleteRead_def Let_def region_inv)

section \<open>The handlers\<close>

text \<open>Completing one side of a rendezvous only fills a buffer and completes a request.\<close>

lemma completions_inv [region_inv]:
  "system_inv contents qs s \<Longrightarrow>
   system_inv contents qs (WinVhciQueueToUser_complete W r t b n s)"
  "system_inv contents qs s \<Longrightarrow> system_inv contents qs (WinVhciEvtIoRead_complete W r p s)"
  by (simp_all add: WinVhciQueueToUser_complete_def WinVhciEvtIoRead_complete_def fill_reader_def
      region_inv split: prod.split)

lemma QueueToUser_safe [region_inv]:
  "length b = unat n \<Longrightarrow> n \<le> WINVHCI_MAX_BODY \<Longrightarrow>
   safe (system_inv contents qs) (WinVhciQueueToUser W t b n)"
  by (simp add: WinVhciQueueToUser_def safe_simps region_inv split: option.split)

lemma EvtIoRead_safe [region_inv]: "safe (system_inv contents qs) (WinVhciEvtIoRead W q n)"
  by (simp add: WinVhciEvtIoRead_def safe_simps region_inv split: option.split prod.split)

lemma DeliverToStack_safe [region_inv]:
  "stack_type t \<Longrightarrow> length b = unat n \<Longrightarrow> n \<le> body_limit t \<Longrightarrow>
   safe (system_inv contents qs) (WinVhciDeliverToStack W t b n)"
  by (simp add: WinVhciDeliverToStack_def safe_simps region_inv split: option.split prod.split)

lemma HandleControl_safe [region_inv]:
  "safe (system_inv contents qs) (WinVhciHandleControl W b n)"
  by (simp add: WinVhciHandleControl_def Let_def safe_simps region_inv safe_bind_prog
      control_reply_body_def h4_limits split: option.split prod.split)

lemma dispatch_by_type_safe [region_inv]:
  "length b = unat n \<Longrightarrow> safe (system_inv contents qs) (dispatch_by_type W t b n)"
  by (auto simp: dispatch_by_type_def safe_simps region_inv stack_type_def not_less)

lemma DispatchWrite_safe [region_inv]:
  "safe (system_inv contents qs) (WinVhciDispatchWrite W q)"
  by (simp add: WinVhciDispatchWrite_def Let_def safe_simps region_inv safe_bind_prog
      split: prod.split)

lemma user_handlers_safe [region_inv]:
  "safe (system_inv contents qs) (WinVhciEvtIoWrite W q l)"
  "safe (system_inv contents qs) (WinVhciEvtIoDeviceControl W q ol il code)"
  "safe (system_inv contents qs) (WinVhciEvtDeviceFileCreate q f)"
  "safe (system_inv contents qs) (WinVhciEvtFileClose W)"
  by (simp_all add: WinVhciEvtIoWrite_def WinVhciEvtIoDeviceControl_def
      WinVhciEvtDeviceFileCreate_def WinVhciEvtFileClose_def close_release_def safe_simps
      region_inv split: prod.split)

lemma read_target_queue:
  "stack_type (read_want_type (read_target r cap c) c)"
  "read_target r cap c = stack_queue (read_want_type (read_target r cap c) c) c"
  by (auto simp: read_target_def read_want_type_def stack_type_def stack_queue_def)

text \<open>The queue a read was matched to is still the queue of its type when the read gets the lock.\<close>

lemma system_inv_queues:
  "system_inv contents qs s \<Longrightarrow> system_inv contents qs s' \<Longrightarrow>
   stack_queue t (fdo s') = stack_queue t (fdo s)"
  by (auto simp: system_inv_def queues_of_def stack_queue_def)

lemma bthx_read_hci_safe [region_inv]:
  "safe (system_inv contents qs) (bthx_read_hci W q ib il ob ol)"
proof -
  have "system_inv contents qs (snd (WinVhciTakeOrParkForStack W
          (read_want_type (read_target r cap (fdo s)) (fdo s)) q (read_target r cap (fdo s)) s'))"
    if "system_inv contents qs s" "system_inv contents qs s'" for s s' r cap
    using that read_target_queue [of r cap "fdo s"] system_inv_queues [OF that]
    by (intro data_path_inv) auto
  then show ?thesis
    by (simp add: bthx_read_hci_def Let_def safe_simps region_inv split: option.split prod.split)
qed

lemma bthx_safe [region_inv]:
  "safe (system_inv contents qs) (bthx_get_version W ob ol)"
  "safe (system_inv contents qs) (bthx_set_version W ib il)"
  "safe (system_inv contents qs) (bthx_query_capabilities W ob ol)"
  "safe (system_inv contents qs) (bthx_write_hci W ib il)"
  by (simp_all add: bthx_get_version_def bthx_set_version_def bthx_query_capabilities_def
      bthx_write_hci_def Let_def safe_simps region_inv safe_bind_prog ctx_Data_def not_less)

lemma bthx_switch_safe [region_inv]:
  "safe (system_inv contents qs) (bthx_switch W q ib il ob ol code)"
  by (simp add: bthx_switch_def region_inv split: BTHX_IOCTL.split)

lemma BthxDispatch_safe [region_inv]:
  "safe (system_inv contents qs) (WinVhciBthxDispatch W q ol il code)"
  by (simp add: WinVhciBthxDispatch_def Let_def safe_simps region_inv safe_bind_prog
      split: option.split)

lemma PdoForward_safe [region_inv]:
  "safe (system_inv contents qs) (WinVhciPdoForwardToParent W q)"
  by (simp add: WinVhciPdoForwardToParent_def safe_simps region_inv split_def)

lemma pdo_handlers_safe [region_inv]:
  "safe (system_inv contents qs) (WinVhciPdoEvtPrepareHardware pc)"
  "safe (system_inv contents qs) (WinVhciPdoEvtD0Entry pc)"
  "safe (system_inv contents qs) (WinVhciPdoEvtD0Exit pc)"
  "safe (system_inv contents qs) (WinVhciPdoEvtCleanup pc)"
  by (simp_all add: WinVhciPdoEvtPrepareHardware_def WinVhciPdoEvtD0Entry_def
      WinVhciPdoEvtD0Exit_def WinVhciPdoEvtCleanup_def safe_simps region_inv)

lemma SelfManagedIoCleanup_safe [region_inv]:
  "safe (system_inv contents qs) (WinVhciEvtSelfManagedIoCleanup W)"
  by (simp add: WinVhciEvtSelfManagedIoCleanup_def purge_if_created_def safe_simps region_inv)

end

context wdf_creation
begin

lemma or_fail_safe:
  assumes "\<And>w. contents (snd (f w)) = contents w"
    and "\<And>st. lock_discipline [c st]" and "safe (system_inv contents qs) k"
  shows "safe (system_inv contents qs) (or_fail c f k)"
proof -
  have "system_inv contents qs (log_call (c st) (s\<lparr>fw := snd (f (fw s))\<rparr>))"
    if "system_inv contents qs s" for s st
    using that by (rule system_inv_frame) (auto simp: assms(1,2))
  with assms(3) show ?thesis
    by (simp add: or_fail_def safe_simps split_def)
qed

lemma pdo_steps_inv [region_inv]:
  assumes "system_inv contents qs s"
  shows "system_inv contents qs (snd (create_pdo W s))"
    and "system_inv contents qs (fill_pdo_context i pdo s)"
    and "system_inv contents qs (count_pdo s)"
    and "lock_discipline [c] \<Longrightarrow>
      system_inv contents qs (log_call c (s\<lparr>fw := snd (WdfIoQueueCreate W d cfg (fw s))\<rparr>))"
  using assms
  by (auto intro!: system_inv_frame [OF assms, where cs = "[]"] system_inv_frame [OF assms]
      simp: device_create_contents queue_create_contents create_pdo_def fill_pdo_context_def
        count_pdo_def split_def same_channels_def ids_ok_def)

lemma CreateDevice_safe [region_inv]:
  "safe (system_inv contents qs) (WinVhciEvtChildListCreateDevice W i)"
  unfolding WinVhciEvtChildListCreateDevice_def
  by (intro or_fail_safe pdo_init_contents) (simp_all add: safe_simps split_def region_inv)

end

section \<open>Every interleaving\<close>

text \<open>
  What the framework may run on a created device: the queue callbacks, the handle's create and
  close, the child list's and the PDOs' callbacks, and the teardown. A handler that returns a status
  to the framework returns it to nobody here.
\<close>

inductive spawns :: "'w wdf \<Rightarrow> 'w sys \<Rightarrow> ('w sys, unit) prog \<Rightarrow> bool" for W :: "'w wdf" where
  "spawns W s (WinVhciEvtIoRead W r len)"
| "spawns W s (WinVhciEvtIoWrite W r len)"
| "spawns W s (WinVhciEvtIoDeviceControl W r outLen inLen code)"
| "f \<noteq> NULL_HANDLE \<Longrightarrow> spawns W s (WinVhciEvtDeviceFileCreate r f)"
| "spawns W s (WinVhciEvtFileClose W)"
| "spawns W s (WinVhciEvtBthxInternalDeviceControl W r outLen inLen ioctl)"
| "spawns W s (WinVhciEvtBthxDeviceControl W r outLen inLen ioctl)"
| "spawns W s (WinVhciPdoEvtInternalDeviceControl W r outLen inLen)"
| "spawns W s (WinVhciPdoEvtDeviceControl W r outLen inLen)"
| "spawns W s (bind_prog (WinVhciEvtChildListCreateDevice W i) (\<lambda>_. Return ()))"
| "pdos s d = Some pc \<Longrightarrow>
     spawns W s (bind_prog (WinVhciPdoEvtPrepareHardware pc) (\<lambda>_. Return ()))"
| "pdos s d = Some pc \<Longrightarrow> spawns W s (bind_prog (WinVhciPdoEvtD0Entry pc) (\<lambda>_. Return ()))"
| "pdos s d = Some pc \<Longrightarrow> spawns W s (bind_prog (WinVhciPdoEvtD0Exit pc) (\<lambda>_. Return ()))"
| "pdos s d = Some pc \<Longrightarrow> spawns W s (WinVhciPdoEvtCleanup pc)"
| "spawns W s (WinVhciEvtSelfManagedIoCleanup W)"

text \<open>
  What changes without a handler: buffers belong to their callers, a waiting read can be cancelled
  (an empty queue stays empty), a PDO's object goes away.
\<close>

definition env_step ::
  "('w \<Rightarrow> WDFQUEUE \<Rightarrow> WDFREQUEST list) \<Rightarrow> 'w sys \<Rightarrow> 'w sys \<Rightarrow> bool" where
  "env_step contents s s' \<longleftrightarrow>
     (\<exists>w' m' d. s' = s\<lparr>fw := w', mem := m', pdos := (pdos s) |` d\<rparr>
        \<and> (\<forall>q. contents (fw s) q = [] \<longrightarrow> contents w' q = []))"

lemma env_step_inv:
  "env_step contents s s' \<Longrightarrow> system_inv contents qs s \<Longrightarrow> system_inv contents qs s'"
  by (auto simp: env_step_def intro: system_inv_frame [where cs = "[]"])

context wdf_creation
begin

lemma spawns_safe: "spawns W s p \<Longrightarrow> safe (system_inv contents qs) p"
  by (induction rule: spawns.induct)
    (simp_all add: region_inv safe_bind_prog WinVhciEvtBthxInternalDeviceControl_def
      WinVhciEvtBthxDeviceControl_def WinVhciPdoEvtInternalDeviceControl_def
      WinVhciPdoEvtDeviceControl_def)

end

sublocale wdf_creation \<subseteq> handlers: interleaved "spawns W" "env_step contents" "system_inv contents qs"
  for qs
  by unfold_locales (auto intro: spawns_safe env_step_inv)

context wdf_creation
begin

lemma reachable_inv:
  assumes "conc_reach (spawns W) (env_step contents) s0 (s, ts)"
    and "system_inv contents qs s0"
  shows "system_inv contents qs s"
  using handlers.reach_inv [OF assms] .

end

end
