(* ===== verification/Ledger.thy ===== *)
theory Ledger
  imports Locked_Regions "HOL-Library.Multiset"
begin

text \<open>
  Conservation across regions. A measure \<open>m\<close> of the shared state (the requests already settled, the
  balance of the packet pool) and what a handler in flight holds (its request, a packet it took off
  a list) add up to the same total before and after every region. A handler \<open>owes Q p h\<close> when it
  keeps that total, starting with \<open>h\<close> in hand and returning with a result and a rest that satisfy
  \<open>Q\<close>, whatever happens to the state between its regions.
\<close>

primrec owes ::
  "('s \<Rightarrow> bool) \<Rightarrow> ('s \<Rightarrow> 'm::cancel_comm_monoid_add) \<Rightarrow> ('a \<Rightarrow> 'm \<Rightarrow> bool) \<Rightarrow> ('s, 'a) prog \<Rightarrow>
   'm \<Rightarrow> bool" where
  "owes I m Q (Return a) = (\<lambda>h. Q a h)"
| "owes I m Q (Step f k) =
     (\<lambda>h. \<forall>s. I s \<longrightarrow> I (f s) \<and> (\<exists>h'. m (f s) + h' = m s + h \<and> owes I m Q (k s) h'))"

text \<open>A handler that returns with nothing in hand.\<close>

abbreviation settles ::
  "('s \<Rightarrow> bool) \<Rightarrow> ('s \<Rightarrow> 'm::cancel_comm_monoid_add) \<Rightarrow> ('s, 'a) prog \<Rightarrow> 'm \<Rightarrow> bool" where
  "settles I m p h \<equiv> owes I m (\<lambda>_ h. h = 0) p h"

lemma owes_simps:
  "owes I m Q (atomically g c) h \<longleftrightarrow>
     (\<forall>s. I s \<longrightarrow> I (snd (g s))
        \<and> (\<exists>h'. m (snd (g s)) + h' = m s + h \<and> owes I m Q (c (fst (g s))) h'))"
  "owes I m Q (act f p) h \<longleftrightarrow>
     (\<forall>s. I s \<longrightarrow> I (f s) \<and> (\<exists>h'. m (f s) + h' = m s + h \<and> owes I m Q p h'))"
  "owes I m Q (observe ob c) h \<longleftrightarrow> (\<forall>s. I s \<longrightarrow> owes I m Q (c (ob s)) h)"
  by (simp_all add: atomically_def act_def observe_def)

lemma owes_mono: "owes I m Q p h \<Longrightarrow> (\<And>a h. Q a h \<Longrightarrow> Q' a h) \<Longrightarrow> owes I m Q' p h"
proof (induction p arbitrary: h)
  case (Step f k)
  then show ?case by simp (meson rangeI)
qed simp

lemma owes_bind:
  "owes I m (\<lambda>a. owes I m Q (c a)) p h \<Longrightarrow> owes I m Q (bind_prog p c) h"
proof (induction p arbitrary: h)
  case (Step f k)
  then show ?case by simp (meson rangeI)
qed simp

text \<open>A handler owes more when it is given more, as long as it may return with the surplus.\<close>

lemma owes_frame:
  "owes I m Q p h \<Longrightarrow> owes I m (\<lambda>a h'. \<exists>h0. h' = h0 + r \<and> Q a h0) p (h + r)"
proof (induction p arbitrary: h)
  case (Step f k)
  show ?case
  proof (simp, intro allI impI)
    fix s assume I: "I s"
    with Step.prems obtain h' where "I (f s)" and h': "m (f s) + h' = m s + h"
        "owes I m Q (k s) h'"
      by auto
    then have "m (f s) + (h' + r) = m s + (h + r)"
      by (simp add: add.assoc [symmetric])
    with \<open>I (f s)\<close> Step.IH [OF _ h'(2)] show "I (f s) \<and> (\<exists>h'. m (f s) + h' = m s + (h + r)
        \<and> owes I m (\<lambda>a h'. \<exists>h0. h' = h0 + r \<and> Q a h0) (k s) h')"
      by blast
  qed
qed auto

text \<open>Calling a program that settles its own part and going on with the rest.\<close>

lemma owes_call:
  assumes "settles I m p h" and "\<And>a. owes I m Q (c a) r"
  shows "owes I m Q (bind_prog p c) (h + r)"
  using owes_frame [OF assms(1), of r] assms(2)
  by (intro owes_bind) (auto elim!: owes_mono)

lemma settles_bind:
  assumes "settles I m p 0" and "\<And>a. owes I m Q (c a) h"
  shows "owes I m Q (bind_prog p c) h"
  using owes_call [OF assms] by simp

lemma owes_exec:
  "owes I m Q p h \<Longrightarrow> I s \<Longrightarrow>
   \<exists>h'. m (exec p s) + h' = m s + h \<and> Q (result p s) h' \<and> I (exec p s)"
proof (induction p arbitrary: h s)
  case (Step f k)
  then obtain h' where "I (f s)" "m (f s) + h' = m s + h" "owes I m Q (k s) h'"
    by auto
  with Step.IH [of "k s" h' "f s"] show ?case by auto
qed auto

lemma settles_exec:
  assumes "settles I m p h" and "I s"
  shows "m (exec p s) = m s + h"
  using owes_exec [OF assms] by auto

section \<open>Any interleaving\<close>

text \<open>
  When every handler settles, what is in hand at any time is exactly what the state is short of, and
  a state with no handler in flight is balanced.
\<close>

locale ledger =
  fixes spawn :: "'s \<Rightarrow> ('s, unit) prog \<Rightarrow> bool"
    and env :: "'s \<Rightarrow> 's \<Rightarrow> bool"
    and inv :: "'s \<Rightarrow> bool"
    and m :: "'s \<Rightarrow> 'm::cancel_comm_monoid_add"
  assumes spawn_settles: "spawn s p \<Longrightarrow> inv s \<Longrightarrow> settles inv m p 0"
    and env_balanced: "env s s' \<Longrightarrow> inv s \<Longrightarrow> inv s' \<and> m s' = m s"
begin

definition in_hand :: "('s, unit) prog list \<Rightarrow> 'm list \<Rightarrow> bool" where
  "in_hand ts hs \<longleftrightarrow> list_all2 (settles inv m) ts hs"

lemma step_balanced:
  assumes "conc_step spawn env c c'" and "inv (fst c)" and "in_hand (snd c) hs"
  shows "inv (fst c') \<and>
    (\<exists>hs'. in_hand (snd c') hs' \<and> m (fst c') + sum_list hs' = m (fst c) + sum_list hs)"
  using assms(1)
proof cases
  case (dispatch s p ts)
  with assms(2,3) have "in_hand (snd c') (hs @ [0])"
    by (auto simp: in_hand_def intro!: list_all2_appendI spawn_settles)
  with dispatch assms(2) show ?thesis
    by (auto intro!: exI [of _ "hs @ [0]"])
next
  case (region i ts f k s)
  have len: "i < length hs" and at: "settles inv m (Step f k) (hs ! i)"
    using region assms(3) by (auto simp: in_hand_def list_all2_conv_all_nth)
  then obtain h' where h': "inv (f s)" "m (f s) + h' = m s + hs ! i" "settles inv m (k s) h'"
    using assms(2) region by auto
  have "in_hand (ts[i := k s]) (hs[i := h'])"
    using assms(3) region h'(3) by (auto simp: in_hand_def list_all2_update_cong)
  moreover have "m (f s) + sum_list (hs[i := h']) = m s + sum_list hs"
  proof -
    define rest where "rest = sum_list (take i hs) + sum_list (drop (Suc i) hs)"
    have "sum_list (hs[i := h']) = rest + h'"
      using len by (simp add: rest_def upd_conv_take_nth_drop ac_simps)
    moreover have "sum_list hs = rest + hs ! i"
      by (subst id_take_nth_drop [OF len]) (simp add: rest_def ac_simps)
    moreover have "m (f s) + (rest + h') = rest + (m (f s) + h')"
      by (simp add: ac_simps)
    ultimately show ?thesis
      using h'(2) by (metis add.assoc add.commute)
  qed
  ultimately show ?thesis
    using region h'(1) by auto
next
  case (environment s s' ts)
  with assms(2,3) env_balanced show ?thesis by auto
qed

lemma reach_balanced:
  assumes "conc_reach spawn env s0 c" and "inv s0"
  shows "inv (fst c) \<and> (\<exists>hs. in_hand (snd c) hs \<and> m (fst c) + sum_list hs = m s0)"
  using assms
proof (induction rule: conc_reach.induct)
  case start
  then show ?case by (auto simp: in_hand_def intro!: exI [of _ "[]"])
next
  case (step c c')
  then obtain hs where "inv (fst c)" "in_hand (snd c) hs" "m (fst c) + sum_list hs = m s0"
    by auto
  with step_balanced [OF step.hyps(2), of hs] show ?case by auto
qed

text \<open>Nothing is in hand once every handler has returned.\<close>

lemma quiescent_balanced:
  assumes "conc_reach spawn env s0 (s, ts)" and "inv s0" and "\<forall>p \<in> set ts. \<exists>a. p = Return a"
  shows "m s = m s0"
proof -
  from reach_balanced [OF assms(1,2)] obtain hs
    where hs: "in_hand ts hs" "m s + sum_list hs = m s0"
    by auto
  from hs(1) assms(3) have "sum_list hs = 0"
    unfolding in_hand_def by (induction rule: list_all2_induct) auto
  with hs(2) show ?thesis by simp
qed

end

end
