(* ===== verification/Conservation.thy ===== *)
theory Conservation
  imports Interleavings Ledger
begin

text \<open>
  Nothing is lost between the regions of a handler. Two ledgers: the packet pool (allocations still
  out are the packets on the three backlogs, plus those a handler has taken off a list and not yet
  freed), and the requests (each one ends completed once or parked once).
\<close>

section \<open>The balance of the packet pool\<close>

definition queued_packets :: "WINVHCI_FDO_CONTEXT \<Rightarrow> int" where
  "queued_packets c =
     int (length (HostToCtrlList c)) + int (length (PendingEventList c))
     + int (length (PendingDataList c))"

definition pool_balance :: "'w sys \<Rightarrow> int" where
  "pool_balance s = queued_packets (fdo s) - pool s"

lemma queued_packets_stack:
  "stack_type t \<Longrightarrow>
   queued_packets c = int (length (HostToCtrlList c)) + int (length (stack_list t c))
     + int (length (stack_list (other_type t) c))"
  by (auto simp: queued_packets_def stack_list_def stack_type_def other_type_def)

lemma pool_balance_quiet [pool_simps]:
  "pool_balance (s\<lparr>mem := m\<rparr>) = pool_balance s"
  "pool_balance (s\<lparr>fw := w\<rparr>) = pool_balance s"
  "pool_balance (log_call c s) = pool_balance s"
  "pool_balance (acquire s) = pool_balance s"
  "pool_balance (release s) = pool_balance s"
  "pool_balance (WdfRequestCompleteWithInformation r st info s) = pool_balance s"
  "pool_balance (WdfRequestComplete r st s) = pool_balance s"
  "pool_balance (ExFreePoolWithTag p s) = pool_balance s + 1"
  "pool_balance (unclaim_radio_locked s) = pool_balance s"
  "pool_balance (snd (claim_radio_locked s)) = pool_balance s"
  "pool_balance (snd (admission_locked s)) = pool_balance s"
  "pool_balance (set_owner_locked f s) = pool_balance s"
  "pool_balance (snd (close_locked s)) = pool_balance s"
  "pool_balance (D0Entry_locked pc s) = pool_balance s"
  "pool_balance (count_write_locked s) = pool_balance s"
  "pool_balance (count_ioctl_locked s) = pool_balance s"
  "pool_balance (stats_locked out s) = pool_balance s"
  "pool_balance (stats_clear out s) = pool_balance s"
  "pool_balance (stats_radios out s) = pool_balance s"
  "pool_balance (WinVhciRadioStackDown i s) = pool_balance s"
  "pool_balance (WinVhciPurgeBacklogs s) = pool_balance s"
  "pool_balance (snd (WinVhciAddRadio W i s)) = pool_balance s"
  "pool_balance (snd (WinVhciRemoveRadios W s)) = pool_balance s"
  "pool_balance (purge_queue W qf s) = pool_balance s"
  "pool_balance (start_queue W qf s) = pool_balance s"
  "pool_balance (snd (WinVhciCompleteRead W q t b n s)) = pool_balance s"
  "pool_balance (upd_fdo (\<lambda>c. c\<lparr>PdoRequestCount := f1 c\<rparr>) s) = pool_balance s"
  "pool_balance (upd_fdo (\<lambda>c. c\<lparr>RadiosAlive := f2 c\<rparr>) s) = pool_balance s"
  "pool_balance (upd_fdo (\<lambda>c. c\<lparr>BthxVersion := v\<rparr>) s) = pool_balance s"
  "pool_balance (snd (create_pdo W s)) = pool_balance s"
  "pool_balance (fill_pdo_context i d s) = pool_balance s"
  "pool_balance (count_pdo s) = pool_balance s"
  by (simp_all add: pool_balance_def queued_packets_def unclaim_radio_locked_def
      claim_radio_locked_def admission_locked_def set_owner_locked_def close_locked_def
      count_write_locked_def count_ioctl_locked_def stats_locked_def stats_clear_def
      stats_radios_def purge_queue_def start_queue_def create_pdo_def fill_pdo_context_def
      count_pdo_def split_def Let_def
      WinVhciRadioStackDown_def)

context wdf_queues
begin

lemma QueueToUser_balance [pool_simps]:
  "pool_balance (snd (WinVhciQueueToUser_locked W t b n s)) = pool_balance s"
  by (cases rule: QueueToUser_locked_cases [where s = s and t = t and b = b and n = n])
    (simp_all add: pool_balance_def queued_packets_def)

lemma EvtIoRead_balance [pool_simps]:
  "pool_balance (snd (WinVhciEvtIoRead_locked W q s)) =
     pool_balance s - (if fst (fst (WinVhciEvtIoRead_locked W q s)) = None then 0 else 1)"
  by (cases rule: EvtIoRead_locked_cases [where s = s and q = q])
    (simp_all add: pool_balance_def queued_packets_def)

lemma DeliverToStack_balance [pool_simps]:
  "stack_type t \<Longrightarrow>
   pool_balance (snd (WinVhciDeliverToStack_locked W t b n s)) = pool_balance s"
  by (cases rule: DeliverToStack_locked_cases [where s = s and t = t and b = b and n = n])
    (simp_all add: pool_balance_def queued_packets_stack)

lemma TakeOrPark_balance [pool_simps]:
  "stack_type t \<Longrightarrow>
   pool_balance (snd (WinVhciTakeOrParkForStack W t q qu s)) =
     pool_balance s - (if snd (fst (WinVhciTakeOrParkForStack W t q qu s)) = None then 0 else 1)"
  by (cases rule: TakeOrParkForStack_cases [where s = s and t = t and q = q and qu = qu])
    (simp_all add: pool_balance_def queued_packets_stack)

lemma completions_balance [pool_simps]:
  "pool_balance (WinVhciQueueToUser_complete W r t b n s) = pool_balance s"
  "pool_balance (WinVhciEvtIoRead_complete W r p s) = pool_balance s + 1"
  by (simp_all add: WinVhciQueueToUser_complete_def WinVhciEvtIoRead_complete_def fill_reader_def
      pool_simps split: prod.split)

section \<open>Every handler settles its packets\<close>

lemma QueueToUser_pool [pool_simps]:
  "length b = unat n \<Longrightarrow> n \<le> WINVHCI_MAX_BODY \<Longrightarrow>
   settles (system_inv contents qs) pool_balance (WinVhciQueueToUser W t b n) 0"
  by (simp add: WinVhciQueueToUser_def owes_simps pool_simps region_inv split: option.split)

lemma EvtIoRead_pool [pool_simps]:
  "settles (system_inv contents qs) pool_balance (WinVhciEvtIoRead W q n) 0"
  by (simp add: WinVhciEvtIoRead_def owes_simps pool_simps region_inv split: option.split prod.split)

lemma DeliverToStack_pool [pool_simps]:
  "stack_type t \<Longrightarrow> length b = unat n \<Longrightarrow> n \<le> body_limit t \<Longrightarrow>
   owes (system_inv contents qs) pool_balance (\<lambda>_ h. h = 0) (WinVhciDeliverToStack W t b n) 0"
  by (simp add: WinVhciDeliverToStack_def owes_simps pool_simps region_inv
      split: option.split prod.split)

lemma HandleControl_pool [pool_simps]:
  "settles (system_inv contents qs) pool_balance (WinVhciHandleControl W b n) 0"
  by (simp add: WinVhciHandleControl_def Let_def owes_simps region_inv pool_simps settles_bind
      control_reply_body_def h4_limits split: option.split prod.split)

lemma dispatch_by_type_pool [pool_simps]:
  "length b = unat n \<Longrightarrow>
   settles (system_inv contents qs) pool_balance (dispatch_by_type W t b n) 0"
  by (auto simp: dispatch_by_type_def owes_simps region_inv pool_simps stack_type_def not_less)

lemma DispatchWrite_pool [pool_simps]:
  "settles (system_inv contents qs) pool_balance (WinVhciDispatchWrite W q) 0"
  by (simp add: WinVhciDispatchWrite_def Let_def owes_simps region_inv pool_simps settles_bind
      split: prod.split)

lemma user_handlers_pool [pool_simps]:
  "settles (system_inv contents qs) pool_balance (WinVhciEvtIoWrite W q l) 0"
  "settles (system_inv contents qs) pool_balance (WinVhciEvtIoDeviceControl W q ol il code) 0"
  "settles (system_inv contents qs) pool_balance (WinVhciEvtDeviceFileCreate q f) 0"
  "settles (system_inv contents qs) pool_balance (WinVhciEvtFileClose W) 0"
  by (simp_all add: WinVhciEvtIoWrite_def WinVhciEvtIoDeviceControl_def
      WinVhciEvtDeviceFileCreate_def WinVhciEvtFileClose_def close_release_def owes_simps
      region_inv pool_simps split: prod.split)

text \<open>A read takes one packet in hand and frees it after filling the buffer.\<close>

lemma bthx_read_hci_pool [pool_simps]:
  "settles (system_inv contents qs) pool_balance (bthx_read_hci W q ib il ob ol) 0"
proof -
  have "system_inv contents qs (snd (WinVhciTakeOrParkForStack W
          (read_want_type (read_target r cap (fdo s)) (fdo s)) q (read_target r cap (fdo s)) s'))"
    if "system_inv contents qs s" "system_inv contents qs s'" for s s' r cap
    using that read_target_queue [of r cap "fdo s"] system_inv_queues [OF that]
    by (intro data_path_inv) auto
  then show ?thesis
    by (simp add: bthx_read_hci_def Let_def owes_simps region_inv pool_simps read_target_queue(1)
        split: option.split prod.split)
qed

lemma bthx_pool [pool_simps]:
  "settles (system_inv contents qs) pool_balance (bthx_get_version W ob ol) 0"
  "settles (system_inv contents qs) pool_balance (bthx_set_version W ib il) 0"
  "settles (system_inv contents qs) pool_balance (bthx_query_capabilities W ob ol) 0"
  "settles (system_inv contents qs) pool_balance (bthx_write_hci W ib il) 0"
  by (simp_all add: bthx_get_version_def bthx_set_version_def bthx_query_capabilities_def
      bthx_write_hci_def Let_def owes_simps region_inv pool_simps settles_bind ctx_Data_def not_less)

lemma bthx_switch_pool [pool_simps]:
  "settles (system_inv contents qs) pool_balance (bthx_switch W q ib il ob ol code) 0"
  by (simp add: bthx_switch_def pool_simps split: BTHX_IOCTL.split)

lemma BthxDispatch_pool [pool_simps]:
  "settles (system_inv contents qs) pool_balance (WinVhciBthxDispatch W q ol il code) 0"
  by (simp add: WinVhciBthxDispatch_def Let_def owes_simps region_inv pool_simps settles_bind
      split: option.split)

lemma pdo_handlers_pool [pool_simps]:
  "settles (system_inv contents qs) pool_balance (WinVhciPdoForwardToParent W q) 0"
  "settles (system_inv contents qs) pool_balance (WinVhciPdoEvtPrepareHardware pc) 0"
  "settles (system_inv contents qs) pool_balance (WinVhciPdoEvtD0Entry pc) 0"
  "settles (system_inv contents qs) pool_balance (WinVhciPdoEvtD0Exit pc) 0"
  "settles (system_inv contents qs) pool_balance (WinVhciPdoEvtCleanup pc) 0"
  "settles (system_inv contents qs) pool_balance (WinVhciEvtSelfManagedIoCleanup W) 0"
  by (simp_all add: WinVhciPdoForwardToParent_def WinVhciPdoEvtPrepareHardware_def
      WinVhciPdoEvtD0Entry_def WinVhciPdoEvtD0Exit_def WinVhciPdoEvtCleanup_def
      WinVhciEvtSelfManagedIoCleanup_def purge_if_created_def owes_simps region_inv pool_simps
      split_def)

end

context wdf_creation
begin

lemma or_fail_settles:
  assumes "\<And>w. contents (snd (f w)) = contents w"
    and "\<And>st. lock_discipline [c st]" and "settles (system_inv contents qs) m k 0"
    and "\<And>s st. m (log_call (c st) (s\<lparr>fw := snd (f (fw s))\<rparr>)) = m s"
  shows "settles (system_inv contents qs) m (or_fail c f k) 0"
proof -
  have "system_inv contents qs (log_call (c st) (s\<lparr>fw := snd (f (fw s))\<rparr>))"
    if "system_inv contents qs s" for s st
    using that by (rule system_inv_frame) (auto simp: assms(1,2))
  with assms(3,4) show ?thesis
    by (simp add: or_fail_def owes_simps split_def)
qed

lemma CreateDevice_pool [pool_simps]:
  "settles (system_inv contents qs) pool_balance (WinVhciEvtChildListCreateDevice W i) 0"
  unfolding WinVhciEvtChildListCreateDevice_def
  by (intro or_fail_settles pdo_init_contents)
    (simp_all add: owes_simps split_def region_inv pool_simps)

lemma spawns_pool: "spawns W s p \<Longrightarrow> settles (system_inv contents qs) pool_balance p 0"
  by (induction rule: spawns.induct)
    (simp_all add: pool_simps settles_bind WinVhciEvtBthxInternalDeviceControl_def
      WinVhciEvtBthxDeviceControl_def WinVhciPdoEvtInternalDeviceControl_def
      WinVhciPdoEvtDeviceControl_def)

lemma env_step_balanced:
  "env_step contents s s' \<Longrightarrow> pool_balance s' = pool_balance s"
  by (auto simp: env_step_def pool_balance_def)

end

sublocale wdf_creation \<subseteq> packets: ledger "spawns W" "env_step contents" "system_inv contents qs"
  pool_balance
  for qs
  by unfold_locales (auto intro: spawns_pool env_step_inv env_step_balanced)

context wdf_creation
begin

lemmas packets_balanced = packets.quiescent_balanced

end

end
