(* ===== verification/Request_Ledger.thy ===== *)
theory Request_Ledger
  imports Conservation
begin

text \<open>
  Every request a handler is given ends up in one place, once: completed, or parked on one of the
  three manual queues. A read a handler takes off a queue is completed by it. The statement is about
  each region, so it holds whatever runs in between.
\<close>

section \<open>The requests settled so far\<close>

primrec completed :: "wdf_call list \<Rightarrow> WDFREQUEST multiset" where
  "completed [] = {#}"
| "completed (c # cs) =
     (case c of RequestComplete r st i \<Rightarrow> {#r#} | _ \<Rightarrow> {#}) + completed cs"

lemma completed_append [simp]: "completed (cs @ ds) = completed cs + completed ds"
  by (induction cs) simp_all

text \<open>The requests of the PDO that went on to the parent's queue.\<close>

primrec passed_on :: "wdf_call list \<Rightarrow> WDFREQUEST multiset" where
  "passed_on [] = {#}"
| "passed_on (c # cs) =
     (case c of RequestForwardToParent r q st \<Rightarrow> if NT_SUCCESS st then {#r#} else {#} | _ \<Rightarrow> {#})
     + passed_on cs"

lemma passed_on_append [simp]: "passed_on (cs @ ds) = passed_on cs + passed_on ds"
  by (induction cs) simp_all

text \<open>The requests waiting on the three manual queues.\<close>

definition parked ::
  "('w \<Rightarrow> WDFQUEUE \<Rightarrow> WDFREQUEST list) \<Rightarrow> 'w sys \<Rightarrow> WDFREQUEST multiset" where
  "parked contents s =
     mset (contents (fw s) (UserReadQueue (fdo s)))
     + mset (contents (fw s) (ReadEventQueue (fdo s)))
     + mset (contents (fw s) (ReadDataQueue (fdo s)))"

definition settled ::
  "('w \<Rightarrow> WDFQUEUE \<Rightarrow> WDFREQUEST list) \<Rightarrow> 'w sys \<Rightarrow> WDFREQUEST multiset" where
  "settled contents s = parked contents s + completed (calls s) + passed_on (calls s)"

lemmas settled_defs = settled_def parked_def

lemma settled_stack:
  "stack_type t \<Longrightarrow>
   settled contents s =
     mset (contents (fw s) (UserReadQueue (fdo s)))
     + mset (contents (fw s) (stack_queue t (fdo s)))
     + mset (contents (fw s) (stack_queue (other_type t) (fdo s)))
     + completed (calls s) + passed_on (calls s)"
  by (auto simp: settled_defs stack_queue_def stack_type_def other_type_def)

text \<open>What a decision leaves in hand: the read it took, if any.\<close>

primrec held :: "WDFREQUEST option \<Rightarrow> WDFREQUEST multiset" where
  "held None = {#}"
| "held (Some q) = {#q#}"

lemma settled_quiet [settled_simps]:
  "settled contents (s\<lparr>mem := m\<rparr>) = settled contents s"
  "settled contents (WdfRequestCompleteWithInformation r st info s) =
     settled contents s + {#r#}"
  "settled contents (WdfRequestComplete r st s) = settled contents s + {#r#}"
  "settled contents (ExFreePoolWithTag p s) = settled contents s"
  "settled contents (unclaim_radio_locked s) = settled contents s"
  "settled contents (snd (claim_radio_locked s)) = settled contents s"
  "settled contents (snd (admission_locked s)) = settled contents s"
  "settled contents (set_owner_locked f s) = settled contents s"
  "settled contents (count_write_locked s) = settled contents s"
  "settled contents (count_ioctl_locked s) = settled contents s"
  "settled contents (stats_locked out s) = settled contents s"
  "settled contents (stats_clear out s) = settled contents s"
  "settled contents (stats_radios out s) = settled contents s"
  "settled contents (snd (WinVhciCompleteRead W q t b n s)) = settled contents s + {#q#}"
  "settled contents (upd_fdo (\<lambda>c. c\<lparr>BthxVersion := v\<rparr>) s) = settled contents s"
  "settled contents (upd_fdo (\<lambda>c. c\<lparr>PdoRequestCount := k c\<rparr>) s) = settled contents s"
  "settled contents (upd_fdo (\<lambda>c. c\<lparr>RadiosAlive := g c\<rparr>) s) = settled contents s"
  "settled contents (snd (close_locked s)) = settled contents s"
  "settled contents (D0Entry_locked pc s) = settled contents s"
  "settled contents (WinVhciRadioStackDown i s) = settled contents s"
  "settled contents (WinVhciPurgeBacklogs s) = settled contents s"
  by (simp_all add: settled_defs unclaim_radio_locked_def
      claim_radio_locked_def admission_locked_def set_owner_locked_def
      count_write_locked_def count_ioctl_locked_def stats_locked_def stats_clear_def
      stats_radios_def WinVhciCompleteRead_def close_locked_def RadioStackDown_fdo Let_def)

lemma completions_settled [settled_simps]:
  "settled contents (WinVhciQueueToUser_complete W r t b n s) = settled contents s + {#r#}"
  "settled contents (WinVhciEvtIoRead_complete W r p s) = settled contents s + {#r#}"
  by (simp_all add: WinVhciQueueToUser_complete_def WinVhciEvtIoRead_complete_def fill_reader_def
      settled_simps split: prod.split)

lemma system_inv_distinct: "system_inv contents qs s \<Longrightarrow> queues_distinct (fdo s)"
  by (simp add: system_inv_def driver_inv_def)

context wdf_queues
begin

lemma AddRadio_settled [settled_simps]:
  "settled contents (snd (WinVhciAddRadio W i s)) = settled contents s"
  by (simp add: settled_defs add_child_contents)

lemma QueueToUser_held:
  assumes "system_inv contents qs s"
  shows "settled contents (snd (WinVhciQueueToUser_locked W t b n s))
      + held (fst (WinVhciQueueToUser_locked W t b n s)) = settled contents s"
  using system_inv_distinct [OF assms]
  by (cases rule: QueueToUser_locked_cases [where s = s and t = t and b = b and n = n])
    (auto simp: settled_defs queues_distinct_def)

lemma DeliverToStack_held:
  assumes "system_inv contents qs s" and "stack_type t"
  shows "settled contents (snd (WinVhciDeliverToStack_locked W t b n s))
      + held (fst (fst (WinVhciDeliverToStack_locked W t b n s))) = settled contents s"
  using system_inv_distinct [OF assms(1)]
  by (cases rule: DeliverToStack_locked_cases [where s = s and t = t and b = b and n = n])
    (auto simp: settled_stack [OF assms(2)] stack_queue_distinct)

lemma EvtIoRead_settled:
  assumes "system_inv contents qs s"
  shows "settled contents (snd (WinVhciEvtIoRead_locked W q s)) =
     settled contents s +
       (case fst (WinVhciEvtIoRead_locked W q s) of (po, st) \<Rightarrow>
          if po = None \<and> NT_SUCCESS st then {#q#} else {#})"
  using system_inv_distinct [OF assms]
  by (cases rule: EvtIoRead_locked_cases [where s = s and q = q])
    (auto simp: settled_defs queues_distinct_def)

lemma TakeOrPark_settled:
  assumes "system_inv contents qs s" and "stack_type t" and "qu = stack_queue t (fdo s)"
  shows "settled contents (snd (WinVhciTakeOrParkForStack W t q qu s)) =
     settled contents s +
       (case fst (WinVhciTakeOrParkForStack W t q qu s) of (st, po) \<Rightarrow>
          if po = None \<and> NT_SUCCESS st then {#q#} else {#})"
  using system_inv_distinct [OF assms(1)] assms(3)
  by (cases rule: TakeOrParkForStack_cases [where s = s and t = t and q = q and qu = qu])
    (auto simp: settled_stack [OF assms(2)] stack_queue_distinct)

section \<open>Every handler settles its request\<close>

lemma QueueToUser_settles:
  assumes "length b = unat n" and "n \<le> WINVHCI_MAX_BODY"
  shows "settles (system_inv contents qs) (settled contents) (WinVhciQueueToUser W t b n) 0"
proof -
  have "settles (system_inv contents qs) (settled contents)
      (case r of None \<Rightarrow> Return () | Some r \<Rightarrow> act (WinVhciQueueToUser_complete W r t b n) (Return ()))
      (held r)" for r
    by (simp add: owes_simps settled_simps region_inv split: option.split)
  with assms show ?thesis
    by (auto simp: WinVhciQueueToUser_def owes_simps region_inv intro!: exI dest: QueueToUser_held)
qed

lemma DeliverToStack_settles:
  assumes "stack_type t" and "length b = unat n" and "n \<le> body_limit t"
  shows "settles (system_inv contents qs) (settled contents) (WinVhciDeliverToStack W t b n) 0"
proof -
  have "settles (system_inv contents qs) (settled contents)
      (case r of None \<Rightarrow> Return st
       | Some q \<Rightarrow> atomically (WinVhciCompleteRead W q t b n) Return) (held r)" for r st
    by (simp add: owes_simps settled_simps region_inv split: option.split)
  with assms show ?thesis
    by (auto simp: WinVhciDeliverToStack_def owes_simps region_inv split_def
        intro!: exI dest: DeliverToStack_held)
qed

lemma EvtIoRead_settles:
  "settles (system_inv contents qs) (settled contents) (WinVhciEvtIoRead W q n) {#q#}"
  by (simp add: WinVhciEvtIoRead_def owes_simps region_inv settled_simps EvtIoRead_settled
      split: option.split prod.split)

lemma HandleControl_settles:
  "settles (system_inv contents qs) (settled contents) (WinVhciHandleControl W b n) 0"
  by (simp add: WinVhciHandleControl_def Let_def owes_simps region_inv settled_simps settles_bind
      QueueToUser_settles control_reply_body_def h4_limits split: option.split prod.split)

lemma dispatch_by_type_settles:
  "length b = unat n \<Longrightarrow>
   settles (system_inv contents qs) (settled contents) (dispatch_by_type W t b n) 0"
  by (auto simp: dispatch_by_type_def owes_simps region_inv settled_simps stack_type_def not_less
      HandleControl_settles DeliverToStack_settles)

lemma DispatchWrite_settles:
  "settles (system_inv contents qs) (settled contents) (WinVhciDispatchWrite W q) {#q#}"
  by (simp add: WinVhciDispatchWrite_def Let_def owes_simps region_inv settled_simps settles_bind
      dispatch_by_type_settles split: prod.split)

lemma DeviceControl_settles:
  "settles (system_inv contents qs) (settled contents)
     (WinVhciEvtIoDeviceControl W q ol il code) {#q#}"
  by (simp add: WinVhciEvtIoDeviceControl_def owes_simps region_inv settled_simps split: prod.split)

lemma FileCreate_settles:
  "settles (system_inv contents qs) (settled contents) (WinVhciEvtDeviceFileCreate q f) {#q#}"
  by (simp add: WinVhciEvtDeviceFileCreate_def owes_simps region_inv settled_simps)

text \<open>
  A case of the BTHX switch keeps its request when it answers (the dispatcher completes it) and has
  settled it when it returns without an answer.
\<close>

abbreviation answer_owes ::
  "WDFREQUEST \<Rightarrow> bthx_answer \<Rightarrow> WDFREQUEST multiset \<Rightarrow> bool" where
  "answer_owes q ans h \<equiv> h = (if ans = None then {#} else {#q#})"

lemma bthx_read_hci_settles:
  "owes (system_inv contents qs) (settled contents) (answer_owes q)
     (bthx_read_hci W q ib il ob ol) {#q#}"
proof -
  have *: "system_inv contents qs (snd (WinVhciTakeOrParkForStack W
          (read_want_type (read_target r cap (fdo s)) (fdo s)) q (read_target r cap (fdo s)) s'))"
      "settled contents (snd (WinVhciTakeOrParkForStack W
          (read_want_type (read_target r cap (fdo s)) (fdo s)) q (read_target r cap (fdo s)) s'))
       = settled contents s' +
         (case fst (WinVhciTakeOrParkForStack W
             (read_want_type (read_target r cap (fdo s)) (fdo s)) q (read_target r cap (fdo s)) s')
          of (st, po) \<Rightarrow> if po = None \<and> NT_SUCCESS st then {#q#} else {#})"
    if "system_inv contents qs s" "system_inv contents qs s'" for s s' r cap
    using that read_target_queue [of r cap "fdo s"] system_inv_queues [OF that]
    by (auto intro!: data_path_inv TakeOrPark_settled)
  show ?thesis
    by (simp add: bthx_read_hci_def Let_def owes_simps region_inv settled_simps *
        split: option.split prod.split)
qed

lemma bthx_settles:
  "owes (system_inv contents qs) (settled contents) (answer_owes q) (bthx_get_version W ob ol) {#q#}"
  "owes (system_inv contents qs) (settled contents) (answer_owes q) (bthx_set_version W ib il) {#q#}"
  "owes (system_inv contents qs) (settled contents) (answer_owes q)
     (bthx_query_capabilities W ob ol) {#q#}"
  "owes (system_inv contents qs) (settled contents) (answer_owes q) (bthx_write_hci W ib il) {#q#}"
  by (simp_all add: bthx_get_version_def bthx_set_version_def bthx_query_capabilities_def
      bthx_write_hci_def Let_def owes_simps region_inv settled_simps settles_bind
      QueueToUser_settles ctx_Data_def not_less)

lemma bthx_switch_settles:
  "owes (system_inv contents qs) (settled contents) (answer_owes q)
     (bthx_switch W q ib il ob ol code) {#q#}"
  by (simp add: bthx_switch_def bthx_settles bthx_read_hci_settles split: BTHX_IOCTL.split)

lemma BthxDispatch_settles:
  "settles (system_inv contents qs) (settled contents) (WinVhciBthxDispatch W q ol il code) {#q#}"
proof -
  have "settles (system_inv contents qs) (settled contents)
      (bind_prog (bthx_switch W q ib il ob ol code)
         (\<lambda>answer. case answer of
            None \<Rightarrow> Return ()
          | Some (status, info) \<Rightarrow>
              act (WdfRequestCompleteWithInformation q status info) (Return ()))) {#q#}"
    for ib ob il
    using bthx_switch_settles [of qs q ib il ob ol code]
    by (intro owes_bind) (auto elim!: owes_mono simp: owes_simps region_inv settled_simps
        split: option.split)
  then show ?thesis
    by (simp add: WinVhciBthxDispatch_def Let_def owes_simps region_inv settled_simps)
qed

lemma PdoForward_settles:
  "settles (system_inv contents qs) (settled contents) (WinVhciPdoForwardToParent W q) {#q#}"
proof -
  have "settled contents (log_call (RequestForwardToParent q (BthxIoQueue (fdo s)) (fst r))
        (s\<lparr>fw := snd r\<rparr>))
      = settled contents s + (if NT_SUCCESS (fst r) then {#q#} else {#})"
    if "r = WdfRequestForwardToParentDeviceIoQueue W q (BthxIoQueue (fdo s)) (fw s)" for s r
    using that by (auto simp: settled_defs forward_parent_contents)
  then show ?thesis
    by (simp add: WinVhciPdoForwardToParent_def owes_simps region_inv settled_simps split_def)
qed

lemma handlers_settle:
  assumes "p \<in> {WinVhciEvtIoRead W q len, WinVhciEvtIoWrite W q len,
              WinVhciEvtIoDeviceControl W q outLen inLen code,
              WinVhciEvtDeviceFileCreate q f,
              WinVhciEvtBthxInternalDeviceControl W q outLen inLen ioctl,
              WinVhciEvtBthxDeviceControl W q outLen inLen ioctl,
              WinVhciPdoEvtInternalDeviceControl W q outLen inLen,
              WinVhciPdoEvtDeviceControl W q outLen inLen}"
  shows "settles (system_inv contents qs) (settled contents) p {#q#}"
  using assms
  by (auto simp: PdoForward_settles WinVhciPdoEvtInternalDeviceControl_def
      WinVhciPdoEvtDeviceControl_def EvtIoRead_settles WinVhciEvtIoWrite_def DispatchWrite_settles
      DeviceControl_settles FileCreate_settles WinVhciEvtBthxInternalDeviceControl_def
      WinVhciEvtBthxDeviceControl_def BthxDispatch_settles)

end

end
