(* ===== verification/Device_Creation.thy ===== *)
theory Device_Creation
  imports Request_Ledger
begin

text \<open>
  Device creation followed call by call: what each successful step has done to the device context,
  the framework's queues and the log. The queue handles are distinct because each is new.
\<close>

lemmas device_add_simps =
  WinVhciEvtDeviceAdd_def WinVhciUserInitDevice_def create_fdo_def create_lock_def upd_fdo_def
  log_call_def

context wdf_creation
begin

lemma create_queue_success:
  assumes "NT_SUCCESS (result (create_queue W d cfg field k) s)"
  obtains q s1 st where "q \<noteq> NULL_HANDLE" "q \<notin> live (fw s)" "live (fw s1) = insert q (live (fw s))"
    "contents (fw s1) = contents (fw s)" "contents (fw s) q = []" "fdo s1 = field q (fdo s)"
    "calls s1 = calls s @ [QueueCreate d cfg st]" "pool s1 = pool s" "pdos s1 = pdos s"
    "result (create_queue W d cfg field k) s = result k s1"
    "exec (create_queue W d cfg field k) s = exec k s1" "NT_SUCCESS (result k s1)"
proof -
  obtain st q w' where c: "WdfIoQueueCreate W d cfg (fw s) = ((st, q), w')"
    by (metis surj_pair)
  with assms have st: "NT_SUCCESS st"
    by (simp add: create_queue_def split: if_splits)
  define s1 where "s1 = log_call (QueueCreate d cfg st) (upd_fdo (field q) (s\<lparr>fw := w'\<rparr>))"
  show ?thesis
    using queue_create_success [OF c st] queue_create_contents [of d cfg "fw s"] c st assms
    by (intro that [of q s1 st]) (auto simp: s1_def create_queue_def)
qed

lemma FdoCreateQueues_success:
  assumes "NT_SUCCESS (result (WinVhciFdoCreateQueues W d) s)"
  obtains bq eq dq cs where
    "fdo (exec (WinVhciFdoCreateQueues W d) s) =
       (fdo s)\<lparr>FailAllocOneIn := knob W ''WvFailAllocOneIn'' 0 (fw s), BthxIoQueue := bq,
               ReadEventQueue := eq, ReadDataQueue := dq\<rparr>"
    "bq \<noteq> NULL_HANDLE" "eq \<noteq> dq" "bq \<notin> {eq, dq}"
    "{eq, dq} \<subseteq> live (fw (exec (WinVhciFdoCreateQueues W d) s))"
    "contents (fw (exec (WinVhciFdoCreateQueues W d) s)) eq = []"
    "contents (fw (exec (WinVhciFdoCreateQueues W d) s)) dq = []"
    "calls (exec (WinVhciFdoCreateQueues W d) s) = calls s @ cs" "lock_discipline cs"
    "pool (exec (WinVhciFdoCreateQueues W d) s) = pool s"
proof -
  define s0 where
    "s0 = upd_fdo (\<lambda>c. c\<lparr>FailAllocOneIn := knob W ''WvFailAllocOneIn'' 0 (fw s)\<rparr>) s"
  define p2 where "p2 = create_queue W d manual_queue_config (\<lambda>q c. c\<lparr>ReadDataQueue := q\<rparr>)
    (Return STATUS_SUCCESS)"
  define p1 where "p1 = create_queue W d manual_queue_config (\<lambda>q c. c\<lparr>ReadEventQueue := q\<rparr>) p2"
  define p0 where "p0 = create_queue W d bthx_queue_config (\<lambda>q c. c\<lparr>BthxIoQueue := q\<rparr>) p1"
  have p: "exec (WinVhciFdoCreateQueues W d) s = exec p0 s0"
    "result (WinVhciFdoCreateQueues W d) s = result p0 s0"
    by (simp_all add: WinVhciFdoCreateQueues_def p0_def p1_def p2_def s0_def)
  have s0: "fw s0 = fw s" "calls s0 = calls s" "pool s0 = pool s"
    "fdo s0 = (fdo s)\<lparr>FailAllocOneIn := knob W ''WvFailAllocOneIn'' 0 (fw s)\<rparr>"
    by (simp_all add: s0_def)
  have "NT_SUCCESS (result p0 s0)"
    using assms p by simp
  then obtain bq s1 st1 where 1: "bq \<noteq> NULL_HANDLE" "live (fw s1) = insert bq (live (fw s0))"
      "contents (fw s1) = contents (fw s0)"
      "fdo s1 = (fdo s0)\<lparr>BthxIoQueue := bq\<rparr>" "pool s1 = pool s0"
      "calls s1 = calls s0 @ [QueueCreate d bthx_queue_config st1]"
      "NT_SUCCESS (result p1 s1)" "exec p0 s0 = exec p1 s1"
    unfolding p0_def by (elim create_queue_success) auto
  from 1(7) obtain eq s2 st2 where 2: "eq \<notin> live (fw s1)"
      "live (fw s2) = insert eq (live (fw s1))"
      "contents (fw s2) = contents (fw s1)" "contents (fw s1) eq = []"
      "fdo s2 = (fdo s1)\<lparr>ReadEventQueue := eq\<rparr>" "pool s2 = pool s1"
      "calls s2 = calls s1 @ [QueueCreate d manual_queue_config st2]"
      "NT_SUCCESS (result p2 s2)" "exec p1 s1 = exec p2 s2"
    unfolding p1_def by (elim create_queue_success) auto
  from 2(8) obtain dq s3 st3 where 3: "dq \<notin> live (fw s2)"
      "live (fw s3) = insert dq (live (fw s2))"
      "contents (fw s3) = contents (fw s2)" "contents (fw s2) dq = []"
      "fdo s3 = (fdo s2)\<lparr>ReadDataQueue := dq\<rparr>" "pool s3 = pool s2"
      "calls s3 = calls s2 @ [QueueCreate d manual_queue_config st3]"
      "exec p2 s2 = s3"
    unfolding p2_def by (elim create_queue_success) auto
  have end_eq: "exec (WinVhciFdoCreateQueues W d) s = s3"
    using p(1) 1(8) 2(9) 3(8) by simp
  have "fdo s3 = (fdo s)\<lparr>FailAllocOneIn := knob W ''WvFailAllocOneIn'' 0 (fw s),
      BthxIoQueue := bq, ReadEventQueue := eq, ReadDataQueue := dq\<rparr>"
    using s0(4) 1(4) 2(5) 3(5) by simp
  moreover note 1(1)
  moreover have "eq \<noteq> dq" "bq \<notin> {eq, dq}" "{eq, dq} \<subseteq> live (fw s3)"
    using 1(2) 2(1,2) 3(1,2) by auto
  moreover have "contents (fw s3) eq = []" "contents (fw s3) dq = []"
    using 2(3,4) 3(3,4) by simp_all
  moreover have "calls s3 = calls s @ [QueueCreate d bthx_queue_config st1,
      QueueCreate d manual_queue_config st2, QueueCreate d manual_queue_config st3]"
    using s0(2) 1(6) 2(7) 3(7) by simp
  moreover have "lock_discipline [QueueCreate d bthx_queue_config st1,
      QueueCreate d manual_queue_config st2, QueueCreate d manual_queue_config st3]"
    by (simp add: lock_discipline_def lock_step_def)
  moreover have "pool s3 = pool s"
    using s0(3) 1(5) 2(6) 3(6) by simp
  ultimately show ?thesis
    unfolding end_eq [symmetric] by (rule that)
qed

lemma UserCreateQueues_success:
  assumes "NT_SUCCESS (result (WinVhciUserCreateQueues W d) s)"
  obtains uq cs where
    "fdo (exec (WinVhciUserCreateQueues W d) s) =
       (fdo s)\<lparr>HostToCtrlList := [], PendingEventList := [], PendingDataList := [],
               NextRadioId := 1, UserReadQueue := uq\<rparr>"
    "uq \<notin> live (fw s)" "contents (fw (exec (WinVhciUserCreateQueues W d) s)) = contents (fw s)"
    "contents (fw s) uq = []"
    "calls (exec (WinVhciUserCreateQueues W d) s) = calls s @ cs" "lock_discipline cs"
    "pool (exec (WinVhciUserCreateQueues W d) s) = pool s"
proof -
  define s0 where "s0 = upd_fdo (\<lambda>c. c\<lparr>HostToCtrlList := [], PendingEventList := [],
    PendingDataList := [], NextRadioId := 1\<rparr>) s"
  define link where "link = atomically
    (\<lambda>s. case WdfDeviceCreateSymbolicLink W d WinVhciSymbolicLink (fw s) of
       (status, w') \<Rightarrow>
         (status, log_call (SymbolicLinkCreate WinVhciSymbolicLink status) (s\<lparr>fw := w'\<rparr>)))
    (\<lambda>status. if \<not> NT_SUCCESS status then Return status else Return STATUS_SUCCESS)"
  define p1 where "p1 = create_queue W d manual_queue_config (\<lambda>q c. c\<lparr>UserReadQueue := q\<rparr>) link"
  define p0 where "p0 = create_queue W d user_queue_config (\<lambda>q c. c) p1"
  have p: "exec (WinVhciUserCreateQueues W d) s = exec p0 s0"
    "result (WinVhciUserCreateQueues W d) s = result p0 s0"
    by (simp_all add: WinVhciUserCreateQueues_def p0_def p1_def link_def s0_def)
  have s0: "fw s0 = fw s" "calls s0 = calls s" "pool s0 = pool s"
    "fdo s0 = (fdo s)\<lparr>HostToCtrlList := [], PendingEventList := [], PendingDataList := [],
                      NextRadioId := 1\<rparr>"
    by (simp_all add: s0_def)
  have "NT_SUCCESS (result p0 s0)"
    using assms p by simp
  then obtain rq s1 st1 where 1: "live (fw s1) = insert rq (live (fw s0))"
      "contents (fw s1) = contents (fw s0)" "fdo s1 = fdo s0" "pool s1 = pool s0"
      "calls s1 = calls s0 @ [QueueCreate d user_queue_config st1]"
      "NT_SUCCESS (result p1 s1)" "exec p0 s0 = exec p1 s1"
    unfolding p0_def by (elim create_queue_success) auto
  from 1(6) obtain uq s2 st2 where 2: "uq \<notin> live (fw s1)"
      "contents (fw s2) = contents (fw s1)"
      "contents (fw s1) uq = []" "fdo s2 = (fdo s1)\<lparr>UserReadQueue := uq\<rparr>" "pool s2 = pool s1"
      "calls s2 = calls s1 @ [QueueCreate d manual_queue_config st2]"
      "exec p1 s1 = exec link s2"
    unfolding p1_def by (elim create_queue_success) auto
  obtain st3 w' where l: "WdfDeviceCreateSymbolicLink W d WinVhciSymbolicLink (fw s2) = (st3, w')"
    by (metis surj_pair)
  then have "exec link s2 = log_call (SymbolicLinkCreate WinVhciSymbolicLink st3) (s2\<lparr>fw := w'\<rparr>)"
    by (simp add: link_def)
  moreover have "contents w' = contents (fw s2)"
    using link_create_contents [of d WinVhciSymbolicLink "fw s2"] l by simp
  moreover have "exec (WinVhciUserCreateQueues W d) s = exec link s2"
    using p(1) 1(7) 2(7) by simp
  ultimately show ?thesis
    using s0 1 2
    by (intro that [of uq "[QueueCreate d user_queue_config st1,
        QueueCreate d manual_queue_config st2, SymbolicLinkCreate WinVhciSymbolicLink st3]"])
      (auto simp: lock_discipline_def lock_step_def)
qed

lemma DeviceAdd_success:
  assumes "NT_SUCCESS (result (WinVhciEvtDeviceAdd W) s)"
  obtains d lock n bq eq dq uq cs where
    "fdo (exec (WinVhciEvtDeviceAdd W) s) = zero_fdo_context\<lparr>Device := d, Lock := lock,
       FailAllocOneIn := n,
       BthxIoQueue := bq, ReadEventQueue := eq, ReadDataQueue := dq, NextRadioId := 1,
       UserReadQueue := uq\<rparr>"
    "bq \<noteq> NULL_HANDLE" "distinct [uq, eq, dq]"
    "\<And>q. q \<in> {uq, eq, dq} \<Longrightarrow> contents (fw (exec (WinVhciEvtDeviceAdd W) s)) q = []"
    "calls (exec (WinVhciEvtDeviceAdd W) s) = calls s @ cs" "lock_discipline cs"
    "pool (exec (WinVhciEvtDeviceAdd W) s) = pool s"
proof -
  obtain st d w1 where d: "WdfDeviceCreate W (fw s) = ((st, d), w1)"
    by (metis surj_pair)
  obtain st2 lock w2 where l: "WdfSpinLockCreate W w1 = ((st2, lock), w2)"
    by (metis surj_pair)
  define init where "init = map DeviceInit
    [WdfFdoInitSetDefaultChildListConfig Cb_WinVhciEvtChildListCreateDevice,
     WdfDeviceInitSetPnpPowerEventCallbacks fdo_power_callbacks,
     WdfDeviceInitSetIoType WdfDeviceIoBuffered, WdfDeviceInitSetExclusive True,
     WdfDeviceInitSetFileObjectConfig user_file_config] @ [DeviceCreate None st, SpinLockCreate st2]"
  define s0 where "s0 = s\<lparr>fw := w2, fdo := zero_fdo_context\<lparr>Device := d, Lock := lock\<rparr>,
    calls := calls s @ init\<rparr>"
  define s1 where "s1 = exec (WinVhciFdoCreateQueues W d) s0"
  define s2 where "s2 = exec (WinVhciUserCreateQueues W d) s1"
  from assms d l have ok: "NT_SUCCESS st" "NT_SUCCESS st2"
      "NT_SUCCESS (result (WinVhciFdoCreateQueues W d) s0)"
      "NT_SUCCESS (result (WinVhciUserCreateQueues W d) s1)"
    by (auto simp: device_add_simps s0_def s1_def init_def split: if_splits)
  with d l have end_eq: "exec (WinVhciEvtDeviceAdd W) s = s2"
    by (simp add: device_add_simps s0_def s1_def s2_def init_def)
  have init: "lock_discipline init"
    by (simp add: init_def lock_discipline_def lock_step_def)
  from ok(3) obtain bq eq dq cs where 1: "fdo s1 = (fdo s0)\<lparr>FailAllocOneIn :=
        knob W ''WvFailAllocOneIn'' 0 (fw s0), BthxIoQueue := bq, ReadEventQueue := eq,
        ReadDataQueue := dq\<rparr>" "bq \<noteq> NULL_HANDLE" "eq \<noteq> dq" "{eq, dq} \<subseteq> live (fw s1)"
      "contents (fw s1) eq = []" "contents (fw s1) dq = []" "calls s1 = calls s0 @ cs"
      "lock_discipline cs" "pool s1 = pool s0"
    unfolding s1_def by (elim FdoCreateQueues_success) auto
  from ok(4) obtain uq cs' where 2: "fdo s2 = (fdo s1)\<lparr>HostToCtrlList := [],
        PendingEventList := [], PendingDataList := [], NextRadioId := 1, UserReadQueue := uq\<rparr>"
      "uq \<notin> live (fw s1)" "contents (fw s2) = contents (fw s1)" "contents (fw s1) uq = []"
      "calls s2 = calls s1 @ cs'" "lock_discipline cs'" "pool s2 = pool s1"
    unfolding s2_def by (elim UserCreateQueues_success) auto
  have "fdo s2 = zero_fdo_context\<lparr>Device := d, Lock := lock,
      FailAllocOneIn := knob W ''WvFailAllocOneIn'' 0 (fw s0), BthxIoQueue := bq,
      ReadEventQueue := eq, ReadDataQueue := dq, NextRadioId := 1, UserReadQueue := uq\<rparr>"
    using 1(1) 2(1) by (simp add: s0_def zero_fdo_context_def)
  moreover note 1(2)
  moreover have "distinct [uq, eq, dq]"
    using 1(3,4) 2(2) by auto
  moreover have "contents (fw s2) q = []" if "q \<in> {uq, eq, dq}" for q
    using that 1(5,6) 2(3,4) by auto
  moreover have "calls s2 = calls s @ init @ cs @ cs'"
    using 1(7) 2(5) by (simp add: s0_def)
  moreover have "lock_discipline (init @ cs @ cs')"
    using init 1(8) 2(6) by (simp add: lock_discipline_append)
  moreover have "pool s2 = pool s"
    using 1(9) 2(7) by (simp add: s0_def)
  ultimately show ?thesis
    unfolding end_eq [symmetric] by (rule that)
qed

lemma DeviceAdd_inv:
  assumes "NT_SUCCESS (result (WinVhciEvtDeviceAdd W) s)" and "lock_discipline (calls s)"
  defines "s' \<equiv> exec (WinVhciEvtDeviceAdd W) s"
  shows "system_inv contents (queues_of (fdo s')) s'"
proof -
  from DeviceAdd_success [OF assms(1)] obtain d lock n bq eq dq uq cs where
    c: "fdo s' = zero_fdo_context\<lparr>Device := d, Lock := lock, FailAllocOneIn := n,
       BthxIoQueue := bq, ReadEventQueue := eq, ReadDataQueue := dq, NextRadioId := 1,
       UserReadQueue := uq\<rparr>" and
    q: "distinct [uq, eq, dq]" "\<And>q. q \<in> {uq, eq, dq} \<Longrightarrow> contents (fw s') q = []" and
    r: "calls s' = calls s @ cs" "lock_discipline cs"
    unfolding s'_def by metis
  show ?thesis
    using q r assms(2) by (auto simp: c system_inv_def driver_inv_def queues_distinct_def
        user_ok_def stack_ok_def stack_channel_defs queues_of_def ids_ok_def zero_fdo_context_def
        lock_discipline_append)
qed

end

end
