(* ===== verification/Reference_Framework.thy ===== *)
theory Reference_Framework
  imports Device_Creation
begin

text \<open>
  A framework that meets every contract of \<open>Wdf_Interface\<close>: queues are lists of requests, handles
  are numbers given out in order, nothing is ever short. It shows that the contracts can be met
  together, and the concrete instances of the properties run on it.
\<close>

section \<open>The framework's state\<close>

text \<open>
  \<open>ref_top\<close> is the largest queue handle known; what a larger one holds is not looked at.
\<close>

record ref_fw =
  ref_queue :: "WDFQUEUE \<Rightarrow> WDFREQUEST list"
  ref_top :: WDFQUEUE
  ref_devices :: nat
  ref_children :: "ULONG list"
  ref_parent :: "(WDFREQUEST \<times> WDFQUEUE) list"

definition ref_contents :: "ref_fw \<Rightarrow> WDFQUEUE \<Rightarrow> WDFREQUEST list" where
  "ref_contents w q = (if q \<le> ref_top w then ref_queue w q else [])"

definition ref_live :: "ref_fw \<Rightarrow> WDFQUEUE set" where
  "ref_live w = {.. ref_top w}"

definition ref_set :: "WDFQUEUE \<Rightarrow> WDFREQUEST list \<Rightarrow> ref_fw \<Rightarrow> ref_fw" where
  "ref_set q rs w =
     w\<lparr>ref_queue := (ref_contents w)(q := rs), ref_top := max (ref_top w) q\<rparr>"

lemma ref_contents_set [simp]: "ref_contents (ref_set q rs w) = (ref_contents w)(q := rs)"
  by (auto simp: ref_contents_def ref_set_def fun_eq_iff)

lemma ref_set_fields [simp]:
  "ref_top (ref_set q rs w) = max (ref_top w) q" "ref_devices (ref_set q rs w) = ref_devices w"
  "ref_children (ref_set q rs w) = ref_children w" "ref_parent (ref_set q rs w) = ref_parent w"
  by (simp_all add: ref_set_def)

definition ref_init :: ref_fw where
  "ref_init = \<lparr>ref_queue = (\<lambda>_. []), ref_top = 0, ref_devices = 0, ref_children = [],
               ref_parent = []\<rparr>"

lemma ref_init_fields [simp]:
  "ref_top ref_init = 0" "ref_devices ref_init = 0" "ref_children ref_init = []"
  "ref_parent ref_init = []" "ref_contents ref_init = (\<lambda>_. [])"
  by (simp_all add: ref_init_def ref_contents_def fun_eq_iff)

section \<open>The requests\<close>

text \<open>What the callers put into their requests, the registry and the answer to a child report.\<close>

record ref_env =
  env_irp :: "WDFREQUEST \<Rightarrow> IRP"
  env_in :: "WDFREQUEST \<Rightarrow> NTSTATUS \<times> PVOID \<times> SIZE_T"
  env_out :: "WDFREQUEST \<Rightarrow> NTSTATUS \<times> PVOID \<times> SIZE_T"
  env_write_length :: "WDFREQUEST \<Rightarrow> SIZE_T"
  env_registry :: "string \<Rightarrow> ULONG option"
  env_add_child :: NTSTATUS

abbreviation STATUS_NO_MORE_ENTRIES :: NTSTATUS where "STATUS_NO_MORE_ENTRIES \<equiv> 0x8000001A"
abbreviation STATUS_OBJECT_NAME_NOT_FOUND :: NTSTATUS
  where "STATUS_OBJECT_NAME_NOT_FOUND \<equiv> 0xC0000034"

lemma ref_statuses [simp]:
  "\<not> NT_SUCCESS STATUS_NO_MORE_ENTRIES" "\<not> NT_SUCCESS STATUS_OBJECT_NAME_NOT_FOUND"
  by (simp_all add: NT_SUCCESS_def)

definition ref_retrieve :: "WDFQUEUE \<Rightarrow> ref_fw \<Rightarrow> (NTSTATUS \<times> WDFREQUEST) \<times> ref_fw" where
  "ref_retrieve q w =
     (case ref_contents w q of
        [] \<Rightarrow> ((STATUS_NO_MORE_ENTRIES, NULL_HANDLE), w)
      | r # rs \<Rightarrow> ((STATUS_SUCCESS, r), ref_set q rs w))"

definition ref_wdf :: "ref_env \<Rightarrow> ref_fw wdf" where
  "ref_wdf e = \<lparr>
     WdfIoQueueRetrieveNextRequest = ref_retrieve,
     WdfRequestForwardToIoQueue =
       (\<lambda>r q w. (STATUS_SUCCESS, ref_set q (ref_contents w q @ [r]) w)),
     WdfIoQueuePurgeSynchronously = (\<lambda>q w. ref_set q [] w),
     WdfIoQueueStart = (\<lambda>q w. w),
     WdfRequestForwardToParentDeviceIoQueue =
       (\<lambda>r q w. (STATUS_SUCCESS, w\<lparr>ref_parent := ref_parent w @ [(r, q)]\<rparr>)),
     WdfRequestRetrieveInputBuffer = (\<lambda>r minimum. env_in e r),
     WdfRequestRetrieveOutputBuffer = (\<lambda>r minimum. env_out e r),
     WdfRequestGetParameters_WriteLength = env_write_length e,
     WdfRequestWdmGetIrp = env_irp e,
     ExAllocatePool2 = (\<lambda>n w. (True, w)),
     WdfChildListAddOrUpdateChildDescriptionAsPresent =
       (\<lambda>i w. (env_add_child e,
               if NT_SUCCESS (env_add_child e) then w\<lparr>ref_children := [i]\<rparr> else w)),
     WdfChildListScanNothingPresent = (\<lambda>w. w\<lparr>ref_children := []\<rparr>),
     KeGetCurrentIrql = (\<lambda>w. 0),
     WdfRegistryOpenKey = (\<lambda>path w. STATUS_SUCCESS),
     WdfRegistryQueryULong =
       (\<lambda>path name w. case env_registry e name of
          None \<Rightarrow> (STATUS_OBJECT_NAME_NOT_FOUND, 0) | Some v \<Rightarrow> (STATUS_SUCCESS, v)),
     WdfIoQueueCreate =
       (\<lambda>d cfg w. ((STATUS_SUCCESS, Suc (ref_top w)), ref_set (Suc (ref_top w)) [] w)),
     WdfDriverCreate = (\<lambda>add cleanup w. (STATUS_SUCCESS, w)),
     WdfDeviceCreate =
       (\<lambda>w. ((STATUS_SUCCESS, Suc (ref_devices w)), w\<lparr>ref_devices := Suc (ref_devices w)\<rparr>)),
     WdfSpinLockCreate = (\<lambda>w. ((STATUS_SUCCESS, 1), w)),
     WdfDeviceCreateSymbolicLink = (\<lambda>d name w. (STATUS_SUCCESS, w)),
     WdfPdoInitAssignDeviceID = (\<lambda>name w. (STATUS_SUCCESS, w)),
     WdfPdoInitAddHardwareID = (\<lambda>name w. (STATUS_SUCCESS, w)),
     WdfPdoInitAddCompatibleID = (\<lambda>name w. (STATUS_SUCCESS, w)),
     WdfPdoInitAssignInstanceID = (\<lambda>name w. (STATUS_SUCCESS, w)),
     WdfPdoInitAddDeviceText = (\<lambda>name loc w. (STATUS_SUCCESS, w)),
     sizeof_BTHX_VERSION = 4,
     BTHX_VERSION_bytes = ulong_bytes,
     BTHX_VERSION_of_bytes = bytes_ulong,
     sizeof_BTHX_CAPABILITIES = 16,
     BTHX_CAPABILITIES_bytes =
       (\<lambda>c. ulong_bytes (MaxAclTransferInSize c) @ ulong_bytes (ScoSupport c)
            @ ulong_bytes (MaxScoChannels c)
            @ [of_bool (IsDeviceIdleCapable c), of_bool (IsDeviceWakeCapable c), 0, 0])\<rparr>"

lemma ref_fw_irrelevant [simp]:
  "ref_contents (w\<lparr>ref_children := cs\<rparr>) = ref_contents w"
  "ref_contents (w\<lparr>ref_parent := ps\<rparr>) = ref_contents w"
  "ref_contents (w\<lparr>ref_devices := n\<rparr>) = ref_contents w"
  by (simp_all add: ref_contents_def fun_eq_iff)

interpretation ref: wdf_reliable "ref_wdf e" ref_contents for e
  by unfold_locales
    (auto simp: ref_wdf_def ref_retrieve_def split: list.splits)

interpretation ref: wdf_creation "ref_wdf e" ref_contents ref_live for e
  by unfold_locales
    (auto simp: ref_wdf_def ref_live_def ref_contents_def ref_set_def)

text \<open>A device as \<open>WinVhciEvtDeviceAdd\<close> leaves it on this framework.\<close>

definition ref_blank :: "ref_fw sys" where
  "ref_blank = \<lparr>fdo = zero_fdo_context, pdos = Map.empty, fw = ref_init, mem = (\<lambda>_. 0), pool = 0,
                calls = []\<rparr>"

lemma ref_blank_calls [simp]: "calls ref_blank = []"
  by (simp add: ref_blank_def)

definition ref_env0 :: ref_env where
  "ref_env0 = \<lparr>env_irp = (\<lambda>_. \<lparr>RequestorMode = KernelMode, UserBuffer = 0, Type3InputBuffer = 0,
                                IrpOutputBufferLength = 0\<rparr>),
               env_in = (\<lambda>_. (STATUS_SUCCESS, 0, 0)), env_out = (\<lambda>_. (STATUS_SUCCESS, 0, 0)),
               env_write_length = (\<lambda>_. 0), env_registry = (\<lambda>_. None),
               env_add_child = STATUS_SUCCESS\<rparr>"

definition ref_ready :: "ref_fw sys" where
  "ref_ready = exec (WinVhciEvtDeviceAdd (ref_wdf ref_env0)) ref_blank"

text \<open>The same device with a client, and with a radio whose stack is up.\<close>

definition ref_client :: "ref_fw sys" where
  "ref_client = upd_fdo (\<lambda>c. c\<lparr>Owner := 77\<rparr>) ref_ready"

definition ref_radio :: "ref_fw sys" where
  "ref_radio =
     upd_fdo (\<lambda>c. c\<lparr>RadioPresent := True, RadioStarted := True, CurrentRadioId := 1,
                    NextRadioId := 2\<rparr>) ref_client"

text \<open>A read parked on a queue.\<close>

definition ref_park :: "WDFREQUEST \<Rightarrow> WDFQUEUE \<Rightarrow> ref_fw sys \<Rightarrow> ref_fw sys" where
  "ref_park r q s = s\<lparr>fw := ref_set q (ref_contents (fw s) q @ [r]) (fw s)\<rparr>"

lemmas ref_device_add_defs =
  WinVhciEvtDeviceAdd_def WinVhciUserInitDevice_def create_fdo_def create_lock_def
  WinVhciFdoCreateQueues_def WinVhciUserCreateQueues_def create_queue_def
  knob_def WinVhciReadUlong_def zero_fdo_context_def ref_blank_def ref_env0_def ref_wdf_def

lemma ref_ready_fields [simp]:
  "fdo ref_ready = zero_fdo_context\<lparr>Device := 1, BthxIoQueue := 1, ReadEventQueue := 2,
     ReadDataQueue := 3, UserReadQueue := 5, NextRadioId := 1, Lock := 1\<rparr>"
  "pdos ref_ready = Map.empty" "mem ref_ready = (\<lambda>_. 0)" "pool ref_ready = 0"
  "ref_contents (fw ref_ready) = (\<lambda>_. [])"
  by (simp_all add: ref_ready_def ref_device_add_defs fun_upd_idem)

lemma ref_ready_calls [simp]:
  "calls ref_ready =
     [DeviceInit (WdfFdoInitSetDefaultChildListConfig Cb_WinVhciEvtChildListCreateDevice),
      DeviceInit (WdfDeviceInitSetPnpPowerEventCallbacks fdo_power_callbacks),
      DeviceInit (WdfDeviceInitSetIoType WdfDeviceIoBuffered),
      DeviceInit (WdfDeviceInitSetExclusive True),
      DeviceInit (WdfDeviceInitSetFileObjectConfig user_file_config),
      DeviceCreate None 0, SpinLockCreate 0,
      QueueCreate 1 bthx_queue_config 0, QueueCreate 1 manual_queue_config 0,
      QueueCreate 1 manual_queue_config 0, QueueCreate 1 user_queue_config 0,
      QueueCreate 1 manual_queue_config 0, SymbolicLinkCreate WinVhciSymbolicLink 0]"
  by (simp add: ref_ready_def ref_device_add_defs)

lemma ref_states [simp]:
  "fdo ref_client = (fdo ref_ready)\<lparr>Owner := 77\<rparr>"
  "fw ref_client = fw ref_ready" "mem ref_client = (\<lambda>_. 0)" "pool ref_client = 0"
  "pdos ref_client = Map.empty" "calls ref_client = calls ref_ready"
  "fdo ref_radio = (fdo ref_client)\<lparr>RadioPresent := True, RadioStarted := True,
     CurrentRadioId := 1, NextRadioId := 2\<rparr>"
  "fw ref_radio = fw ref_ready" "mem ref_radio = (\<lambda>_. 0)" "pool ref_radio = 0"
  "pdos ref_radio = Map.empty" "calls ref_radio = calls ref_ready"
  "fdo (ref_park r q s) = fdo s" "mem (ref_park r q s) = mem s" "pool (ref_park r q s) = pool s"
  "pdos (ref_park r q s) = pdos s" "calls (ref_park r q s) = calls s"
  "ref_contents (fw (ref_park r q s)) =
     (ref_contents (fw s))(q := ref_contents (fw s) q @ [r])"
  by (simp_all add: ref_client_def ref_radio_def ref_park_def)

lemma zero_fdo_fields [simp]:
  "HostToCtrlList zero_fdo_context = []" "PendingEventList zero_fdo_context = []"
  "PendingDataList zero_fdo_context = []" "HostToCtrlCount zero_fdo_context = 0"
  "PendingEventCount zero_fdo_context = 0" "PendingDataCount zero_fdo_context = 0"
  "HostToCtrlPeak zero_fdo_context = 0" "PendingEventPeak zero_fdo_context = 0"
  "PendingDataPeak zero_fdo_context = 0" "FailAllocOneIn zero_fdo_context = 0"
  "CurrentRadioId zero_fdo_context = 0" "Owner zero_fdo_context = 0"
  "RadioPresent zero_fdo_context = False" "RadioStarted zero_fdo_context = False"
  "DropsNoClient zero_fdo_context = 0" "DropsAllocFailed zero_fdo_context = 0"
  "WritesTotal zero_fdo_context = 0" "QueuedToUserTotal zero_fdo_context = 0"
  "WritesNoRadio zero_fdo_context = 0" "RadiosAlive zero_fdo_context = 0"
  "AllocSeq zero_fdo_context = 0"
  by (simp_all add: zero_fdo_context_def)

lemma ref_calls_discipline [simp]: "lock_discipline (calls ref_ready)"
  by (simp add: lock_discipline_def lock_step_def)

lemma ref_inv [simp]:
  "system_inv ref_contents (5, 2, 3) ref_ready"
  "system_inv ref_contents (5, 2, 3) ref_client"
  "system_inv ref_contents (5, 2, 3) ref_radio"
  by (simp_all add: system_inv_def driver_inv_def queues_distinct_def user_ok_def stack_ok_def
      stack_channel_defs queues_of_def ids_ok_def del: ref_ready_calls)

lemma ref_inv_parked:
  assumes "system_inv ref_contents (5, 2, 3) s" and "HostToCtrlList (fdo s) = []"
  shows "system_inv ref_contents (5, 2, 3) (ref_park r 5 s)"
  using assms by (auto simp: system_inv_def driver_inv_def queues_distinct_def user_ok_def
      stack_ok_def stack_channel_defs queues_of_def)

end
