(* ===== verification/Channel_Mix.thy ===== *)
theory Channel_Mix
  imports Interleavings
begin

text \<open>
  The three channels side by side. A family of rendezvous that leave each other alone keeps the
  promise of each (\<open>Rendezvous\<close>) in histories that mix the operations of all; the driver's three
  channels are such a family.
\<close>

section \<open>Independent channels\<close>

text \<open>A rendezvous that also keeps an invariant may count it among what it needs.\<close>

context rendezvous
begin

lemma with_invariant:
  assumes "\<And>p s. J s \<Longrightarrow> J (snd (put p s))" and "\<And>r s. J s \<Longrightarrow> J (snd (get r s))"
  shows "rendezvous put get waiting backlog (\<lambda>s. J s \<and> ready s) valid"
proof unfold_locales
  fix s p r rs
  assume "J s \<and> ready s" "valid p" "waiting s = r # rs" "backlog s = []"
  then show "\<exists>s'. put p s = (Some r, s') \<and> (J s' \<and> ready s') \<and> waiting s' = rs \<and> backlog s' = []"
    using put_hands_over [of s p r rs] assms(1) [of s p] by auto
next
  fix s p
  assume "J s \<and> ready s" "valid p" "waiting s = []"
  then show "\<exists>s'. put p s = (None, s') \<and> (J s' \<and> ready s') \<and> waiting s' = []
      \<and> backlog s' = backlog s @ [p]"
    using put_queues [of s p] assms(1) [of s p] by auto
next
  fix s p ps r
  assume "J s \<and> ready s" "waiting s = []" "backlog s = p # ps"
  then show "\<exists>s'. get r s = (Some p, s') \<and> (J s' \<and> ready s') \<and> waiting s' = [] \<and> backlog s' = ps"
    using get_takes [of s p ps r] assms(2) [of s r] by auto
next
  fix s r
  assume "J s \<and> ready s" "backlog s = []"
  then show "\<exists>s'. get r s = (None, s') \<and> (J s' \<and> ready s') \<and> waiting s' = waiting s @ [r]
      \<and> backlog s' = []"
    using get_parks [of s r] assms(2) [of s r] by auto
qed

end

fun mixed_run ::
  "('c \<Rightarrow> 'p \<Rightarrow> 's \<Rightarrow> 'r option \<times> 's) \<Rightarrow> ('c \<Rightarrow> 'r \<Rightarrow> 's \<Rightarrow> 'p option \<times> 's) \<Rightarrow>
   ('c \<times> ('p, 'r) rv_op) list \<Rightarrow> 's \<Rightarrow> ('c \<times> 'r \<times> 'p) list \<times> 's" where
  "mixed_run put get [] s = ([], s)"
| "mixed_run put get ((c, Put p) # ops) s =
     (case put c p s of (ro, s1) \<Rightarrow>
        (case mixed_run put get ops s1 of (ms, s2) \<Rightarrow>
           (case ro of None \<Rightarrow> ms | Some r \<Rightarrow> (c, r, p) # ms, s2)))"
| "mixed_run put get ((c, Get r) # ops) s =
     (case get c r s of (po, s1) \<Rightarrow>
        (case mixed_run put get ops s1 of (ms, s2) \<Rightarrow>
           (case po of None \<Rightarrow> ms | Some p \<Rightarrow> (c, r, p) # ms, s2)))"

text \<open>The operations, or the matches, of one channel.\<close>

definition of_channel :: "'c \<Rightarrow> ('c \<times> 'x) list \<Rightarrow> 'x list" where
  "of_channel c xs = map snd (filter (\<lambda>x. fst x = c) xs)"

lemma of_channel_simps [simp]:
  "of_channel c [] = []"
  "of_channel c ((d, x) # xs) = (if d = c then x # of_channel c xs else of_channel c xs)"
  by (simp_all add: of_channel_def)

locale rendezvous_family =
  fixes put :: "'c \<Rightarrow> 'p \<Rightarrow> 's \<Rightarrow> 'r option \<times> 's"
    and get :: "'c \<Rightarrow> 'r \<Rightarrow> 's \<Rightarrow> 'p option \<times> 's"
    and waiting :: "'c \<Rightarrow> 's \<Rightarrow> 'r list"
    and backlog :: "'c \<Rightarrow> 's \<Rightarrow> 'p list"
    and ready :: "'c \<Rightarrow> 's \<Rightarrow> bool"
    and valid :: "'c \<Rightarrow> 'p \<Rightarrow> bool"
  assumes each: "rendezvous (put c) (get c) (waiting c) (backlog c) (ready c) (valid c)"
    and put_elsewhere: "ready c s \<Longrightarrow> ready d s \<Longrightarrow> d \<noteq> c \<Longrightarrow>
      ready d (snd (put c p s)) \<and> waiting d (snd (put c p s)) = waiting d s
      \<and> backlog d (snd (put c p s)) = backlog d s"
    and get_elsewhere: "ready c s \<Longrightarrow> ready d s \<Longrightarrow> d \<noteq> c \<Longrightarrow>
      ready d (snd (get c r s)) \<and> waiting d (snd (get c r s)) = waiting d s
      \<and> backlog d (snd (get c r s)) = backlog d s"
begin

abbreviation consistent :: "'c \<Rightarrow> 's \<Rightarrow> bool" where
  "consistent c s \<equiv> ready c s \<and> (waiting c s = [] \<or> backlog c s = [])"

abbreviation view :: "'c \<Rightarrow> 's \<Rightarrow> 'r list \<times> 'p list" where
  "view c s \<equiv> (waiting c s, backlog c s)"

lemma put_step:
  assumes "\<forall>d. consistent d s" and "valid c p"
  shows "spec_put p (view c s) = (fst (put c p s), view c (snd (put c p s)))"
    and "\<forall>d. consistent d (snd (put c p s))"
    and "d \<noteq> c \<Longrightarrow> view d (snd (put c p s)) = view d s"
proof -
  have c: "ready c s" "waiting c s = [] \<or> backlog c s = []"
    using assms(1) by auto
  note laws = rendezvous.put_hands_over [OF each c(1) assms(2)]
    rendezvous.put_queues [OF each c(1) assms(2)]
  show "spec_put p (view c s) = (fst (put c p s), view c (snd (put c p s)))"
    using rendezvous.refines_spec_put [OF each c(1) assms(2) c(2)] .
  have "consistent c (snd (put c p s))"
  proof (cases "waiting c s")
    case Nil
    with laws(2) show ?thesis by auto
  next
    case (Cons r rs)
    with laws(1) [OF Cons] c(2) show ?thesis by auto
  qed
  then show "\<forall>d. consistent d (snd (put c p s))"
    using put_elsewhere [OF c(1)] assms(1) by metis
  show "view d (snd (put c p s)) = view d s" if "d \<noteq> c"
    using put_elsewhere [OF c(1) _ that] assms(1) by simp
qed

lemma get_step:
  assumes "\<forall>d. consistent d s"
  shows "spec_get r (view c s) = (fst (get c r s), view c (snd (get c r s)))"
    and "\<forall>d. consistent d (snd (get c r s))"
    and "d \<noteq> c \<Longrightarrow> view d (snd (get c r s)) = view d s"
proof -
  have c: "ready c s" "waiting c s = [] \<or> backlog c s = []"
    using assms(1) by auto
  note laws = rendezvous.get_takes [OF each c(1)] rendezvous.get_parks [OF each c(1)]
  show "spec_get r (view c s) = (fst (get c r s), view c (snd (get c r s)))"
    using rendezvous.refines_spec_get [OF each c] .
  have "consistent c (snd (get c r s))"
  proof (cases "backlog c s")
    case Nil
    with laws(2) [OF Nil, of r] show ?thesis by auto
  next
    case (Cons p ps)
    with laws(1) [OF _ Cons, of r] c(2) show ?thesis by auto
  qed
  then show "\<forall>d. consistent d (snd (get c r s))"
    using get_elsewhere [OF c(1)] assms(1) by metis
  show "view d (snd (get c r s)) = view d s" if "d \<noteq> c"
    using get_elsewhere [OF c(1) _ that] assms(1) by simp
qed

text \<open>Seen through one channel, a mixed history is that channel's own history.\<close>

lemma mixed_view:
  assumes "\<forall>d. consistent d s" and "\<forall>d. list_all (valid d) (puts (of_channel d ops))"
    and "mixed_run put get ops s = (ms, s')"
  shows "rv_run spec_put spec_get (of_channel c ops) (view c s) = (of_channel c ms, view c s')"
  using assms
proof (induction ops arbitrary: s ms)
  case (Cons x ops)
  obtain d y where x: "x = (d, y)" by (cases x)
  have valid: "\<forall>d. list_all (valid d) (puts (of_channel d ops))"
  proof
    fix e
    show "list_all (valid e) (puts (of_channel e ops))"
      using Cons.prems(2) [rule_format, of e] by (cases y) (auto simp: x split: if_splits)
  qed
  show ?case
  proof (cases y)
    case (Put p)
    have "valid d p"
      using Cons.prems(2) [rule_format, of d] by (simp add: x Put)
    note step = put_step [OF Cons.prems(1) this]
    obtain ms1 where run: "mixed_run put get ops (snd (put d p s)) = (ms1, s')"
        "ms = (case fst (put d p s) of None \<Rightarrow> ms1 | Some r \<Rightarrow> (d, r, p) # ms1)"
      using Cons.prems(3) by (auto simp: x Put split: prod.splits)
    note IH = Cons.IH [OF step(2) valid run(1)]
    show ?thesis
      using IH step(1) step(3) [of c] by (cases "d = c") (auto simp: x Put run(2) split: option.split)
  next
    case (Get r)
    note step = get_step [OF Cons.prems(1), where c = d and r = r]
    obtain ms1 where run: "mixed_run put get ops (snd (get d r s)) = (ms1, s')"
        "ms = (case fst (get d r s) of None \<Rightarrow> ms1 | Some p \<Rightarrow> (d, r, p) # ms1)"
      using Cons.prems(3) by (auto simp: x Get split: prod.splits)
    note IH = Cons.IH [OF step(2) valid run(1)]
    show ?thesis
      using IH step(1) step(3) [of c] by (cases "d = c") (auto simp: x Get run(2) split: option.split)
  qed
qed simp

lemma mixed_pairs:
  assumes "\<forall>d. consistent d s" and "\<forall>d. list_all (valid d) (puts (of_channel d ops))"
    and "mixed_run put get ops s = (ms, s')"
  shows "of_channel c ms =
      zip (waiting c s @ gets (of_channel c ops)) (backlog c s @ puts (of_channel c ops))
    \<and> waiting c s' = drop (length (backlog c s @ puts (of_channel c ops)))
        (waiting c s @ gets (of_channel c ops))
    \<and> backlog c s' = drop (length (waiting c s @ gets (of_channel c ops)))
        (backlog c s @ puts (of_channel c ops))"
  using spec.run_pairs_from [OF _ _ _ mixed_view [OF assms, of c]] assms(1)
  by (simp add: list_all_iff)

end

section \<open>The driver's three channels\<close>

datatype channel = To_User | Events | Acl_Data

primrec chan_put ::
  "'w wdf \<Rightarrow> channel \<Rightarrow> WINVHCI_PACKET \<Rightarrow> 'w sys \<Rightarrow> WDFREQUEST option \<times> 'w sys" where
  "chan_put W To_User = user_put W"
| "chan_put W Events = stack_put W WINVHCI_H4_EVENT"
| "chan_put W Acl_Data = stack_put W WINVHCI_H4_ACL"

primrec chan_get ::
  "'w wdf \<Rightarrow> channel \<Rightarrow> WDFREQUEST \<Rightarrow> 'w sys \<Rightarrow> WINVHCI_PACKET option \<times> 'w sys" where
  "chan_get W To_User = user_get W"
| "chan_get W Events = stack_get W WINVHCI_H4_EVENT"
| "chan_get W Acl_Data = stack_get W WINVHCI_H4_ACL"

primrec chan_waiting ::
  "('w \<Rightarrow> WDFQUEUE \<Rightarrow> WDFREQUEST list) \<Rightarrow> channel \<Rightarrow> 'w sys \<Rightarrow> WDFREQUEST list" where
  "chan_waiting contents To_User = user_waiting contents"
| "chan_waiting contents Events = stack_waiting contents WINVHCI_H4_EVENT"
| "chan_waiting contents Acl_Data = stack_waiting contents WINVHCI_H4_ACL"

primrec chan_backlog :: "channel \<Rightarrow> 'w sys \<Rightarrow> WINVHCI_PACKET list" where
  "chan_backlog To_User = user_backlog"
| "chan_backlog Events = stack_backlog WINVHCI_H4_EVENT"
| "chan_backlog Acl_Data = stack_backlog WINVHCI_H4_ACL"

primrec chan_valid :: "channel \<Rightarrow> WINVHCI_PACKET \<Rightarrow> bool" where
  "chan_valid To_User = pkt_whole"
| "chan_valid Events = stack_valid WINVHCI_H4_EVENT"
| "chan_valid Acl_Data = stack_valid WINVHCI_H4_ACL"

definition chan_ready :: "channel \<Rightarrow> 'w sys \<Rightarrow> bool" where
  "chan_ready c s \<longleftrightarrow> queues_distinct (fdo s)
     \<and> (case c of To_User \<Rightarrow> user_ready s | Events \<Rightarrow> stack_ready WINVHCI_H4_EVENT s
        | Acl_Data \<Rightarrow> stack_ready WINVHCI_H4_ACL s)"

lemmas chan_view_defs =
  user_waiting_def user_backlog_def user_ready_def stack_waiting_def stack_backlog_def
  stack_ready_def chan_ready_def queues_distinct_def stack_channel_defs

context wdf_reliable
begin

lemma chan_distinct:
  "queues_distinct (fdo (snd (chan_put W c p s))) = queues_distinct (fdo s)"
  "queues_distinct (fdo (snd (chan_get W c r s))) = queues_distinct (fdo s)"
  using QueueToUser_handles [where s = s] EvtIoRead_handles [where s = s]
    DeliverToStack_handles [where s = s] TakeOrParkForStack_handles [where s = s]
  by (cases c; simp add: user_put_def user_get_eq stack_put_eq stack_get_eq queues_of_def
      queues_distinct_def)+

lemma chan_rendezvous:
  "rendezvous (chan_put W c) (chan_get W c) (chan_waiting contents c) (chan_backlog c)
     (chan_ready c) (chan_valid c)"
proof -
  have distinct: "queues_distinct (fdo s) \<Longrightarrow> queues_distinct (fdo (snd (chan_put W c p s)))"
    "queues_distinct (fdo s) \<Longrightarrow> queues_distinct (fdo (snd (chan_get W c r s)))" for p r s
    by (simp_all add: chan_distinct)
  show ?thesis
    using user.with_invariant [where J = "\<lambda>s. queues_distinct (fdo s)"]
      stack.with_invariant [where J = "\<lambda>s. queues_distinct (fdo s)" and t = WINVHCI_H4_EVENT]
      stack.with_invariant [where J = "\<lambda>s. queues_distinct (fdo s)" and t = WINVHCI_H4_ACL]
      distinct
    by (cases c) (simp_all add: chan_ready_def [abs_def])
qed

text \<open>An operation of one channel leaves the other two as they are.\<close>

lemma user_elsewhere:
  assumes "queues_distinct (fdo s)" and "d \<noteq> To_User" and "chan_ready d s"
  shows "chan_ready d (snd (user_put W p s))
      \<and> chan_waiting contents d (snd (user_put W p s)) = chan_waiting contents d s
      \<and> chan_backlog d (snd (user_put W p s)) = chan_backlog d s"
    and "chan_ready d (snd (user_get W r s))
      \<and> chan_waiting contents d (snd (user_get W r s)) = chan_waiting contents d s
      \<and> chan_backlog d (snd (user_get W r s)) = chan_backlog d s"
  subgoal
    using assms
    by (cases rule: QueueToUser_locked_cases
        [where s = s and t = "pkt_Type p" and b = "pkt_Data p" and n = "pkt_Length p"]; cases d)
      (auto simp: user_put_def chan_view_defs)
  subgoal
    using assms
    by (cases rule: EvtIoRead_locked_cases [where s = s and q = r]; cases d)
      (auto simp: user_get_eq chan_view_defs)
  done

lemma stack_elsewhere:
  assumes "queues_distinct (fdo s)" and "chan_ready d s"
    and "d \<noteq> (if t = WINVHCI_H4_ACL then Acl_Data else Events)"
  shows "chan_ready d (snd (stack_put W t p s))
      \<and> chan_waiting contents d (snd (stack_put W t p s)) = chan_waiting contents d s
      \<and> chan_backlog d (snd (stack_put W t p s)) = chan_backlog d s"
    and "chan_ready d (snd (stack_get W t r s))
      \<and> chan_waiting contents d (snd (stack_get W t r s)) = chan_waiting contents d s
      \<and> chan_backlog d (snd (stack_get W t r s)) = chan_backlog d s"
  subgoal
    using assms
    by (cases rule: DeliverToStack_locked_cases
        [where s = s and t = t and b = "pkt_Data p" and n = "pkt_Length p"]; cases d)
      (auto simp: stack_put_eq chan_view_defs queue_to_stack_ctx_def Let_def split: if_splits)
  subgoal
    using assms
    by (cases rule: TakeOrParkForStack_cases
        [where s = s and t = t and q = r and qu = "stack_queue t (fdo s)"]; cases d)
      (auto simp: stack_get_eq chan_view_defs count_pended_read_def split: if_splits)
  done

lemma chan_elsewhere:
  assumes "chan_ready c s" and "chan_ready d s" and "d \<noteq> c"
  shows "chan_ready d (snd (chan_put W c p s))
      \<and> chan_waiting contents d (snd (chan_put W c p s)) = chan_waiting contents d s
      \<and> chan_backlog d (snd (chan_put W c p s)) = chan_backlog d s"
    and "chan_ready d (snd (chan_get W c r s))
      \<and> chan_waiting contents d (snd (chan_get W c r s)) = chan_waiting contents d s
      \<and> chan_backlog d (snd (chan_get W c r s)) = chan_backlog d s"
proof -
  have "queues_distinct (fdo s)"
    using assms(1) by (simp add: chan_ready_def)
  note user = user_elsewhere [OF this _ assms(2)] and stack = stack_elsewhere [OF this assms(2)]
  show "chan_ready d (snd (chan_put W c p s))
      \<and> chan_waiting contents d (snd (chan_put W c p s)) = chan_waiting contents d s
      \<and> chan_backlog d (snd (chan_put W c p s)) = chan_backlog d s"
    using assms(3) user(1) [of p] stack(1) [where p = p] by (cases c) simp_all
  show "chan_ready d (snd (chan_get W c r s))
      \<and> chan_waiting contents d (snd (chan_get W c r s)) = chan_waiting contents d s
      \<and> chan_backlog d (snd (chan_get W c r s)) = chan_backlog d s"
    using assms(3) user(2) [of r] stack(2) [where r = r] by (cases c) simp_all
qed

end

sublocale wdf_reliable \<subseteq> channels: rendezvous_family "chan_put W" "chan_get W"
  "chan_waiting contents" chan_backlog chan_ready chan_valid
  by (intro rendezvous_family.intro chan_rendezvous chan_elsewhere)

context wdf_reliable
begin

lemmas channels_mix = channels.mixed_pairs

end

end
