(* ===== verification/Channel_Properties.thy ===== *)
theory Channel_Properties
  imports Reference_Framework Channel_Mix
begin

text \<open>
  The properties of the data path: what holds in every reachable state, what a client of a channel
  is promised, and what happens to each request and each packet.
\<close>

section \<open>Every interleaving\<close>

text \<open>
  C1. In every state reachable from a consistent one, by any number of handlers interleaved region
  by region, with reads cancelled and buffers changed in between: reads and packets never wait at
  the same time on a channel; each counter is the length of its list and never above its peak; every
  queued packet is whole, of the type of its list and within its limit; the next radio id follows
  the current one; and the lock is taken when free, released when held, with no completion, purge or
  child-list call made under it.
\<close>

theorem reachable_states_consistent:
  assumes "wdf_creation W contents live" and "system_inv contents qs s0"
    and "conc_reach (spawns W) (env_step contents) s0 (s, ts)"
  shows "system_inv contents qs s"
  using assms(1,3,2) by (rule wdf_creation.reachable_inv)

text \<open>A read is dispatched, gets the lock and is parked.\<close>

lemma ref_read_reachable:
  "conc_reach (spawns (ref_wdf ref_env0)) (env_step ref_contents) ref_client
     (exec (WinVhciEvtIoRead (ref_wdf ref_env0) 9 1026) ref_client, [Return ()])"
  using conc_reach_exec [OF conc_reach.start,
    of "spawns (ref_wdf ref_env0)" _ "WinVhciEvtIoRead (ref_wdf ref_env0) 9 1026"]
  by (simp add: spawns.intros)

lemma reachable_states_consistent_witness:
  "system_inv ref_contents (5, 2, 3)
     (exec (WinVhciEvtIoRead (ref_wdf ref_env0) 9 1026) ref_client)"
  by (rule reachable_states_consistent [OF ref.wdf_creation_axioms _ ref_read_reachable]) simp

text \<open>
  C27. Device creation that succeeds establishes that consistency: the three manual queues are
  distinct and empty, the backlogs and counters are zero, no radio is present, no client has the
  handle, and no packet is allocated.
\<close>

theorem device_add_establishes_consistency:
  assumes "wdf_creation W contents live"
    and "NT_SUCCESS (result (WinVhciEvtDeviceAdd W) s)"
    and "lock_discipline (calls s)"
  defines "s' \<equiv> exec (WinVhciEvtDeviceAdd W) s"
  shows "system_inv contents (queues_of (fdo s')) s'
    \<and> (\<forall>q \<in> {UserReadQueue (fdo s'), ReadEventQueue (fdo s'), ReadDataQueue (fdo s')}.
         contents (fw s') q = [])
    \<and> Owner (fdo s') = NULL_HANDLE \<and> \<not> RadioPresent (fdo s') \<and> \<not> RadioStarted (fdo s')
    \<and> stats_counters (fdo s') = replicate 11 0
    \<and> queued_packets (fdo s') = 0 \<and> pool s' = pool s"
proof -
  from wdf_creation.DeviceAdd_success [OF assms(1,2)] obtain d lock n bq eq dq uq cs where
    c: "fdo s' = zero_fdo_context\<lparr>Device := d, Lock := lock, FailAllocOneIn := n,
       BthxIoQueue := bq, ReadEventQueue := eq, ReadDataQueue := dq, NextRadioId := 1,
       UserReadQueue := uq\<rparr>" and
    q: "distinct [uq, eq, dq]" "\<And>q. q \<in> {uq, eq, dq} \<Longrightarrow> contents (fw s') q = []" and
    r: "calls s' = calls s @ cs" "lock_discipline cs" "pool s' = pool s"
    unfolding s'_def by metis
  have "system_inv contents (queues_of (fdo s')) s'"
    unfolding s'_def by (rule wdf_creation.DeviceAdd_inv [OF assms(1-3)])
  with q r show ?thesis
    by (simp add: c zero_fdo_context_def stats_counters_def queued_packets_def numeral_eq_Suc)
qed

lemma device_add_establishes_consistency_witness:
  "system_inv ref_contents (queues_of (fdo ref_ready)) ref_ready"
proof -
  have "result (WinVhciEvtDeviceAdd (ref_wdf ref_env0)) ref_blank = 0"
    by (simp add: ref_device_add_defs)
  then show ?thesis
    using device_add_establishes_consistency [OF ref.wdf_creation_axioms, of ref_env0 ref_blank]
    by (simp add: ref_ready_def [symmetric])
qed

section \<open>What a channel promises its clients\<close>

text \<open>
  C7. Stack to userspace, first in first out and nothing lost: with a client's handle open, no
  failure injected, the counter agreeing with its list, and on a framework that is not short of
  anything, for any history of packets and reads in any order, the \<open>i\<close>-th read (counting those
  already waiting) is matched with the \<open>i\<close>-th packet (counting those already queued), and the
  surplus of either side is what is left waiting, in order.
\<close>

theorem user_channel_pairs_in_order:
  assumes "wdf_reliable W contents"
    and "user_ready s" and "list_all pkt_whole (puts ops)"
    and "user_waiting contents s = [] \<or> user_backlog s = []"
    and "rv_run (user_put W) (user_get W) ops s = (matches, s')"
  shows "matches = zip (user_waiting contents s @ gets ops) (user_backlog s @ puts ops)
    \<and> user_waiting contents s' =
        drop (length (user_backlog s @ puts ops)) (user_waiting contents s @ gets ops)
    \<and> user_backlog s' =
        drop (length (user_waiting contents s @ gets ops)) (user_backlog s @ puts ops)"
  using wdf_reliable.user_pairs [OF assms(1,2,3,4,5)] by blast

lemma user_channel_pairs_in_order_witness:
  "\<exists>matches s'.
     rv_run (user_put (ref_wdf ref_env0)) (user_get (ref_wdf ref_env0))
       [Get 11, Put \<lparr>pkt_Type = 4, pkt_Length = 1, pkt_Data = [9]\<rparr>, Get 12] ref_client
       = (matches, s')
     \<and> matches = [(11, \<lparr>pkt_Type = 4, pkt_Length = 1, pkt_Data = [9]\<rparr>)]
     \<and> user_waiting ref_contents s' = [12]"
proof -
  obtain matches s' where r: "rv_run (user_put (ref_wdf ref_env0)) (user_get (ref_wdf ref_env0))
       [Get 11, Put \<lparr>pkt_Type = 4, pkt_Length = 1, pkt_Data = [9]\<rparr>, Get 12] ref_client
       = (matches, s')"
    by (metis surj_pair)
  have "user_ready ref_client" "user_waiting ref_contents ref_client = []"
    "user_backlog ref_client = []"
    by (simp_all add: user_ready_def user_waiting_def user_backlog_def)
  with r show ?thesis
    using user_channel_pairs_in_order [OF ref.wdf_reliable_axioms _ _ _ r]
    by (simp add: pkt_whole_def)
qed

text \<open>
  C6. Userspace to stack, whatever the other channels do: in any history that mixes packets and
  reads of all three channels (to userspace, events, ACL data) in any order, on each channel the
  \<open>i\<close>-th read of that channel is matched with its \<open>i\<close>-th packet, counting those already there, and
  the surplus of either side is what is left waiting, in order: events go to event reads and ACL data
  to data reads, nothing crosses over and nothing is lost. This is for a framework that is not short
  of anything, with no failure injected, a client's handle open, the three queues distinct, and each
  channel's counter agreeing with its list and one of its sides empty at the start.
\<close>

theorem stack_channel_pairs_in_order:
  assumes "wdf_reliable W contents"
    and "\<forall>d. chan_ready d s" and "\<forall>d. list_all (chan_valid d) (puts (of_channel d ops))"
    and "\<forall>d. chan_waiting contents d s = [] \<or> chan_backlog d s = []"
    and "mixed_run (chan_put W) (chan_get W) ops s = (matches, s')"
  shows "of_channel c matches =
      zip (chan_waiting contents c s @ gets (of_channel c ops))
        (chan_backlog c s @ puts (of_channel c ops))
    \<and> chan_waiting contents c s' = drop (length (chan_backlog c s @ puts (of_channel c ops)))
        (chan_waiting contents c s @ gets (of_channel c ops))
    \<and> chan_backlog c s' = drop (length (chan_waiting contents c s @ gets (of_channel c ops)))
        (chan_backlog c s @ puts (of_channel c ops))"
  using wdf_reliable.channels_mix [OF assms(1) _ assms(3,5)] assms(2,4) by blast

text \<open>An event and an ACL packet arrive, a data read is served, an event read and a user read come.\<close>

lemma stack_channel_pairs_in_order_witness:
  "\<exists>matches s'.
     mixed_run (chan_put (ref_wdf ref_env0)) (chan_get (ref_wdf ref_env0))
       [(Events, Put \<lparr>pkt_Type = 4, pkt_Length = 1, pkt_Data = [9]\<rparr>), (To_User, Get 13),
        (Acl_Data, Put \<lparr>pkt_Type = 2, pkt_Length = 1, pkt_Data = [7]\<rparr>),
        (Acl_Data, Put \<lparr>pkt_Type = 2, pkt_Length = 1, pkt_Data = [8]\<rparr>), (Acl_Data, Get 11)]
       ref_radio = (matches, s')
     \<and> of_channel Acl_Data matches = [(11, \<lparr>pkt_Type = 2, pkt_Length = 1, pkt_Data = [7]\<rparr>)]
     \<and> stack_backlog 2 s' = [\<lparr>pkt_Type = 2, pkt_Length = 1, pkt_Data = [8]\<rparr>]"
proof -
  let ?ops = "[(Events, Put \<lparr>pkt_Type = 4, pkt_Length = 1, pkt_Data = [9]\<rparr>), (To_User, Get (13 :: WDFREQUEST)),
        (Acl_Data, Put \<lparr>pkt_Type = 2, pkt_Length = 1, pkt_Data = [7]\<rparr>),
        (Acl_Data, Put \<lparr>pkt_Type = 2, pkt_Length = 1, pkt_Data = [8]\<rparr>), (Acl_Data, Get 11)]"
  obtain matches s' where r:
      "mixed_run (chan_put (ref_wdf ref_env0)) (chan_get (ref_wdf ref_env0)) ?ops ref_radio
       = (matches, s')"
    by (metis surj_pair)
  have ready: "chan_ready d ref_radio" for d
    by (cases d) (simp_all add: chan_view_defs)
  have valid: "list_all (chan_valid d) (puts (of_channel d ?ops))" for d
    by (cases d) (simp_all add: stack_valid_def pkt_whole_def h4_types)
  have empty: "chan_waiting ref_contents d ref_radio = []" "chan_backlog d ref_radio = []" for d
    by (cases d; simp add: chan_view_defs)+
  have "of_channel Acl_Data matches = [(11, \<lparr>pkt_Type = 2, pkt_Length = 1, pkt_Data = [7]\<rparr>)]"
    "chan_backlog Acl_Data s' = [\<lparr>pkt_Type = 2, pkt_Length = 1, pkt_Data = [8]\<rparr>]"
    using stack_channel_pairs_in_order [OF ref.wdf_reliable_axioms _ _ _ r, of Acl_Data] ready valid
    by (simp_all add: empty del: chan_waiting.simps chan_backlog.simps)
  with r show ?thesis by (simp add: h4_types)
qed

text \<open>
  C5. Each of the three channels refines the two-list specification of a rendezvous, operation by
  operation: seen through its waiting reads and its backlog, the locked region that delivers a packet
  answers and changes the state as the specification's put does, and the one that serves a read as
  its get does. The conditions are those without which packets are dropped or reads refused, and the
  channel's own consistency: the framework is not short of anything, no failure is injected, the
  packet is whole and of the channel's type, each counter agrees with its list and one side of the
  channel is empty; towards userspace, a client's handle is open.
\<close>

theorem channels_refine_the_rendezvous:
  assumes "wdf_reliable W contents"
    and "user_ready s" and "pkt_whole p" and "user_waiting contents s = [] \<or> user_backlog s = []"
    and "stack_ready t s" and "stack_valid t p'"
    and "stack_waiting contents t s = [] \<or> stack_backlog t s = []"
  defines "U \<equiv> \<lambda>s. (user_waiting contents s, user_backlog s)"
    and "S \<equiv> \<lambda>s. (stack_waiting contents t s, stack_backlog t s)"
  shows "spec_put p (U s) = map_prod id U (user_put W p s)
    \<and> spec_get r (U s) = map_prod id U (user_get W r s)
    \<and> spec_put p' (S s) = map_prod id S (stack_put W t p' s)
    \<and> spec_get r (S s) = map_prod id S (stack_get W t r s)"
  using wdf_reliable.user_refines_put [OF assms(1-4)]
    wdf_reliable.user_refines_get [OF assms(1,2,4), of r]
    wdf_reliable.stack_refines_put [OF assms(1,5-7)]
    wdf_reliable.stack_refines_get [OF assms(1,5,7), of r]
  by (simp add: U_def S_def map_prod_def split_def)

lemma channels_refine_the_rendezvous_witness:
  "fst (stack_put (ref_wdf ref_env0) 2 \<lparr>pkt_Type = 2, pkt_Length = 1, pkt_Data = [7]\<rparr>
     (ref_park 6 3 ref_radio)) = Some 6"
proof -
  let ?p = "\<lparr>pkt_Type = 2, pkt_Length = 1, pkt_Data = [7]\<rparr>" and ?s = "ref_park 6 3 ref_radio"
  have "user_ready ?s" "pkt_whole ?p" "user_waiting ref_contents ?s = [] \<or> user_backlog ?s = []"
    "stack_ready 2 ?s" "stack_valid 2 ?p"
    "stack_waiting ref_contents 2 ?s = [] \<or> stack_backlog 2 ?s = []"
    by (simp_all add: user_ready_def pkt_whole_def user_waiting_def user_backlog_def stack_ready_def
        stack_valid_def stack_waiting_def stack_backlog_def stack_channel_defs)
  from channels_refine_the_rendezvous [OF ref.wdf_reliable_axioms this, of ref_env0]
  have "spec_put ?p (stack_waiting ref_contents 2 ?s, stack_backlog 2 ?s)
      = map_prod id (\<lambda>s. (stack_waiting ref_contents 2 s, stack_backlog 2 s))
          (stack_put (ref_wdf ref_env0) 2 ?p ?s)"
    by blast
  moreover have "stack_waiting ref_contents 2 ?s = [6]"
    by (simp add: stack_waiting_def stack_queue_def h4_types)
  ultimately show ?thesis
    by (cases "stack_put (ref_wdf ref_env0) 2 ?p ?s") simp
qed

section \<open>Conservation\<close>

text \<open>
  C2. No packet leaks: however handlers are interleaved, once they have all returned, the packet
  allocations still out are exactly the packets on the three backlogs.
\<close>

theorem no_packet_leaks:
  assumes "wdf_creation W contents live" and "system_inv contents qs s0"
    and "pool s0 = queued_packets (fdo s0)"
    and "conc_reach (spawns W) (env_step contents) s0 (s, ts)"
    and "\<forall>p \<in> set ts. \<exists>a. p = Return a"
  shows "pool s = queued_packets (fdo s)"
  using wdf_creation.packets_balanced [OF assms(1,4,2,5)] assms(3)
  by (simp add: pool_balance_def)

lemma no_packet_leaks_witness:
  "pool (exec (WinVhciEvtIoRead (ref_wdf ref_env0) 9 1026) ref_client)
     = queued_packets (fdo (exec (WinVhciEvtIoRead (ref_wdf ref_env0) 9 1026) ref_client))"
  by (rule no_packet_leaks [OF ref.wdf_creation_axioms ref_inv(2) _ ref_read_reachable])
    (simp_all add: queued_packets_def)

text \<open>
  C3. Every request is settled exactly once: each handler that is given a request leaves it
  completed once, parked once on one of the three manual queues, or (the PDO's) passed on once to the
  parent's queue, completes every read it takes off a queue, and touches no other request; region by region, whatever runs in between, and so for a
  run on its own.
\<close>

theorem requests_settled_once:
  assumes "wdf_queues W contents" and "system_inv contents qs s"
    and "p \<in> {WinVhciEvtIoRead W q len, WinVhciEvtIoWrite W q len,
              WinVhciEvtIoDeviceControl W q outLen inLen code,
              WinVhciEvtDeviceFileCreate q f,
              WinVhciEvtBthxInternalDeviceControl W q outLen inLen ioctl,
              WinVhciEvtBthxDeviceControl W q outLen inLen ioctl,
              WinVhciPdoEvtInternalDeviceControl W q outLen inLen,
              WinVhciPdoEvtDeviceControl W q outLen inLen}"
  shows "settles (system_inv contents qs) (settled contents) p {#q#}
    \<and> settled contents (exec p s) = settled contents s + {#q#}"
  using wdf_queues.handlers_settle [OF assms(1,3), of qs]
    settles_exec [of "system_inv contents qs" "settled contents" p "{#q#}" s, OF _ assms(2)]
  by blast

lemma requests_settled_once_witness:
  "settled ref_contents (exec (WinVhciEvtIoRead (ref_wdf ref_env0) 9 1026) ref_client) = {#9#}"
proof -
  have "settled ref_contents ref_client = {#}"
    by (simp add: settled_defs)
  then show ?thesis
    using requests_settled_once [OF ref.wdf_queues_axioms ref_inv(2) insertI1] by simp
qed

end
