(* ===== verification/Handler_Properties.thy ===== *)
theory Handler_Properties
  imports Channel_Properties
begin

text \<open>
  What the handlers do to buffers, requests and lists: the reads and writes of both sides of the
  data path, branch by branch, and the bytes they leave in memory.
\<close>

section \<open>Filling buffers\<close>

lemma fill_reader_mem:
  "length b = unat n \<Longrightarrow> mem (fill_reader buf t b n s) = store_bytes (mem s) buf (t # b)"
  by (cases "n = 0") (simp_all add: fill_reader_def Let_def)

lemma fill_reader_frame [simp]:
  "fdo (fill_reader buf t b n s) = fdo s" "fw (fill_reader buf t b n s) = fw s"
  "calls (fill_reader buf t b n s) = calls s" "pool (fill_reader buf t b n s) = pool s"
  by (simp_all add: fill_reader_def)

lemma ulong_bound: "unat (n :: ULONG) < 2 ^ 32"
  using unsigned_less [of n] by simp

lemma room_for_packet:
  "(len :: SIZE_T) < ucast (n :: ULONG) + 1 \<longleftrightarrow> unat len < unat n + 1"
  "ucast (n :: ULONG) + 1 \<le> (len :: SIZE_T) \<longleftrightarrow> unat n + 1 \<le> unat len"
proof -
  have "unat (ucast n + 1 :: SIZE_T) = unat n + 1"
    using ulong_bound [of n]
    by (simp add: unat_word_ariths unsigned_ucast_eq take_bit_nat_eq_self)
  then show "len < ucast n + 1 \<longleftrightarrow> unat len < unat n + 1"
    "ucast n + 1 \<le> len \<longleftrightarrow> unat n + 1 \<le> unat len"
    by (simp_all add: word_less_nat_alt word_le_nat_alt)
qed

text \<open>The type byte and body are in the buffer, and nothing around them has changed.\<close>

definition delivered :: "memory \<Rightarrow> memory \<Rightarrow> PVOID \<Rightarrow> UCHAR list \<Rightarrow> bool" where
  "delivered m m' buf bs \<longleftrightarrow>
     load_bytes m' buf (length bs) = bs
     \<and> (\<forall>p. \<not> in_range buf (length bs) p \<longrightarrow> m' p = m p)"

lemma delivered_store:
  "length bs \<le> 2 ^ 64 \<Longrightarrow> delivered m (store_bytes m buf bs) buf bs"
  by (simp add: delivered_def load_store_same store_bytes_outside)

lemma delivered_fill_reader:
  assumes "length b = unat n"
  shows "delivered (mem s) (mem (fill_reader buf t b n s)) buf (t # b)"
proof -
  have "length (t # b) \<le> 2 ^ 64"
    using assms ulong_bound [of n] by simp
  then show ?thesis
    unfolding fill_reader_mem [OF assms] by (rule delivered_store)
qed

section \<open>Stack to userspace\<close>

context wdf_queues
begin

lemma QueueToUser_hands_over:
  assumes "Owner (fdo s) \<noteq> NULL_HANDLE" and "HostToCtrlCount (fdo s) = 0"
    and "contents (fw s) (UserReadQueue (fdo s)) = q # rs"
  obtains s1 where "WinVhciQueueToUser_locked W t b n s = (Some q, s1)"
    "contents (fw s1) = (contents (fw s))(UserReadQueue (fdo s) := rs)"
    "fdo s1 = fdo s" "pool s1 = pool s" "mem s1 = mem s"
    "calls s1 = calls s @ [SpinLockAcquire, SpinLockRelease]"
proof (cases rule: QueueToUser_locked_cases [where s = s and t = t and b = b and n = n])
  case (handed q' rs')
  with assms(3) show ?thesis
    by (intro that [of "snd (WinVhciQueueToUser_locked W t b n s)"]) (simp_all add: prod_eq_iff)
qed (use assms in simp_all)

end

text \<open>
  C19. A packet for userspace when a client is reading: the oldest waiting read is taken and
  completed once, after the lock is released. If its buffer holds the packet it gets the type byte
  and the body, exactly that many bytes, and the length; if not, it is completed as too small and
  nothing is written. The device context does not change.
\<close>

theorem waiting_reader_gets_the_packet:
  fixes t :: UCHAR
  assumes "wdf_queues W contents" and "system_inv contents qs s"
    and "Owner (fdo s) \<noteq> NULL_HANDLE" and "user_waiting contents s = q # rs"
    and "length b = unat n"
    and "WdfRequestRetrieveOutputBuffer W q 1 = (st, buf, len)"
  defines "s' \<equiv> exec (WinVhciQueueToUser W t b n) s"
  shows "user_waiting contents s' = rs \<and> fdo s' = fdo s \<and> pool s' = pool s \<and>
    (if NT_SUCCESS st \<and> unat n + 1 \<le> unat len then
       delivered (mem s) (mem s') buf (t # b)
       \<and> calls s' = calls s @ [SpinLockAcquire, SpinLockRelease,
                               RequestComplete q STATUS_SUCCESS (ucast n + 1)]
     else
       mem s' = mem s
       \<and> calls s' = calls s @ [SpinLockAcquire, SpinLockRelease,
                               RequestComplete q STATUS_BUFFER_TOO_SMALL 0])"
proof -
  have waiting: "contents (fw s) (UserReadQueue (fdo s)) = q # rs"
    using assms(4) by (simp add: user_waiting_def)
  then have "HostToCtrlCount (fdo s) = 0"
    using assms(2) by (auto simp: system_inv_def driver_inv_def user_ok_def channel_ok_def)
  with assms(3) obtain s1 where s1: "WinVhciQueueToUser_locked W t b n s = (Some q, s1)"
    "contents (fw s1) = (contents (fw s))(UserReadQueue (fdo s) := rs)"
    "fdo s1 = fdo s" "pool s1 = pool s" "mem s1 = mem s"
    "calls s1 = calls s @ [SpinLockAcquire, SpinLockRelease]"
    using waiting by (rule wdf_queues.QueueToUser_hands_over [OF assms(1)])
  then have s': "s' = WinVhciQueueToUser_complete W q t b n s1"
    by (simp add: s'_def WinVhciQueueToUser_def)
  show ?thesis
    using s1(2-) delivered_fill_reader [OF assms(5), of s1 buf t]
    unfolding s'
    by (simp add: WinVhciQueueToUser_complete_def assms(6) user_waiting_def room_for_packet)
qed

definition ref_reader_env :: ref_env where
  "ref_reader_env = ref_env0\<lparr>env_out := (\<lambda>r. (STATUS_SUCCESS, 0x1000, 1026))\<rparr>"

lemma waiting_reader_gets_the_packet_witness:
  "delivered (\<lambda>_. 0) (mem (exec (WinVhciQueueToUser (ref_wdf ref_reader_env) 4 [0x0E, 0] 2)
     (ref_park 9 5 ref_client))) 0x1000 [4, 0x0E, 0]"
proof -
  have inv: "system_inv ref_contents (5, 2, 3) (ref_park 9 5 ref_client)"
    by (rule ref_inv_parked) simp_all
  have waiting: "user_waiting ref_contents (ref_park 9 5 ref_client) = 9 # []"
    by (simp add: user_waiting_def)
  have buffer: "WdfRequestRetrieveOutputBuffer (ref_wdf ref_reader_env) 9 1
      = (STATUS_SUCCESS, 0x1000, 1026)"
    by (simp add: ref_wdf_def ref_reader_env_def)
  show ?thesis
    using waiting_reader_gets_the_packet [OF ref.wdf_queues_axioms inv _ waiting _ buffer,
        where b = "[0x0E, 0]" and n = 2 and t = 4]
    by simp
qed

text \<open>
  The allocation for a packet fails: a failure is injected, or the pool is exhausted. When the
  backlog is empty the framework has been asked for a waiting read first.
\<close>

definition user_allocation_fails :: "'w wdf \<Rightarrow> ULONG \<Rightarrow> 'w sys \<Rightarrow> bool" where
  "user_allocation_fails W n s \<longleftrightarrow>
     fst (WinVhciTestFailAlloc (fdo s))
     \<or> \<not> fst (ExAllocatePool2 W (packet_alloc_size n)
            (if HostToCtrlCount (fdo s) = 0
             then snd (WdfIoQueueRetrieveNextRequest W (UserReadQueue (fdo s)) (fw s)) else fw s))"

context wdf_queues
begin

lemma QueueToUser_without_reader:
  fixes t :: UCHAR and b :: "UCHAR list" and n :: ULONG
  assumes "Owner (fdo s) \<noteq> NULL_HANDLE" and "contents (fw s) (UserReadQueue (fdo s)) = []"
  defines "c' \<equiv> snd (WinVhciTestFailAlloc (fdo s))"
    and "r \<equiv> WinVhciQueueToUser_locked W t b n s"
  shows "fst r = None" and "contents (fw (snd r)) = contents (fw s)"
    and "fdo (snd r) = (if user_allocation_fails W n s
        then c'\<lparr>DropsAllocFailed := DropsAllocFailed c' + 1\<rparr>
        else queue_to_user_ctx (packet_of t b n) c')"
    and "pool (snd r) = (if user_allocation_fails W n s then pool s else pool s + 1)"
proof -
  let ?s1 = "retrieve_when W (HostToCtrlCount (fdo s) = 0) (UserReadQueue (fdo s)) (acquire s)"
  obtain st q w1 where got:
      "WdfIoQueueRetrieveNextRequest W (UserReadQueue (fdo s)) (fw s) = ((st, q), w1)"
      "\<not> NT_SUCCESS st"
    using retrieve_empty [OF assms(2)] by blast
  then have none: "fst ?s1 = None"
    by (simp add: retrieve_when_def)
  define s2 where "s2 = snd ?s1"
  have s1: "?s1 = (None, s2)"
    using none by (simp add: s2_def prod_eq_iff)
  have s2: "fdo s2 = fdo s" "pool s2 = pool s" "contents (fw s2) = contents (fw s)"
      "fw s2 = (if HostToCtrlCount (fdo s) = 0
         then snd (WdfIoQueueRetrieveNextRequest W (UserReadQueue (fdo s)) (fw s)) else fw s)"
    using retrieve_when_none(1) [OF none] got by (simp_all add: s2_def retrieve_when_def)
  have fails: "user_allocation_fails W n s \<longleftrightarrow> fst (alloc_unless_injected W t b n s2) = None"
    by (auto simp: user_allocation_fails_def alloc_unless_injected_def WinVhciAllocPacket_def
        Let_def s2(1,4) split: prod.split)
  have r: "r = (None, release (upd_fdo
      (case fst (alloc_unless_injected W t b n s2) of
         None \<Rightarrow> \<lambda>c. c\<lparr>DropsAllocFailed := DropsAllocFailed c + 1\<rparr>
       | Some p \<Rightarrow> queue_to_user_ctx p) (snd (alloc_unless_injected W t b n s2))))"
    using assms(1) s1 by (simp add: r_def WinVhciQueueToUser_locked_def Let_def
        split: prod.split option.split)
  show "fst r = None" "contents (fw (snd r)) = contents (fw s)"
    by (simp_all add: r s2(3))
  have made: "fst (alloc_unless_injected W t b n s2) \<in> {None, Some (packet_of t b n)}"
    by (rule alloc_unless_injected_result)
  show "fdo (snd r) = (if user_allocation_fails W n s
        then c'\<lparr>DropsAllocFailed := DropsAllocFailed c' + 1\<rparr>
        else queue_to_user_ctx (packet_of t b n) c')"
    using made by (auto simp: r fails c'_def s2(1))
  show "pool (snd r) = (if user_allocation_fails W n s then pool s else pool s + 1)"
    using made by (auto simp: r fails s2(2) alloc_unless_injected_pool)
qed

end

text \<open>
  C20. A (whole) packet for userspace when no read waits. If nobody has the handle open it is counted as a
  drop and goes nowhere: no allocation, no list, no queue, no completion. With the handle open it is
  appended to the backlog and counted, unless its allocation fails (\<open>user_allocation_fails\<close>: a
  failure is injected or the pool has no memory), and then exactly it is lost and the loss is
  counted.
\<close>

theorem packet_without_a_reader:
  assumes "wdf_queues W contents" and "user_waiting contents s = []"
    and "pkt_whole p"
  defines "s' \<equiv> exec (WinVhciQueueToUser W (pkt_Type p) (pkt_Data p) (pkt_Length p)) s"
  shows "mem s' = mem s \<and> calls s' = calls s @ [SpinLockAcquire, SpinLockRelease]
    \<and> contents (fw s') = contents (fw s) \<and>
    (if Owner (fdo s) = NULL_HANDLE then
       fdo s' = (fdo s)\<lparr>DropsNoClient := DropsNoClient (fdo s) + 1\<rparr> \<and> pool s' = pool s
     else if user_allocation_fails W (pkt_Length p) s then
       HostToCtrlList (fdo s') = HostToCtrlList (fdo s) \<and> pool s' = pool s
       \<and> QueuedToUserTotal (fdo s') = QueuedToUserTotal (fdo s)
       \<and> DropsAllocFailed (fdo s') = DropsAllocFailed (fdo s) + 1
     else
       HostToCtrlList (fdo s') = HostToCtrlList (fdo s) @ [p] \<and> pool s' = pool s + 1
       \<and> QueuedToUserTotal (fdo s') = QueuedToUserTotal (fdo s) + 1
       \<and> DropsAllocFailed (fdo s') = DropsAllocFailed (fdo s))"
proof -
  let ?r = "WinVhciQueueToUser_locked W (pkt_Type p) (pkt_Data p) (pkt_Length p) s"
  have waiting: "contents (fw s) (UserReadQueue (fdo s)) = []"
    using assms(2) by (simp add: user_waiting_def)
  show ?thesis
  proof (cases "Owner (fdo s) = NULL_HANDLE")
    case True
    then show ?thesis
      by (simp add: s'_def WinVhciQueueToUser_def WinVhciQueueToUser_locked_def Let_def)
  next
    case False
    note r = wdf_queues.QueueToUser_without_reader [OF assms(1) False waiting,
        of "pkt_Type p" "pkt_Data p" "pkt_Length p"]
    have s': "s' = snd ?r"
      using r(1) by (simp add: s'_def WinVhciQueueToUser_def)
    have c: "HostToCtrlList (snd (WinVhciTestFailAlloc (fdo s))) = HostToCtrlList (fdo s)"
      "QueuedToUserTotal (snd (WinVhciTestFailAlloc (fdo s))) = QueuedToUserTotal (fdo s)"
      "DropsAllocFailed (snd (WinVhciTestFailAlloc (fdo s))) = DropsAllocFailed (fdo s)"
      by (simp_all add: WinVhciTestFailAlloc_def Let_def)
    show ?thesis
      using False r(2-4) by (simp add: s' c packet_of_whole [OF assms(3)])
  qed
qed

lemma packet_without_a_reader_witness:
  "DropsNoClient (fdo (exec (WinVhciQueueToUser (ref_wdf ref_env0) 4 [0x0E, 0] 2) ref_ready)) = 1"
  using packet_without_a_reader [OF ref.wdf_queues_axioms [of ref_env0], where s = ref_ready
      and p = "\<lparr>pkt_Type = 4, pkt_Length = 2, pkt_Data = [0x0E, 0]\<rparr>"]
  by (simp add: user_waiting_def pkt_whole_def)

section \<open>Userspace reads\<close>

lemma user_backlog_whole:
  assumes "system_inv contents qs s" and "user_backlog s = p # ps"
  shows "pkt_whole p" and "HostToCtrlCount (fdo s) - 1 = of_nat (length ps)"
  using assms
  by (simp_all add: system_inv_def driver_inv_def user_ok_def packet_ok_def user_backlog_def
      channel_ok_def)

text \<open>
  C21. A read of \<open>\\.\WinVhci\<close> in a consistent state. A request shorter than the largest packet is refused without taking
  anything. Otherwise the oldest queued packet is taken, freed and, type byte first, put into the
  buffer (or the read is completed with an error when its buffer cannot be had or is too small, and
  the packet is lost). With nothing queued the read is forwarded to the queue of waiting reads: it
  waits there, last, when the framework accepts it, and is completed with the framework's own
  error when it does not.
\<close>

theorem read_takes_the_oldest_or_waits:
  fixes Length :: SIZE_T
  assumes "wdf_queues W contents" and "system_inv contents qs s"
    and "WdfRequestRetrieveOutputBuffer W q 1 = (st, buf, len)"
  defines "s' \<equiv> exec (WinVhciEvtIoRead W q Length) s"
  shows "if unat Length < 1026 then
      s' = WdfRequestComplete q STATUS_BUFFER_TOO_SMALL s
    else case user_backlog s of
      p # ps \<Rightarrow>
        user_backlog s' = ps \<and> HostToCtrlCount (fdo s') = of_nat (length ps)
        \<and> pool s' = pool s - 1 \<and> contents (fw s') = contents (fw s)
        \<and> (if NT_SUCCESS st \<and> unat (pkt_Length p) + 1 \<le> unat len then
             delivered (mem s) (mem s') buf (pkt_Type p # pkt_Data p)
             \<and> calls s' = calls s @ [SpinLockAcquire, SpinLockRelease,
                  RequestComplete q STATUS_SUCCESS (ucast (pkt_Length p) + 1)]
           else
             mem s' = mem s
             \<and> calls s' = calls s @ [SpinLockAcquire, SpinLockRelease,
                  RequestComplete q (if NT_SUCCESS st then STATUS_BUFFER_TOO_SMALL else st) 0])
    | [] \<Rightarrow>
        fdo s' = fdo s \<and> mem s' = mem s \<and> pool s' = pool s
        \<and> fw s' = snd (WdfRequestForwardToIoQueue W q (UserReadQueue (fdo s)) (fw s))
        \<and> (let e = fst (WdfRequestForwardToIoQueue W q (UserReadQueue (fdo s)) (fw s)) in
           if NT_SUCCESS e then
             user_waiting contents s' = user_waiting contents s @ [q]
             \<and> calls s' = calls s @ [SpinLockAcquire, SpinLockRelease]
           else
             user_waiting contents s' = user_waiting contents s
             \<and> calls s' = calls s @ [SpinLockAcquire, SpinLockRelease, RequestComplete q e 0])"
proof -
  define s1 where "s1 = snd (WinVhciEvtIoRead_locked W q s)"
  have frame: "calls s1 = calls s @ [SpinLockAcquire, SpinLockRelease]" "mem s1 = mem s"
    "pool s1 = pool s"
    by (simp_all add: s1_def)
  have short: "Length < ucast WINVHCI_MAX_H4_PACKET \<longleftrightarrow> unat Length < 1026"
    by (simp add: h4_limits word_less_nat_alt)
  show ?thesis
  proof (cases "unat Length < 1026")
    case True
    then show ?thesis by (simp add: s'_def WinVhciEvtIoRead_def short)
  next
    case long: False
    show ?thesis
    proof (cases "user_backlog s")
      case (Cons p ps)
      note whole = user_backlog_whole [OF assms(2) Cons]
      have 1: "fst (WinVhciEvtIoRead_locked W q s) = (Some p, STATUS_SUCCESS)"
        "fdo s1 = (fdo s)\<lparr>HostToCtrlList := ps, HostToCtrlCount := HostToCtrlCount (fdo s) - 1\<rparr>"
        "fw s1 = fw s"
        using Cons by (simp_all add: s1_def user_backlog_def WinVhciEvtIoRead_locked_def Let_def)
      then have s': "s' = WinVhciEvtIoRead_complete W q p s1"
        using long by (simp add: s'_def WinVhciEvtIoRead_def short s1_def)
      show ?thesis
        using long Cons 1 frame whole(2) room_for_packet(2) [of "pkt_Length p" len]
          delivered_fill_reader [OF whole(1) [unfolded pkt_whole_def], of s1 buf "pkt_Type p"]
        unfolding s' by (simp add: WinVhciEvtIoRead_complete_def assms(3) user_backlog_def)
    next
      case Nil
      obtain e w' where fwd: "WdfRequestForwardToIoQueue W q (UserReadQueue (fdo s)) (fw s) = (e, w')"
        by (metis surj_pair)
      have 1: "WinVhciEvtIoRead_locked W q s = ((None, e), s1)" "fdo s1 = fdo s" "fw s1 = w'"
        using Nil fwd by (simp_all add: s1_def user_backlog_def WinVhciEvtIoRead_locked_def Let_def)
      show ?thesis
      proof (cases "NT_SUCCESS e")
        case True
        with long Nil 1 frame wdf_queues.forward_success [OF assms(1) fwd True] show ?thesis
          by (simp add: s'_def WinVhciEvtIoRead_def short user_waiting_def fwd)
      next
        case False
        with long Nil 1 frame wdf_queues.forward_failure [OF assms(1) fwd False] show ?thesis
          by (simp add: s'_def WinVhciEvtIoRead_def short user_waiting_def fwd)
      qed
    qed
  qed
qed

definition ref_queued :: "ref_fw sys" where
  "ref_queued =
     upd_fdo (\<lambda>c. c\<lparr>HostToCtrlList := [\<lparr>pkt_Type = 4, pkt_Length = 2, pkt_Data = [0x0E, 0]\<rparr>],
                    HostToCtrlCount := 1, HostToCtrlPeak := 1\<rparr>) (ref_client\<lparr>pool := 1\<rparr>)"

lemma ref_queued_inv: "system_inv ref_contents (5, 2, 3) ref_queued"
  using ref_inv(2)
  by (simp add: ref_queued_def system_inv_def driver_inv_def queues_distinct_def user_ok_def
      stack_ok_def stack_channel_defs queues_of_def ids_ok_def channel_ok_def peak_ok_def
      packet_ok_def pkt_whole_def h4_limits del: ref_ready_calls)

lemma read_takes_the_oldest_or_waits_witness:
  "delivered (mem ref_queued) (mem (exec (WinVhciEvtIoRead (ref_wdf ref_reader_env) 9 1026) ref_queued))
     0x1000 [4, 0x0E, 0]
   \<and> user_backlog (exec (WinVhciEvtIoRead (ref_wdf ref_reader_env) 9 1026) ref_queued) = []"
proof -
  have buffer: "WdfRequestRetrieveOutputBuffer (ref_wdf ref_reader_env) 9 1
      = (STATUS_SUCCESS, 0x1000, 1026)"
    by (simp add: ref_wdf_def ref_reader_env_def)
  have "user_backlog ref_queued = [\<lparr>pkt_Type = 4, pkt_Length = 2, pkt_Data = [0x0E, 0]\<rparr>]"
    by (simp add: ref_queued_def user_backlog_def)
  then show ?thesis
    using read_takes_the_oldest_or_waits [OF ref.wdf_queues_axioms ref_queued_inv buffer,
        where Length = 1026]
    by simp
qed

end
