(* ===== verification/Reference_Run.thy ===== *)
theory Reference_Run
  imports Reference_Framework
begin

text \<open>
  A run of the driver on the reference framework from the moment the device is added: a client opens
  the handle and asks for a radio, the PDO is made and enters D0, and the client writes an event that
  finds no read and is queued. One of the interleavings, for the properties of reachable states.
\<close>

section \<open>Its requests\<close>

text \<open>Every write is two bytes long, at the same address; the caller puts the bytes there.\<close>

definition ref_up_env :: ref_env where
  "ref_up_env = ref_env0\<lparr>
     env_irp := (\<lambda>_. \<lparr>RequestorMode = KernelMode, UserBuffer = 0x2004, Type3InputBuffer = 0x2000,
                      IrpOutputBufferLength = 262\<rparr>),
     env_in := (\<lambda>_. (STATUS_SUCCESS, 0x3000, 2)), env_write_length := (\<lambda>_. 2)\<rparr>"

definition ref_written :: "UCHAR list \<Rightarrow> ref_fw sys \<Rightarrow> ref_fw sys" where
  "ref_written bs s = s\<lparr>mem := store_bytes (mem s) 0x3000 bs\<rparr>"

lemmas ref_up_env_simps =
  ref_wdf_def ref_up_env_def ref_env0_def ref_retrieve_def h4_types h4_limits

section \<open>Its states\<close>

lemma ref_ready_added: "exec (WinVhciEvtDeviceAdd (ref_wdf ref_up_env)) ref_blank = ref_ready"
  "NT_SUCCESS (result (WinVhciEvtDeviceAdd (ref_wdf ref_up_env)) ref_blank)"
  by (simp_all add: ref_ready_def ref_device_add_defs ref_up_env_def)

definition up_client :: "ref_fw sys" where
  "up_client = exec (WinVhciEvtDeviceFileCreate 6 77) ref_ready"

definition up_asked :: "ref_fw sys" where
  "up_asked = exec (WinVhciEvtIoWrite (ref_wdf ref_up_env) 7 2) (ref_written [0xFF, 0] up_client)"

definition up_made :: "ref_fw sys" where
  "up_made = exec (bind_prog (WinVhciEvtChildListCreateDevice (ref_wdf ref_up_env) 1)
     (\<lambda>_. Return ())) up_asked"

definition up_started :: "ref_fw sys" where
  "up_started = exec (bind_prog (WinVhciPdoEvtD0Entry \<lparr>Fdo = 1, RadioId = 1\<rparr>)
     (\<lambda>_. Return ())) up_made"

definition up_queued :: "ref_fw sys" where
  "up_queued = exec (WinVhciEvtIoWrite (ref_wdf ref_up_env) 8 2) (ref_written [4, 0x0E] up_started)"

lemmas write_path_defs =
  WinVhciEvtIoWrite_def WinVhciDispatchWrite_def dispatch_by_type_def WinVhciHandleControl_def
  claim_radio_locked_def WinVhciQueueToUser_def WinVhciQueueToUser_locked_def admission_locked_def
  WinVhciDeliverToStack_def WinVhciDeliverToStack_locked_def alloc_unless_injected_def
  WinVhciAllocPacket_def retrieve_when_def Let_def

lemma up_client_state:
  "fdo up_client = (fdo ref_ready)\<lparr>Owner := 77\<rparr>" "fw up_client = fw ref_ready"
  "pdos up_client = Map.empty"
  by (simp_all add: up_client_def WinVhciEvtDeviceFileCreate_def set_owner_locked_def)

definition up_radio :: "WINVHCI_FDO_CONTEXT \<Rightarrow> bool" where
  "up_radio c \<longleftrightarrow> RadioPresent c \<and> CurrentRadioId c = 1 \<and> FailAllocOneIn c = 0
     \<and> PendingEventList c = [] \<and> PendingEventCount c = 0 \<and> ReadEventQueue c = 2"

lemma up_asked_state:
  "up_radio (fdo up_asked)" "Device (fdo up_asked) = 1" "pdos up_asked = Map.empty"
  "ref_contents (fw up_asked) = (\<lambda>_. [])"
  by (simp_all add: up_radio_def up_asked_def ref_written_def write_path_defs up_client_state
      ref_up_env_simps load_bytes_numeral queue_to_user_ctx_def split: prod.split option.split)

lemma up_made_state:
  "up_radio (fdo up_made)" "\<exists>d. pdos up_made d = Some \<lparr>Fdo = 1, RadioId = 1\<rparr>"
  "ref_contents (fw up_made) = (\<lambda>_. [])"
  using up_asked_state
  by (auto simp: up_radio_def up_made_def WinVhciEvtChildListCreateDevice_def or_fail_def
      create_pdo_def fill_pdo_context_def count_pdo_def ref_up_env_simps)

lemma up_started_state:
  "up_radio (fdo up_started)" "RadioStarted (fdo up_started)"
  "ref_contents (fw up_started) = (\<lambda>_. [])"
  using up_made_state by (simp_all add: up_radio_def up_started_def WinVhciPdoEvtD0Entry_def)

lemma up_queued_state:
  "stack_backlog WINVHCI_H4_EVENT up_queued =
     [\<lparr>pkt_Type = 4, pkt_Length = 1, pkt_Data = [0x0E]\<rparr>]"
  using up_started_state
  by (simp add: up_radio_def up_queued_def ref_written_def write_path_defs ref_up_env_simps
      load_bytes_numeral queue_to_stack_ctx_def body_limit_def stack_backlog_def stack_channel_defs
      split: prod.split option.split)

section \<open>It is one of the interleavings\<close>

lemma reach_written:
  "conc_reach (spawns W) (env_step ref_contents) s0 (s, ts) \<Longrightarrow>
   conc_reach (spawns W) (env_step ref_contents) s0 (ref_written bs s, ts)"
proof (erule conc_reach.step, rule conc_step.environment)
  have "ref_written bs s = s\<lparr>fw := fw s, mem := store_bytes (mem s) 0x3000 bs,
      pdos := (pdos s) |` UNIV\<rparr>"
    by (simp add: ref_written_def restrict_map_def)
  then show "env_step ref_contents s (ref_written bs s)"
    unfolding env_step_def by blast
qed

lemma up_queued_reachable:
  "\<exists>ts. conc_reach (spawns (ref_wdf ref_up_env)) (env_step ref_contents)
     (exec (WinVhciEvtDeviceAdd (ref_wdf ref_up_env)) ref_blank) (up_queued, ts)"
proof -
  let ?reach = "conc_reach (spawns (ref_wdf ref_up_env)) (env_step ref_contents) ref_ready"
  obtain d where d: "pdos up_made d = Some \<lparr>Fdo = 1, RadioId = 1\<rparr>"
    using up_made_state(2) by blast
  have "\<exists>ts. ?reach (up_client, ts)"
    unfolding up_client_def by (rule exI, rule conc_reach_exec [OF conc_reach.start])
      (simp add: spawns.intros)
  then have "\<exists>ts. ?reach (up_asked, ts)"
    unfolding up_asked_def by (auto intro: conc_reach_exec reach_written spawns.intros)
  then have "\<exists>ts. ?reach (up_made, ts)"
    unfolding up_made_def by (blast intro: conc_reach_exec spawns.intros)
  then have "\<exists>ts. ?reach (up_started, ts)"
    unfolding up_started_def using d by (blast intro: conc_reach_exec spawns.intros)
  then show ?thesis
    unfolding up_queued_def ref_ready_added by (auto intro: conc_reach_exec reach_written spawns.intros)
qed

end
