(* ===== verification/Transport_Properties.thy ===== *)
theory Transport_Properties
  imports Handler_Properties Reference_Run
begin

text \<open>
  Userspace to stack: which writes are admitted, what an admitted one does, what a completed read
  holds; and the requests of the BTHX contract.
\<close>

section \<open>Completing a read of the stack\<close>

lemma unat_add_le: "unat (x + y) \<le> unat x + unat (y :: 'a::len word)"
  by (simp add: unat_word_ariths)

lemma in_range_shift:
  assumes "in_range (a + of_nat i) k p" and "i + k \<le> n"
  shows "in_range a n p"
proof -
  have "unat (p - a) = unat ((p - (a + of_nat i)) + of_nat i)"
    by (simp add: algebra_simps)
  also have "\<dots> \<le> unat (p - (a + of_nat i)) + unat (of_nat i :: PVOID)"
    by (rule unat_add_le)
  also have "unat (of_nat i :: PVOID) \<le> i"
    by (simp add: unat_of_nat take_bit_nat_less_eq_self)
  finally show ?thesis
    using assms by (simp add: in_range_def)
qed

lemma fill_context_outside:
  assumes "\<not> in_range out (5 + unat n) p"
  shows "fill_context out t b n m p = m p"
proof -
  have n: "unat n < 2 ^ 32" by (rule ulong_bound)
  have len: "length (take (unat n) b) \<le> 2 ^ 64"
    using n by (simp add: min_def)
  have "\<not> in_range (out + 4) 1 p" "\<not> in_range out 4 p"
      "\<not> in_range (out + 5) (length (take (unat n) b)) p"
    using assms in_range_shift [of out 4 1 p "5 + unat n"] in_range_mono [of out 4 p "5 + unat n"]
      in_range_shift [of out 5 "length (take (unat n) b)" p "5 + unat n"] by auto
  then show ?thesis
    using len by (simp add: fill_context_def Let_def store_bytes_outside)
      (auto simp: in_range_def)
qed

lemma read_capacity:
  assumes "5 \<le> unat (len :: ULONG)"
  shows "len - WINVHCI_HCI_CONTEXT_HEADER_SIZE < n \<longleftrightarrow> unat len < unat n + 5"
proof -
  have "unat (len - 5) = unat len - 5"
    using unat_sub [of 5 len] assms by (simp add: word_le_nat_alt)
  with assms show ?thesis
    by (auto simp: WINVHCI_HCI_CONTEXT_HEADER_SIZE_def word_less_nat_alt)
qed

lemma read_too_short:
  "(len :: ULONG) < WINVHCI_HCI_CONTEXT_HEADER_SIZE \<longleftrightarrow> unat len < 5"
  by (simp add: WINVHCI_HCI_CONTEXT_HEADER_SIZE_def word_less_nat_alt)

lemma context_information:
  assumes "unat n + 5 < 2 ^ 32"
  shows "unat (ucast (WINVHCI_HCI_CONTEXT_HEADER_SIZE + n) :: ULONG_PTR) = unat n + 5"
  using assms by (simp add: WINVHCI_HCI_CONTEXT_HEADER_SIZE_def unsigned_ucast_eq
      unat_word_ariths take_bit_nat_eq_self)

lemma CompleteRead_success:
  assumes irp: "WdfRequestWdmGetIrp W q = irp"
    and room: "UserBuffer irp \<noteq> NULL" "unat n + 5 \<le> unat (IrpOutputBufferLength irp)"
    and b: "length b = unat n"
  obtains info where
    "WinVhciCompleteRead W q t b n s = (STATUS_SUCCESS,
       WdfRequestCompleteWithInformation q STATUS_SUCCESS info
         (s\<lparr>mem := store_bytes (mem s) (UserBuffer irp) (rw_context_bytes n t b)\<rparr>))"
    "unat info = unat n + 5"
proof -
  let ?len = "IrpOutputBufferLength irp"
  have n: "unat n + 5 < 2 ^ 32"
    using room(2) ulong_bound [of ?len] by linarith
  have "WinVhciCompleteRead W q t b n s = (STATUS_SUCCESS,
      WdfRequestCompleteWithInformation q STATUS_SUCCESS
        (ucast (WINVHCI_HCI_CONTEXT_HEADER_SIZE + n))
        (s\<lparr>mem := fill_context (UserBuffer irp) t b n (mem s)\<rparr>))"
    using room read_capacity [of ?len n]
    by (simp add: WinVhciCompleteRead_def Let_def irp read_too_short)
  then show ?thesis
    using that context_information [OF n] fill_context_bytes [OF b, of "UserBuffer irp" t "mem s"] n
    by simp
qed

lemma CompleteRead_short:
  assumes "WdfRequestWdmGetIrp W q = irp" and "UserBuffer irp \<noteq> NULL"
    and "\<not> unat n + 5 \<le> unat (IrpOutputBufferLength irp)"
  shows "snd (WinVhciCompleteRead W q t b n s) = WdfRequestComplete q
    (if unat (IrpOutputBufferLength irp) < 5 then STATUS_INVALID_PARAMETER
     else STATUS_BUFFER_TOO_SMALL) s"
  using assms read_capacity [of "IrpOutputBufferLength irp" n]
  by (auto simp: WinVhciCompleteRead_def Let_def read_too_short)

text \<open>The packed context that lies at an address.\<close>

definition context_at :: "memory \<Rightarrow> PVOID \<Rightarrow> ULONG \<Rightarrow> UCHAR \<Rightarrow> UCHAR list \<Rightarrow> bool" where
  "context_at m p n t b \<longleftrightarrow> ctx_DataLen m p = n \<and> ctx_Type m p = t \<and> ctx_Data m p n = b"

lemma context_at_stored:
  assumes "length b = unat n" and "unat n + 5 \<le> 2 ^ 64"
  shows "context_at (store_bytes m p (rw_context_bytes n t b)) p n t b"
  using rw_context_bytes_readback [OF _ assms(1) refl, of m p t] assms
  by (simp add: context_at_def)

text \<open>
  C11. A read the stack gave enough room is completed with the packed context: its length word, its
  type byte and its payload, read back with the layout of the header, are those of the packet, and
  the information is the five header bytes plus the payload.
\<close>

theorem completed_read_round_trip:
  fixes t :: UCHAR and s :: "'w sys"
  assumes "WdfRequestWdmGetIrp W q = irp"
    and "UserBuffer irp \<noteq> NULL" and "unat n + 5 \<le> unat (IrpOutputBufferLength irp)"
    and "length b = unat n"
  defines "r \<equiv> WinVhciCompleteRead W q t b n s"
  shows "fst r = STATUS_SUCCESS \<and> context_at (mem (snd r)) (UserBuffer irp) n t b
    \<and> (\<exists>info. calls (snd r) = calls s @ [RequestComplete q STATUS_SUCCESS info]
         \<and> unat info = unat n + 5)"
proof -
  obtain info where "r = (STATUS_SUCCESS, WdfRequestCompleteWithInformation q STATUS_SUCCESS info
      (s\<lparr>mem := store_bytes (mem s) (UserBuffer irp) (rw_context_bytes n t b)\<rparr>))"
    "unat info = unat n + 5"
    unfolding r_def by (rule CompleteRead_success [OF assms(1-4)])
  then show ?thesis
    using context_at_stored [OF assms(4)] ulong_bound [of n] by simp
qed

definition ref_stack_env :: ref_env where
  "ref_stack_env = ref_env0\<lparr>
     env_irp := (\<lambda>r. \<lparr>RequestorMode = KernelMode, UserBuffer = 0x2004, Type3InputBuffer = 0x2000,
                      IrpOutputBufferLength = 262\<rparr>),
     env_in := (\<lambda>r. (STATUS_SUCCESS, 0x3000, 3)), env_write_length := (\<lambda>r. 3)\<rparr>"

lemma ref_stack_irp [simp]:
  "WdfRequestWdmGetIrp (ref_wdf ref_stack_env) r = \<lparr>RequestorMode = KernelMode,
     UserBuffer = 0x2004, Type3InputBuffer = 0x2000, IrpOutputBufferLength = 262\<rparr>"
  by (simp add: ref_wdf_def ref_stack_env_def)

lemma completed_read_round_trip_witness:
  "ctx_Data (mem (snd (WinVhciCompleteRead (ref_wdf ref_stack_env) 9 4 [0x0E, 0] 2 ref_radio)))
     0x2004 2 = [0x0E, 0]"
  using completed_read_round_trip [OF ref_stack_irp [of 9], where n = 2 and b = "[0x0E, 0]"
      and t = 4 and s = ref_radio]
  by (simp add: context_at_def)

text \<open>
  C10. Whatever packet and buffer it is given, completing a read never writes outside the output
  buffer the request declares, writes nothing unless it succeeds, completes the request exactly once
  with the status it returns, and changes nothing else of the driver.
\<close>

theorem completed_read_stays_in_its_buffer:
  fixes W :: "'w wdf" and q :: WDFREQUEST and t :: UCHAR and b :: "UCHAR list" and n :: ULONG
    and s :: "'w sys"
  defines "out \<equiv> UserBuffer (WdfRequestWdmGetIrp W q)"
    and "len \<equiv> unat (IrpOutputBufferLength (WdfRequestWdmGetIrp W q))"
    and "r \<equiv> WinVhciCompleteRead W q t b n s"
  shows "(\<forall>p. mem (snd r) p = mem s p \<or> NT_SUCCESS (fst r) \<and> out \<noteq> NULL \<and> in_range out len p)
    \<and> (\<exists>info. calls (snd r) = calls s @ [RequestComplete q (fst r) info] \<and> unat info \<le> len)
    \<and> fdo (snd r) = fdo s \<and> fw (snd r) = fw s \<and> pool (snd r) = pool s"
proof -
  let ?len = "IrpOutputBufferLength (WdfRequestWdmGetIrp W q)"
  have bound: "unat ?len < 2 ^ 32" by (rule ulong_bound)
  consider "out = NULL \<or> unat ?len < 5" | "out \<noteq> NULL" "5 \<le> unat ?len" "unat ?len < unat n + 5"
    | "out \<noteq> NULL" "unat n + 5 \<le> unat ?len"
    by linarith
  then show ?thesis
  proof cases
    case 1
    then have "r = (STATUS_INVALID_PARAMETER, WdfRequestComplete q STATUS_INVALID_PARAMETER s)"
      by (auto simp: r_def out_def WinVhciCompleteRead_def Let_def read_too_short)
    then show ?thesis by simp
  next
    case 2
    then have "r = (STATUS_BUFFER_TOO_SMALL, WdfRequestComplete q STATUS_BUFFER_TOO_SMALL s)"
      using read_capacity [of ?len n]
      by (simp add: r_def out_def WinVhciCompleteRead_def Let_def read_too_short)
    then show ?thesis by simp
  next
    case 3
    then have r: "r = (STATUS_SUCCESS, WdfRequestCompleteWithInformation q STATUS_SUCCESS
        (ucast (WINVHCI_HCI_CONTEXT_HEADER_SIZE + n)) (s\<lparr>mem := fill_context out t b n (mem s)\<rparr>))"
      using read_capacity [of ?len n]
      by (simp add: r_def out_def WinVhciCompleteRead_def Let_def read_too_short)
    have "mem (snd r) p = mem s p \<or> in_range out len p" for p
      using fill_context_outside [of out n p t b "mem s"] in_range_mono [of out "5 + unat n" p len] 3
      by (auto simp: r len_def)
    moreover have "unat (ucast (WINVHCI_HCI_CONTEXT_HEADER_SIZE + n) :: ULONG_PTR) \<le> len"
      using 3 bound by (subst context_information) (simp_all add: len_def)
    ultimately show ?thesis
      using 3(1) by (auto simp: r)
  qed
qed

section \<open>Writes\<close>

text \<open>The bytes of a write, as the dispatcher sees them.\<close>

definition write_buffer :: "'w wdf \<Rightarrow> WDFREQUEST \<Rightarrow> PVOID" where
  "write_buffer W q = fst (snd (WdfRequestRetrieveInputBuffer W q 2))"

definition write_type :: "'w wdf \<Rightarrow> WDFREQUEST \<Rightarrow> 'w sys \<Rightarrow> UCHAR" where
  "write_type W q s = mem s (write_buffer W q)"

definition write_body_length :: "'w wdf \<Rightarrow> WDFREQUEST \<Rightarrow> ULONG" where
  "write_body_length W q = ucast (snd (snd (WdfRequestRetrieveInputBuffer W q 2))) - 1"

definition write_body :: "'w wdf \<Rightarrow> WDFREQUEST \<Rightarrow> 'w sys \<Rightarrow> UCHAR list" where
  "write_body W q s =
     load_bytes (mem s) (write_buffer W q + 1) (unat (write_body_length W q))"

text \<open>A write whose length is in bounds and whose buffer the framework provides.\<close>

definition write_well_sized :: "'w wdf \<Rightarrow> WDFREQUEST \<Rightarrow> bool" where
  "write_well_sized W q \<longleftrightarrow>
     2 \<le> unat (WdfRequestGetParameters_WriteLength W q)
     \<and> unat (WdfRequestGetParameters_WriteLength W q) \<le> 1026
     \<and> NT_SUCCESS (fst (WdfRequestRetrieveInputBuffer W q 2))"

lemma write_bounds:
  "(n :: SIZE_T) < 2 \<longleftrightarrow> unat n < 2" "ucast WINVHCI_MAX_H4_PACKET < (n :: SIZE_T) \<longleftrightarrow> 1026 < unat n"
  by (simp_all add: h4_limits word_less_nat_alt)

lemma DispatchWrite_exec:
  assumes "write_well_sized W q"
  shows "exec (WinVhciDispatchWrite W q) s =
    (let p = dispatch_by_type W (write_type W q s) (write_body W q s) (write_body_length W q);
         status = result p s
     in WdfRequestCompleteWithInformation q status
          (if NT_SUCCESS status then WdfRequestGetParameters_WriteLength W q else 0) (exec p s))"
  using assms
  by (cases "WdfRequestRetrieveInputBuffer W q 2")
    (auto simp: WinVhciDispatchWrite_def Let_def write_well_sized_def write_bounds write_type_def
      write_body_def write_body_length_def write_buffer_def)

text \<open>
  C12. A write that is refused changes no channel. Too short or too long, or of a type the driver
  does not carry, or larger than the stack's buffers for its type: it is completed with its error
  and no other effect, before the lock is taken. Right in all that but with no radio, or one whose
  stack is not up: completed as not ready, and counted, and nothing is queued that nobody would
  read.
\<close>

theorem refused_writes_change_no_channel:
  fixes W :: "'w wdf" and s :: "'w sys" and q :: WDFREQUEST and l :: SIZE_T
  defines "len \<equiv> unat (WdfRequestGetParameters_WriteLength W q)"
    and "t \<equiv> write_type W q s" and "n \<equiv> write_body_length W q"
    and "s' \<equiv> exec (WinVhciEvtIoWrite W q l) s"
  shows "(len < 2 \<or> 1026 < len \<longrightarrow> s' = WdfRequestComplete q STATUS_INVALID_PARAMETER s)
    \<and> (write_well_sized W q \<and> t \<noteq> WINVHCI_H4_VENDOR \<and> \<not> stack_type t \<longrightarrow>
        s' = WdfRequestComplete q
               (if t = WINVHCI_H4_SCO \<or> t = WINVHCI_H4_ISO then STATUS_NOT_SUPPORTED
                else STATUS_INVALID_PARAMETER) s)
    \<and> (write_well_sized W q \<and> stack_type t \<and> body_limit t < n \<longrightarrow>
        s' = WdfRequestComplete q STATUS_INVALID_PARAMETER s)
    \<and> (write_well_sized W q \<and> stack_type t \<and> n \<le> body_limit t
          \<and> \<not> (RadioPresent (fdo s) \<and> RadioStarted (fdo s)) \<longrightarrow>
        fdo s' = (fdo s)\<lparr>WritesNoRadio := WritesNoRadio (fdo s) + 1\<rparr>
        \<and> fw s' = fw s \<and> mem s' = mem s \<and> pool s' = pool s
        \<and> calls s' = calls s @ [SpinLockAcquire, SpinLockRelease,
                                RequestComplete q STATUS_DEVICE_NOT_READY 0])"
proof (intro conjI impI)
  assume "len < 2 \<or> 1026 < len"
  then show "s' = WdfRequestComplete q STATUS_INVALID_PARAMETER s"
    by (auto simp: s'_def len_def WinVhciEvtIoWrite_def WinVhciDispatchWrite_def Let_def write_bounds)
next
  assume "write_well_sized W q \<and> t \<noteq> WINVHCI_H4_VENDOR \<and> \<not> stack_type t"
  then show "s' = WdfRequestComplete q
      (if t = WINVHCI_H4_SCO \<or> t = WINVHCI_H4_ISO then STATUS_NOT_SUPPORTED
       else STATUS_INVALID_PARAMETER) s"
    by (auto simp: s'_def WinVhciEvtIoWrite_def DispatchWrite_exec dispatch_by_type_def stack_type_def
        t_def [symmetric] WdfRequestComplete_def Let_def)
next
  assume "write_well_sized W q \<and> stack_type t \<and> body_limit t < n"
  then show "s' = WdfRequestComplete q STATUS_INVALID_PARAMETER s"
    by (auto simp: s'_def WinVhciEvtIoWrite_def DispatchWrite_exec dispatch_by_type_def stack_type_def
        t_def [symmetric] n_def [symmetric] WdfRequestComplete_def Let_def h4_types)
next
  assume *: "write_well_sized W q \<and> stack_type t \<and> n \<le> body_limit t
          \<and> \<not> (RadioPresent (fdo s) \<and> RadioStarted (fdo s))"
  then have "dispatch_by_type W t (write_body W q s) n =
      atomically admission_locked (\<lambda>ready. if \<not> ready then Return STATUS_DEVICE_NOT_READY
        else WinVhciDeliverToStack W t (write_body W q s) n)"
    by (auto simp: dispatch_by_type_def stack_type_def h4_types)
  with * have "s' = WdfRequestComplete q STATUS_DEVICE_NOT_READY (snd (admission_locked s))"
    by (simp add: s'_def WinVhciEvtIoWrite_def DispatchWrite_exec t_def [symmetric]
        n_def [symmetric] WdfRequestComplete_def Let_def admission_locked_def)
  with * show "fdo s' = (fdo s)\<lparr>WritesNoRadio := WritesNoRadio (fdo s) + 1\<rparr>"
    "fw s' = fw s" "mem s' = mem s" "pool s' = pool s"
    "calls s' = calls s @ [SpinLockAcquire, SpinLockRelease,
                           RequestComplete q STATUS_DEVICE_NOT_READY 0]"
    by (auto simp: admission_locked_def Let_def)
qed

text \<open>A three-byte event written while no radio exists.\<close>

definition ref_event_written :: "ref_fw sys \<Rightarrow> ref_fw sys" where
  "ref_event_written s = s\<lparr>mem := store_bytes (mem s) 0x3000 [4, 0x0E, 0]\<rparr>"

lemma ref_write_request:
  "WdfRequestRetrieveInputBuffer (ref_wdf ref_stack_env) q k = (STATUS_SUCCESS, 0x3000, 3)"
  "WdfRequestGetParameters_WriteLength (ref_wdf ref_stack_env) q = 3"
  by (simp_all add: ref_wdf_def ref_stack_env_def)

lemma ref_write_size:
  "write_well_sized (ref_wdf ref_stack_env) q"
  "write_body_length (ref_wdf ref_stack_env) q = 2"
  by (simp_all add: write_well_sized_def write_body_length_def ref_write_request)

lemma ref_write_bytes:
  "write_type (ref_wdf ref_stack_env) q (ref_event_written s) = WINVHCI_H4_EVENT"
  "write_body (ref_wdf ref_stack_env) q (ref_event_written s) = [0x0E, 0]"
  by (simp add: write_type_def write_buffer_def ref_event_written_def ref_write_request h4_types)
    (simp add: write_body_def write_buffer_def ref_event_written_def ref_write_request
      ref_write_size load_bytes_numeral)

lemmas ref_event_write = ref_write_size ref_write_bytes

lemma refused_writes_change_no_channel_witness:
  "WritesNoRadio (fdo (exec (WinVhciEvtIoWrite (ref_wdf ref_stack_env) 9 3)
     (ref_event_written ref_client))) = 1"
  using refused_writes_change_no_channel
    [where W = "ref_wdf ref_stack_env" and q = 9 and l = 3 and s = "ref_event_written ref_client"]
  by (simp add: ref_event_write stack_type_def body_limit_def h4_limits)
    (simp add: ref_event_written_def)

text \<open>Both locked regions of an admitted write.\<close>

lemma admitted_dispatch:
  assumes "stack_type t" and "n \<le> body_limit t" and "RadioPresent (fdo s)" and "RadioStarted (fdo s)"
  shows "result (dispatch_by_type W t b n) s =
      result (WinVhciDeliverToStack W t b n) (release (acquire s))"
    and "exec (dispatch_by_type W t b n) s =
      exec (WinVhciDeliverToStack W t b n) (release (acquire s))"
  using assms
  by (auto simp: dispatch_by_type_def stack_type_def admission_locked_def Let_def)

lemma admitted_write_exec:
  assumes "write_well_sized W q" and "stack_type (write_type W q s)"
    and "write_body_length W q \<le> body_limit (write_type W q s)"
    and "RadioPresent (fdo s)" and "RadioStarted (fdo s)"
    and "run (WinVhciDeliverToStack W (write_type W q s) (write_body W q s) (write_body_length W q))
           (release (acquire s)) = (STATUS_SUCCESS, s1)"
  shows "exec (WinVhciEvtIoWrite W q l) s =
    WdfRequestCompleteWithInformation q STATUS_SUCCESS (WdfRequestGetParameters_WriteLength W q) s1"
proof -
  let ?p = "dispatch_by_type W (write_type W q s) (write_body W q s) (write_body_length W q)"
  have "result ?p s = STATUS_SUCCESS" "exec ?p s = s1"
    using assms(6) admitted_dispatch [OF assms(2-5), of W "write_body W q s"]
    by (simp_all add: exec_def result_def)
  then show ?thesis
    by (simp add: WinVhciEvtIoWrite_def DispatchWrite_exec [OF assms(1)] Let_def)
qed

context wdf_queues
begin

lemma DeliverToStack_hands_over:
  fixes s t b n
  defines "x \<equiv> WinVhciDeliverToStack_locked W t b n s"
  assumes "stack_count t (fdo s) = 0" and "contents (fw s) (stack_queue t (fdo s)) = r # rs"
  shows "x = ((Some r, STATUS_SUCCESS), snd x)"
    "contents (fw (snd x)) = (contents (fw s))(stack_queue t (fdo s) := rs)"
    "fdo (snd x) = (fdo s)\<lparr>WritesTotal := WritesTotal (fdo s) + 1\<rparr>" "pool (snd x) = pool s"
proof -
  have "fst x = (Some r, STATUS_SUCCESS)
    \<and> contents (fw (snd x)) = (contents (fw s))(stack_queue t (fdo s) := rs)
    \<and> fdo (snd x) = (fdo s)\<lparr>WritesTotal := WritesTotal (fdo s) + 1\<rparr> \<and> pool (snd x) = pool s"
    using assms(2,3) unfolding x_def
    by (cases rule: DeliverToStack_locked_cases [where s = s and t = t and b = b and n = n]) simp_all
  then show "x = ((Some r, STATUS_SUCCESS), snd x)"
    "contents (fw (snd x)) = (contents (fw s))(stack_queue t (fdo s) := rs)"
    "fdo (snd x) = (fdo s)\<lparr>WritesTotal := WritesTotal (fdo s) + 1\<rparr>" "pool (snd x) = pool s"
    by (simp_all add: prod_eq_iff)
qed

lemma DeliverToStack_serves_a_read:
  assumes "stack_count t (fdo s) = 0" and "contents (fw s) (stack_queue t (fdo s)) = r # rs"
    and irp: "WdfRequestWdmGetIrp W r = irp" and room: "UserBuffer irp \<noteq> NULL"
      "unat n + 5 \<le> unat (IrpOutputBufferLength irp)"
    and b: "length b = unat n"
  obtains s' info where "run (WinVhciDeliverToStack W t b n) s = (STATUS_SUCCESS, s')"
    "context_at (mem s') (UserBuffer irp) n t b"
    "contents (fw s') = (contents (fw s))(stack_queue t (fdo s) := rs)"
    "fdo s' = (fdo s)\<lparr>WritesTotal := WritesTotal (fdo s) + 1\<rparr>" "pool s' = pool s"
    "calls s' = calls s @ [SpinLockAcquire, SpinLockRelease, RequestComplete r STATUS_SUCCESS info]"
proof -
  note handed = DeliverToStack_hands_over [OF assms(1,2), of b n]
  define s1 where "s1 = snd (WinVhciDeliverToStack_locked W t b n s)"
  obtain info where c: "WinVhciCompleteRead W r t b n s1 = (STATUS_SUCCESS,
      WdfRequestCompleteWithInformation r STATUS_SUCCESS info
        (s1\<lparr>mem := store_bytes (mem s1) (UserBuffer irp) (rw_context_bytes n t b)\<rparr>))"
    by (rule CompleteRead_success [OF irp room b])
  have "WinVhciDeliverToStack_locked W t b n s = ((Some r, STATUS_SUCCESS), s1)"
    unfolding s1_def by (rule handed(1))
  then have "run (WinVhciDeliverToStack W t b n) s =
      (STATUS_SUCCESS, snd (WinVhciCompleteRead W r t b n s1))"
    using c by (simp add: WinVhciDeliverToStack_def)
  then show ?thesis
  proof (rule that)
    have s1: "mem s1 = mem s" "calls s1 = calls s @ [SpinLockAcquire, SpinLockRelease]"
      by (simp_all add: s1_def)
    show "context_at (mem (snd (WinVhciCompleteRead W r t b n s1))) (UserBuffer irp) n t b"
      using context_at_stored [OF b] ulong_bound [of n] by (simp add: c)
    show "contents (fw (snd (WinVhciCompleteRead W r t b n s1))) =
        (contents (fw s))(stack_queue t (fdo s) := rs)"
      "fdo (snd (WinVhciCompleteRead W r t b n s1)) = (fdo s)\<lparr>WritesTotal := WritesTotal (fdo s) + 1\<rparr>"
      "pool (snd (WinVhciCompleteRead W r t b n s1)) = pool s"
      using handed(2-4) [folded s1_def] by simp_all
    show "calls (snd (WinVhciCompleteRead W r t b n s1)) =
        calls s @ [SpinLockAcquire, SpinLockRelease, RequestComplete r STATUS_SUCCESS info]"
      by (simp add: c s1)
  qed
qed

end

context wdf_reliable
begin

lemma DeliverToStack_queues:
  fixes s t b n
  defines "x \<equiv> WinVhciDeliverToStack_locked W t b n s"
  assumes "FailAllocOneIn (fdo s) = 0" and "contents (fw s) (stack_queue t (fdo s)) = []"
  shows "x = ((None, STATUS_SUCCESS), snd x)"
    "contents (fw (snd x)) = contents (fw s)"
    "fdo (snd x) = queue_to_stack_ctx t (packet_of t b n) (fdo s)" "pool (snd x) = pool s + 1"
proof -
  have "fst x = (None, STATUS_SUCCESS) \<and> contents (fw (snd x)) = contents (fw s)
    \<and> fdo (snd x) = queue_to_stack_ctx t (packet_of t b n) (fdo s) \<and> pool (snd x) = pool s + 1"
    using assms(2,3) unfolding x_def
    by (cases rule: DeliverToStack_locked_cases [where s = s and t = t and b = b and n = n])
      (auto simp: alloc_reliable)
  then show "x = ((None, STATUS_SUCCESS), snd x)"
    "contents (fw (snd x)) = contents (fw s)"
    "fdo (snd x) = queue_to_stack_ctx t (packet_of t b n) (fdo s)" "pool (snd x) = pool s + 1"
    by (simp_all add: prod_eq_iff)
qed

lemma DeliverToStack_queues_run:
  assumes "FailAllocOneIn (fdo s) = 0" and "contents (fw s) (stack_queue t (fdo s)) = []"
  obtains s' where "run (WinVhciDeliverToStack W t b n) s = (STATUS_SUCCESS, s')"
    "contents (fw s') = contents (fw s)"
    "fdo s' = queue_to_stack_ctx t (packet_of t b n) (fdo s)" "pool s' = pool s + 1"
    "mem s' = mem s" "calls s' = calls s @ [SpinLockAcquire, SpinLockRelease]"
proof -
  note queued = DeliverToStack_queues [OF assms, of b n]
  define s1 where "s1 = snd (WinVhciDeliverToStack_locked W t b n s)"
  have "WinVhciDeliverToStack_locked W t b n s = ((None, STATUS_SUCCESS), s1)"
    unfolding s1_def by (rule queued(1))
  then have "run (WinVhciDeliverToStack W t b n) s = (STATUS_SUCCESS, s1)"
    by (simp add: WinVhciDeliverToStack_def)
  then show ?thesis
    using queued(2-4) [folded s1_def] by (rule that) (simp_all add: s1_def)
qed

end

text \<open>
  C13. A write of an event or of ACL data, in bounds, while the radio's stack is up and a read of its
  type waits whose buffer is there (not NULL) and has room for the five header bytes and the body:
  the oldest such read is taken and its buffer gets exactly the type and body written, both requests
  complete successfully, the read first and the write with its full length, and no packet is
  allocated or queued.
\<close>

theorem admitted_write_reaches_the_waiting_read:
  fixes W :: "'w wdf" and s :: "'w sys" and q r :: WDFREQUEST and l :: SIZE_T
  assumes "wdf_queues W contents" and "system_inv contents qs s" and "write_well_sized W q"
    and "stack_type (write_type W q s)"
    and "write_body_length W q \<le> body_limit (write_type W q s)"
    and "RadioPresent (fdo s)" and "RadioStarted (fdo s)"
    and "stack_waiting contents (write_type W q s) s = r # rs"
    and "WdfRequestWdmGetIrp W r = irp" and "UserBuffer irp \<noteq> NULL"
    and "unat (write_body_length W q) + 5 \<le> unat (IrpOutputBufferLength irp)"
  defines "s' \<equiv> exec (WinVhciEvtIoWrite W q l) s"
  shows "context_at (mem s') (UserBuffer irp) (write_body_length W q) (write_type W q s)
           (write_body W q s)
    \<and> stack_waiting contents (write_type W q s) s' = rs
    \<and> fdo s' = (fdo s)\<lparr>WritesTotal := WritesTotal (fdo s) + 1\<rparr> \<and> pool s' = pool s
    \<and> (\<exists>info. calls s' = calls s @ [SpinLockAcquire, SpinLockRelease, SpinLockAcquire,
         SpinLockRelease, RequestComplete r STATUS_SUCCESS info,
         RequestComplete q STATUS_SUCCESS (WdfRequestGetParameters_WriteLength W q)])"
proof -
  let ?t = "write_type W q s" and ?n = "write_body_length W q" and ?b = "write_body W q s"
  have waiting: "contents (fw s) (stack_queue ?t (fdo s)) = r # rs"
    using assms(8) by (simp add: stack_waiting_def)
  have "stack_ok contents ?t s"
    using assms(2) by (simp add: system_inv_def driver_inv_split [OF assms(4)])
  then have "stack_count ?t (fdo s) = 0"
    using waiting by (auto simp: stack_ok_def channel_ok_def)
  with waiting obtain s1 info where
    s1: "run (WinVhciDeliverToStack W ?t ?b ?n) (release (acquire s)) = (STATUS_SUCCESS, s1)"
    and "context_at (mem s1) (UserBuffer irp) ?n ?t ?b"
    "contents (fw s1) = (contents (fw s))(stack_queue ?t (fdo s) := rs)"
    "fdo s1 = (fdo s)\<lparr>WritesTotal := WritesTotal (fdo s) + 1\<rparr>" "pool s1 = pool s"
    "calls s1 = calls s @ [SpinLockAcquire, SpinLockRelease, SpinLockAcquire, SpinLockRelease,
       RequestComplete r STATUS_SUCCESS info]"
    using wdf_queues.DeliverToStack_serves_a_read [OF assms(1) _ _ assms(9-11), of ?t
        "release (acquire s)" rs ?b] by (auto simp: write_body_def)
  then show ?thesis
    unfolding s'_def admitted_write_exec [OF assms(3-7) s1] by (simp add: stack_waiting_def)
qed

lemma ref_event_state:
  "system_inv ref_contents (5, 2, 3) (ref_event_written s) \<longleftrightarrow> system_inv ref_contents (5, 2, 3) s"
  "fdo (ref_event_written s) = fdo s" "fw (ref_event_written s) = fw s"
  "pool (ref_event_written s) = pool s" "calls (ref_event_written s) = calls s"
  by (simp_all add: ref_event_written_def system_inv_def
      driver_inv_cong [of s "s\<lparr>mem := store_bytes (mem s) 0x3000 [4, 0x0E, 0]\<rparr>", simplified])

lemma ref_inv_parked_event:
  assumes "system_inv ref_contents (5, 2, 3) s" and "PendingEventList (fdo s) = []"
  shows "system_inv ref_contents (5, 2, 3) (ref_park r 2 s)"
  using assms by (auto simp: system_inv_def driver_inv_def queues_distinct_def user_ok_def
      stack_ok_def stack_channel_defs queues_of_def)

lemma admitted_write_reaches_the_waiting_read_witness:
  "context_at (mem (exec (WinVhciEvtIoWrite (ref_wdf ref_stack_env) 9 3)
     (ref_event_written (ref_park 8 2 ref_radio)))) 0x2004 2 WINVHCI_H4_EVENT [0x0E, 0]"
proof -
  have inv: "system_inv ref_contents (5, 2, 3) (ref_event_written (ref_park 8 2 ref_radio))"
    by (simp add: ref_event_state ref_inv_parked_event)
  have waiting: "stack_waiting ref_contents
      (write_type (ref_wdf ref_stack_env) 9 (ref_event_written (ref_park 8 2 ref_radio)))
      (ref_event_written (ref_park 8 2 ref_radio)) = 8 # []"
    by (simp add: ref_event_write stack_waiting_def ref_event_state stack_queue_def)
  show ?thesis
    using admitted_write_reaches_the_waiting_read [OF ref.wdf_queues_axioms inv _ _ _ _ _ waiting
        ref_stack_irp, where l = 3]
    by (simp add: ref_event_write ref_event_state stack_type_def body_limit_def h4_limits)
qed

text \<open>
  C14. The same write when no read of its type waits, on a framework that is not short of anything:
  it is completed successfully with its full length and its packet, type and body, is appended to
  the backlog of its type; count, peak and the total of writes follow, and the other channel is left
  alone.
\<close>

theorem admitted_write_is_queued_in_order:
  fixes W :: "'w wdf" and s :: "'w sys" and q :: WDFREQUEST and l :: SIZE_T
  assumes "wdf_reliable W contents" and "FailAllocOneIn (fdo s) = 0" and "write_well_sized W q"
    and "stack_type (write_type W q s)"
    and "write_body_length W q \<le> body_limit (write_type W q s)"
    and "RadioPresent (fdo s)" and "RadioStarted (fdo s)"
    and "stack_waiting contents (write_type W q s) s = []"
  defines "s' \<equiv> exec (WinVhciEvtIoWrite W q l) s" and "t \<equiv> write_type W q s"
  shows "stack_backlog t s' = stack_backlog t s @
      [\<lparr>pkt_Type = t, pkt_Length = write_body_length W q, pkt_Data = write_body W q s\<rparr>]
    \<and> stack_count t (fdo s') = stack_count t (fdo s) + 1
    \<and> stack_peak t (fdo s') = max (stack_peak t (fdo s)) (stack_count t (fdo s) + 1)
    \<and> WritesTotal (fdo s') = WritesTotal (fdo s) + 1
    \<and> stack_backlog (other_type t) s' = stack_backlog (other_type t) s
    \<and> contents (fw s') = contents (fw s) \<and> mem s' = mem s \<and> pool s' = pool s + 1
    \<and> calls s' = calls s @ [SpinLockAcquire, SpinLockRelease, SpinLockAcquire, SpinLockRelease,
         RequestComplete q STATUS_SUCCESS (WdfRequestGetParameters_WriteLength W q)]"
proof -
  let ?n = "write_body_length W q" and ?b = "write_body W q s"
  have "contents (fw s) (stack_queue t (fdo s)) = []"
    using assms(8) by (simp add: stack_waiting_def t_def)
  with assms(2) obtain s1 where
    s1: "run (WinVhciDeliverToStack W t ?b ?n) (release (acquire s)) = (STATUS_SUCCESS, s1)"
    and "contents (fw s1) = contents (fw s)"
    "fdo s1 = queue_to_stack_ctx t (packet_of t ?b ?n) (fdo s)" "pool s1 = pool s + 1"
    "mem s1 = mem s"
    "calls s1 = calls s @ [SpinLockAcquire, SpinLockRelease, SpinLockAcquire, SpinLockRelease]"
    using wdf_reliable.DeliverToStack_queues_run [OF assms(1), of "release (acquire s)" t ?b ?n]
    by auto
  moreover have "packet_of t ?b ?n = \<lparr>pkt_Type = t, pkt_Length = ?n, pkt_Data = ?b\<rparr>"
    by (simp add: packet_of_def write_body_def)
  ultimately show ?thesis
    unfolding s'_def admitted_write_exec [OF assms(3-7) s1 [unfolded t_def]]
    by (auto simp: stack_backlog_def max_def)
qed

lemma admitted_write_is_queued_in_order_witness:
  "stack_backlog WINVHCI_H4_EVENT (exec (WinVhciEvtIoWrite (ref_wdf ref_stack_env) 9 3)
     (ref_event_written ref_radio)) =
     [\<lparr>pkt_Type = WINVHCI_H4_EVENT, pkt_Length = 2, pkt_Data = [0x0E, 0]\<rparr>]"
  using admitted_write_is_queued_in_order [OF ref.wdf_reliable_axioms [of ref_stack_env],
      where s = "ref_event_written ref_radio" and q = 9 and l = 3]
  by (simp add: ref_event_write ref_event_state stack_type_def body_limit_def h4_limits
      stack_waiting_def stack_backlog_def stack_list_def)

text \<open>
  C30. Whatever is on the stack's backlogs fits the reads the stack makes. From the moment a device
  has been added successfully, in every state any interleaving of handlers, cancellations and
  changed buffers can reach: a read whose buffer is there and has room for a 257-byte event, or for the 1021 bytes of ACL payload the driver
  reports, is completed successfully by any queued packet of its type.
\<close>

theorem queued_packets_fit_the_stacks_reads:
  fixes W :: "'w wdf" and s0 s s1 :: "'w sys"
  assumes "wdf_creation W contents live"
    and "NT_SUCCESS (result (WinVhciEvtDeviceAdd W) s0)" and "lock_discipline (calls s0)"
    and "conc_reach (spawns W) (env_step contents) (exec (WinVhciEvtDeviceAdd W) s0) (s, ts)"
    and "stack_type t" and "p \<in> set (stack_backlog t s)"
    and "UserBuffer (WdfRequestWdmGetIrp W q) \<noteq> NULL"
    and "(if t = WINVHCI_H4_ACL then 1021 else 257) + 5
           \<le> unat (IrpOutputBufferLength (WdfRequestWdmGetIrp W q))"
  shows "fst (WinVhciCompleteRead W q (pkt_Type p) (pkt_Data p) (pkt_Length p) s1) = STATUS_SUCCESS"
proof -
  have "system_inv contents (queues_of (fdo (exec (WinVhciEvtDeviceAdd W) s0))) s"
    using wdf_creation.reachable_inv [OF assms(1,4)] wdf_creation.DeviceAdd_inv [OF assms(1-3)]
    by blast
  then have "stack_packet t p"
    using assms(6) by (auto simp: system_inv_def driver_inv_split [OF assms(5)] stack_ok_def
        stack_backlog_def list_all_iff)
  then have "length (pkt_Data p) = unat (pkt_Length p)"
    "unat (pkt_Length p) \<le> (if t = WINVHCI_H4_ACL then 1021 else 257)"
    by (auto simp: stack_packet_def packet_ok_def pkt_whole_def body_limit_def h4_limits
        word_le_nat_alt split: if_splits)
  then show ?thesis
    using assms(7,8)
    by (auto elim!: CompleteRead_success [OF refl, where W = W and q = q and t = "pkt_Type p"
          and s = s1] intro: le_trans)
qed

lemma queued_packets_fit_the_stacks_reads_witness:
  "fst (WinVhciCompleteRead (ref_wdf ref_up_env) 9 4 [0x0E] 1 up_queued) = STATUS_SUCCESS"
proof -
  obtain ts where reach: "conc_reach (spawns (ref_wdf ref_up_env)) (env_step ref_contents)
      (exec (WinVhciEvtDeviceAdd (ref_wdf ref_up_env)) ref_blank) (up_queued, ts)"
    using up_queued_reachable by blast
  have "lock_discipline (calls ref_blank)"
    by (simp add: lock_discipline_def)
  from queued_packets_fit_the_stacks_reads [OF ref.wdf_creation_axioms ref_ready_added(2) this reach,
      of WINVHCI_H4_EVENT "\<lparr>pkt_Type = 4, pkt_Length = 1, pkt_Data = [0x0E]\<rparr>" 9 up_queued]
  show ?thesis
    by (simp add: up_queued_state stack_type_def) (simp add: ref_wdf_def ref_up_env_def h4_types)
qed

end
