(* ===== verification/Bthx_Properties.thy ===== *)
theory Bthx_Properties
  imports Transport_Properties
begin

text \<open>
  The requests of the BTHX contract, through their dispatcher: who may send them, which arguments
  are refused, what a read takes and what a write hands to userspace.
\<close>

section \<open>The dispatcher\<close>

text \<open>The state after the dispatcher has counted a kernel-mode request.\<close>

definition dispatched :: "'w sys \<Rightarrow> 'w sys" where
  "dispatched s = count_ioctl_locked s"

lemma dispatched_fields [simp]:
  "fdo (dispatched s) = (fdo s)\<lparr>IoctlCount := IoctlCount (fdo s) + 1\<rparr>"
  "fw (dispatched s) = fw s" "mem (dispatched s) = mem s" "pool (dispatched s) = pool s"
  "pdos (dispatched s) = pdos s"
  "calls (dispatched s) = calls s @ [SpinLockAcquire, SpinLockRelease]"
  by (simp_all add: dispatched_def count_ioctl_locked_def)

lemma dispatched_channels [simp]:
  "stack_list t (c\<lparr>IoctlCount := x\<rparr>) = stack_list t c"
  "stack_count t (c\<lparr>IoctlCount := x\<rparr>) = stack_count t c"
  "stack_queue t (c\<lparr>IoctlCount := x\<rparr>) = stack_queue t c"
  "queues_distinct (c\<lparr>IoctlCount := x\<rparr>) = queues_distinct c"
  by (simp_all add: stack_channel_defs queues_distinct_def)

lemma BthxDispatch_exec:
  assumes "WdfRequestWdmGetIrp W q = irp" and "RequestorMode irp = KernelMode"
  shows "exec (WinVhciBthxDispatch W q outLen inLen code) s =
    (let p = bthx_switch W q (Type3InputBuffer irp) inLen (UserBuffer irp) outLen code
     in case result p (dispatched s) of
          None \<Rightarrow> exec p (dispatched s)
        | Some (status, info) \<Rightarrow>
            WdfRequestCompleteWithInformation q status info (exec p (dispatched s)))"
  using assms
  by (simp add: WinVhciBthxDispatch_def Let_def dispatched_def split: option.split)

text \<open>
  C17. A BTHX request that does not come from kernel mode is completed with access denied and has no
  other effect, whatever its code, lengths and pointers: no pointer of it is followed, nothing is
  counted.
\<close>

theorem user_mode_requests_are_denied:
  assumes "RequestorMode (WdfRequestWdmGetIrp W q) \<noteq> KernelMode"
  shows "exec (WinVhciEvtBthxInternalDeviceControl W q outLen inLen code) s =
      WdfRequestComplete q STATUS_ACCESS_DENIED s
    \<and> exec (WinVhciEvtBthxDeviceControl W q outLen inLen code) s =
      WdfRequestComplete q STATUS_ACCESS_DENIED s"
  using assms
  by (simp_all add: WinVhciEvtBthxInternalDeviceControl_def WinVhciEvtBthxDeviceControl_def
      WinVhciBthxDispatch_def Let_def)

definition ref_user_mode_env :: ref_env where
  "ref_user_mode_env = ref_env0\<lparr>
     env_irp := (\<lambda>r. \<lparr>RequestorMode = UserMode, UserBuffer = 0x2004, Type3InputBuffer = 0x2000,
                      IrpOutputBufferLength = 262\<rparr>)\<rparr>"

lemma user_mode_requests_are_denied_witness:
  "calls (exec (WinVhciEvtBthxDeviceControl (ref_wdf ref_user_mode_env) 9 262 4
     IOCTL_BTHX_READ_HCI) ref_radio) = calls ref_radio @ [RequestComplete 9 STATUS_ACCESS_DENIED 0]"
proof -
  have "RequestorMode (WdfRequestWdmGetIrp (ref_wdf ref_user_mode_env) 9) \<noteq> KernelMode"
    by (simp add: ref_wdf_def ref_user_mode_env_def)
  from user_mode_requests_are_denied [OF this] show ?thesis
    by (simp del: ref_ready_calls)
qed

section \<open>Reads\<close>

text \<open>
  C18. A read whose pointers or lengths are unusable, or whose output does not start right after its
  embedded type word, is completed with the error for that and touches nothing but the request
  counter: no packet is taken, no read is parked, no memory is written.
\<close>

theorem malformed_reads_take_nothing:
  fixes W :: "'w wdf" and s :: "'w sys" and q :: WDFREQUEST and outLen inLen :: SIZE_T
  assumes "WdfRequestWdmGetIrp W q = irp" and "RequestorMode irp = KernelMode"
  defines "bad \<equiv> Type3InputBuffer irp = NULL \<or> unat inLen < 4 \<or> UserBuffer irp = NULL
      \<or> unat outLen < 5"
    and "apart \<equiv> UserBuffer irp \<noteq> Type3InputBuffer irp + WINVHCI_READ_TYPE_WORD_SIZE"
  assumes "bad \<or> apart"
  shows "exec (WinVhciBthxDispatch W q outLen inLen IOCTL_BTHX_READ_HCI) s =
    WdfRequestComplete q
      (if bad then STATUS_INVALID_PARAMETER else STATUS_INVALID_DEVICE_REQUEST) (dispatched s)"
proof -
  have "inLen < 4 \<longleftrightarrow> unat inLen < 4" "outLen < ucast WINVHCI_HCI_CONTEXT_HEADER_SIZE \<longleftrightarrow> unat outLen < 5"
    by (simp_all add: word_less_nat_alt WINVHCI_HCI_CONTEXT_HEADER_SIZE_def)
  with assms(5) show ?thesis
    by (auto simp: BthxDispatch_exec [OF assms(1,2)] bthx_switch_def bthx_read_hci_def bad_def
        apart_def Let_def WdfRequestComplete_def)
qed

lemma malformed_reads_take_nothing_witness:
  "calls (exec (WinVhciBthxDispatch (ref_wdf ref_stack_env) 9 4 4 IOCTL_BTHX_READ_HCI) ref_radio)
     = calls ref_radio @ [SpinLockAcquire, SpinLockRelease,
                          RequestComplete 9 STATUS_INVALID_PARAMETER 0]"
  using malformed_reads_take_nothing [OF ref_stack_irp [of 9], where inLen = 4 and outLen = 4
      and s = ref_radio]
  by (simp del: ref_ready_calls)

text \<open>The channel a well-formed read is served from.\<close>

definition read_type :: "'w sys \<Rightarrow> PVOID \<Rightarrow> SIZE_T \<Rightarrow> UCHAR" where
  "read_type s inBuf outLen =
     (let word = load_ulong (mem s) inBuf
      in if word = HciPacketEvent then WINVHCI_H4_EVENT
         else if word = HciPacketAclData then WINVHCI_H4_ACL
         else if 1021 \<le> unat (ucast outLen - WINVHCI_HCI_CONTEXT_HEADER_SIZE :: ULONG)
              then WINVHCI_H4_ACL else WINVHCI_H4_EVENT)"

lemma read_type_stack [simp]: "stack_type (read_type s ib ol)"
  by (simp add: read_type_def stack_type_def Let_def)

lemma read_target_type:
  assumes "queues_distinct c" and "fdo s = c"
  shows "read_target (load_ulong (mem s) ib) (ucast ol - WINVHCI_HCI_CONTEXT_HEADER_SIZE) c
      = stack_queue (read_type s ib ol) c"
    and "read_want_type (stack_queue (read_type s ib ol) c) c = read_type s ib ol"
proof -
  have "ReadEventQueue c \<noteq> ReadDataQueue c"
    using assms(1) by (auto simp: queues_distinct_def)
  then show "read_target (load_ulong (mem s) ib) (ucast ol - WINVHCI_HCI_CONTEXT_HEADER_SIZE) c
      = stack_queue (read_type s ib ol) c"
    "read_want_type (stack_queue (read_type s ib ol) c) c = read_type s ib ol"
    by (simp_all add: read_target_def read_want_type_def read_type_def stack_queue_def Let_def
        WINVHCI_MAX_ACL_TRANSFER_IN_def word_le_nat_alt)
qed

lemma read_hci_exec:
  fixes W :: "'w wdf" and s :: "'w sys" and q :: WDFREQUEST
  assumes "queues_distinct (fdo s)"
    and "ib \<noteq> NULL" "4 \<le> unat il" "ob \<noteq> NULL" "5 \<le> unat ol"
    and "ob = ib + WINVHCI_READ_TYPE_WORD_SIZE"
  defines "t \<equiv> read_type s ib ol"
  defines "x \<equiv> WinVhciTakeOrParkForStack W t q (stack_queue t (fdo s)) s"
  shows "exec (bthx_read_hci W q ib il ob ol) s =
      (case snd (fst x) of
         Some p \<Rightarrow> ExFreePoolWithTag p
           (snd (WinVhciCompleteRead W q (pkt_Type p) (pkt_Data p) (pkt_Length p) (snd x)))
       | None \<Rightarrow> snd x)"
    and "result (bthx_read_hci W q ib il ob ol) s =
      (if snd (fst x) = None \<and> \<not> NT_SUCCESS (fst (fst x)) then Some (fst (fst x), 0) else None)"
proof -
  have "\<not> il < 4" "\<not> ol < ucast WINVHCI_HCI_CONTEXT_HEADER_SIZE"
    using assms by (simp_all add: word_less_nat_alt WINVHCI_HCI_CONTEXT_HEADER_SIZE_def)
  then show "exec (bthx_read_hci W q ib il ob ol) s =
      (case snd (fst x) of
         Some p \<Rightarrow> ExFreePoolWithTag p
           (snd (WinVhciCompleteRead W q (pkt_Type p) (pkt_Data p) (pkt_Length p) (snd x)))
       | None \<Rightarrow> snd x)"
    "result (bthx_read_hci W q ib il ob ol) s =
      (if snd (fst x) = None \<and> \<not> NT_SUCCESS (fst (fst x)) then Some (fst (fst x), 0) else None)"
    using assms(2-6) read_target_type [OF assms(1) refl, of ib ol]
    by (simp_all add: bthx_read_hci_def Let_def x_def t_def split_def split: option.split)
qed

text \<open>
  A read that is well-formed as a request, through the dispatcher: what it does with a packet queued
  for it, and with none.
\<close>

definition well_formed_read :: "IRP \<Rightarrow> SIZE_T \<Rightarrow> SIZE_T \<Rightarrow> bool" where
  "well_formed_read irp inLen outLen \<longleftrightarrow>
     RequestorMode irp = KernelMode \<and> Type3InputBuffer irp \<noteq> NULL \<and> 4 \<le> unat inLen
     \<and> UserBuffer irp \<noteq> NULL \<and> 5 \<le> unat outLen
     \<and> UserBuffer irp = Type3InputBuffer irp + WINVHCI_READ_TYPE_WORD_SIZE"

lemma BthxRead_exec:
  fixes W :: "'w wdf" and s :: "'w sys" and q :: WDFREQUEST
  assumes "queues_distinct (fdo s)" and "WdfRequestWdmGetIrp W q = irp"
    and "well_formed_read irp inLen outLen" and "read_type s (Type3InputBuffer irp) outLen = t"
    and "WinVhciTakeOrParkForStack W t q (stack_queue t (fdo s)) (dispatched s) = ((e, x), s1)"
    and "x = None \<Longrightarrow> NT_SUCCESS e"
  shows "exec (WinVhciBthxDispatch W q outLen inLen IOCTL_BTHX_READ_HCI) s =
    (case x of
       Some p \<Rightarrow> ExFreePoolWithTag p
         (snd (WinVhciCompleteRead W q (pkt_Type p) (pkt_Data p) (pkt_Length p) s1))
     | None \<Rightarrow> s1)"
proof -
  have t: "read_type (dispatched s) (Type3InputBuffer irp) outLen = t"
    using assms(4) by (simp add: read_type_def)
  have distinct: "queues_distinct (fdo (dispatched s))"
    and queue: "stack_queue t (fdo (dispatched s)) = stack_queue t (fdo s)"
    using assms(1) by simp_all
  have kernel: "RequestorMode irp = KernelMode"
    and "Type3InputBuffer irp \<noteq> NULL" "4 \<le> unat inLen" "UserBuffer irp \<noteq> NULL" "5 \<le> unat outLen"
    "UserBuffer irp = Type3InputBuffer irp + WINVHCI_READ_TYPE_WORD_SIZE"
    using assms(3) unfolding well_formed_read_def by blast+
  note run = read_hci_exec [OF distinct this(2-6), of W q, unfolded t queue assms(5)]
  show ?thesis
    using run assms(6)
    by (simp add: BthxDispatch_exec [OF assms(2) kernel] bthx_switch_def split: option.split)
qed

lemma BthxRead_takes:
  fixes W :: "'w wdf" and s :: "'w sys" and q :: WDFREQUEST
  assumes "queues_distinct (fdo s)" and "WdfRequestWdmGetIrp W q = irp"
    and "well_formed_read irp inLen outLen" and "read_type s (Type3InputBuffer irp) outLen = t"
    and "stack_backlog t s = p # ps"
  defines "s1 \<equiv> release (upd_fdo (\<lambda>c. set_stack_list t ps (stack_count t c - 1) c)
      (acquire (dispatched s)))"
  shows "exec (WinVhciBthxDispatch W q outLen inLen IOCTL_BTHX_READ_HCI) s =
    ExFreePoolWithTag p (snd (WinVhciCompleteRead W q (pkt_Type p) (pkt_Data p) (pkt_Length p) s1))"
  using BthxRead_exec [OF assms(1-4), of STATUS_SUCCESS "Some p" s1] assms(5)
  by (simp add: WinVhciTakeOrParkForStack_def Let_def stack_backlog_def s1_def)

context wdf_reliable
begin

lemma BthxRead_parks:
  assumes "queues_distinct (fdo s)" and "WdfRequestWdmGetIrp W q = irp"
    and "well_formed_read irp inLen outLen" and "read_type s (Type3InputBuffer irp) outLen = t"
    and "stack_backlog t s = []"
  obtains w' where "exec (WinVhciBthxDispatch W q outLen inLen IOCTL_BTHX_READ_HCI) s =
      release (upd_fdo (count_pended_read t) ((acquire (dispatched s))\<lparr>fw := w'\<rparr>))"
    "contents w' = (contents (fw s))(stack_queue t (fdo s) :=
       contents (fw s) (stack_queue t (fdo s)) @ [q])"
proof -
  obtain e w' where fwd:
    "WdfRequestForwardToIoQueue W q (stack_queue t (fdo s)) (fw s) = (e, w')" "NT_SUCCESS e"
    "contents w' = (contents (fw s))(stack_queue t (fdo s) :=
       contents (fw s) (stack_queue t (fdo s)) @ [q])"
    using forward_appends by blast
  have "exec (WinVhciBthxDispatch W q outLen inLen IOCTL_BTHX_READ_HCI) s =
      release (upd_fdo (count_pended_read t) ((acquire (dispatched s))\<lparr>fw := w'\<rparr>))"
    using BthxRead_exec [OF assms(1-4), of e None] fwd(1,2) assms(5)
    by (simp add: WinVhciTakeOrParkForStack_def Let_def stack_backlog_def)
  then show ?thesis using fwd(3) by (rule that)
qed

end

text \<open>
  C15. A well-formed read is served from the channel of the type it asks for (by the size of its
  buffer when it asks for neither). With packets queued it takes that channel's oldest, which is of
  that type: a buffer with room for the five header bytes and the body gets it as a packed context;
  without room the read is completed with an error and its buffer is left alone; either way the
  packet has been taken and is freed. With nothing queued the read waits at the end of that
  channel's queue, uncompleted, on a framework that refuses nothing. The other channel is not
  touched.
\<close>

theorem reads_take_the_oldest_of_their_type:
  fixes W :: "'w wdf" and s :: "'w sys" and q :: WDFREQUEST and outLen inLen :: SIZE_T
  assumes "wdf_reliable W contents" and "system_inv contents qs s"
    and "WdfRequestWdmGetIrp W q = irp" and "well_formed_read irp inLen outLen"
  defines "t \<equiv> read_type s (Type3InputBuffer irp) outLen"
    and "s' \<equiv> exec (WinVhciBthxDispatch W q outLen inLen IOCTL_BTHX_READ_HCI) s"
  shows "stack_backlog (other_type t) s' = stack_backlog (other_type t) s
    \<and> stack_waiting contents (other_type t) s' = stack_waiting contents (other_type t) s
    \<and> (case stack_backlog t s of
        p # ps \<Rightarrow>
          pkt_Type p = t \<and> stack_backlog t s' = ps \<and> pool s' = pool s - 1
          \<and> stack_waiting contents t s' = stack_waiting contents t s
          \<and> (if unat (pkt_Length p) + 5 \<le> unat (IrpOutputBufferLength irp) then
                 context_at (mem s') (UserBuffer irp) (pkt_Length p) t (pkt_Data p)
                 \<and> (\<exists>info. calls s' = calls s @ [SpinLockAcquire, SpinLockRelease, SpinLockAcquire,
                      SpinLockRelease, RequestComplete q STATUS_SUCCESS info]
                      \<and> unat info = unat (pkt_Length p) + 5)
               else
                 mem s' = mem s
                 \<and> calls s' = calls s @ [SpinLockAcquire, SpinLockRelease, SpinLockAcquire,
                      SpinLockRelease, RequestComplete q
                        (if unat (IrpOutputBufferLength irp) < 5 then STATUS_INVALID_PARAMETER
                         else STATUS_BUFFER_TOO_SMALL) 0])
      | [] \<Rightarrow>
          stack_backlog t s' = [] \<and> pool s' = pool s \<and> mem s' = mem s
          \<and> stack_waiting contents t s' = stack_waiting contents t s @ [q]
          \<and> calls s' = calls s @ [SpinLockAcquire, SpinLockRelease, SpinLockAcquire,
              SpinLockRelease])"
proof -
  have distinct: "queues_distinct (fdo s)"
    using assms(2) by (rule system_inv_distinct)
  have "stack_type t" and t: "read_type s (Type3InputBuffer irp) outLen = t"
    by (simp_all add: t_def)
  show ?thesis
  proof (cases "stack_backlog t s")
    case (Cons p ps)
    define s1 where "s1 = release (upd_fdo (\<lambda>c. set_stack_list t ps (stack_count t c - 1) c)
        (acquire (dispatched s)))"
    have s': "s' = ExFreePoolWithTag p
        (snd (WinVhciCompleteRead W q (pkt_Type p) (pkt_Data p) (pkt_Length p) s1))"
      unfolding s'_def s1_def
      using BthxRead_takes [OF distinct assms(3,4) t Cons] .
    have p: "pkt_Type p = t" "length (pkt_Data p) = unat (pkt_Length p)"
      using assms(2) Cons by (simp_all add: system_inv_def driver_inv_split [OF \<open>stack_type t\<close>]
          stack_ok_def stack_backlog_def stack_packet_def packet_ok_def pkt_whole_def)
    have "context_at (mem s') (UserBuffer irp) (pkt_Length p) t (pkt_Data p)
        \<and> (\<exists>info. calls s' = calls s @ [SpinLockAcquire, SpinLockRelease, SpinLockAcquire,
             SpinLockRelease, RequestComplete q STATUS_SUCCESS info]
             \<and> unat info = unat (pkt_Length p) + 5)"
      if room: "unat (pkt_Length p) + 5 \<le> unat (IrpOutputBufferLength irp)"
    proof -
      have "UserBuffer irp \<noteq> NULL"
        using assms(4) unfolding well_formed_read_def by blast
      then obtain info where "WinVhciCompleteRead W q t (pkt_Data p) (pkt_Length p) s1 =
          (STATUS_SUCCESS, WdfRequestCompleteWithInformation q STATUS_SUCCESS info
            (s1\<lparr>mem := store_bytes (mem s1) (UserBuffer irp)
               (rw_context_bytes (pkt_Length p) t (pkt_Data p))\<rparr>))"
        "unat info = unat (pkt_Length p) + 5"
        by (rule CompleteRead_success [OF assms(3) _ room p(2)])
      then show ?thesis
        using context_at_stored [OF p(2)] ulong_bound [of "pkt_Length p"]
        by (simp add: s' p(1)) (simp add: s1_def)
    qed
    moreover have "mem s' = mem s
        \<and> calls s' = calls s @ [SpinLockAcquire, SpinLockRelease, SpinLockAcquire,
             SpinLockRelease, RequestComplete q
               (if unat (IrpOutputBufferLength irp) < 5 then STATUS_INVALID_PARAMETER
                else STATUS_BUFFER_TOO_SMALL) 0]"
      if short: "\<not> unat (pkt_Length p) + 5 \<le> unat (IrpOutputBufferLength irp)"
    proof -
      have "UserBuffer irp \<noteq> NULL"
        using assms(4) unfolding well_formed_read_def by blast
      from CompleteRead_short [OF assms(3) this short, of t "pkt_Data p" s1] show ?thesis
        by (simp add: s' p(1)) (simp add: s1_def)
    qed
    ultimately show ?thesis
      using Cons p(1) by (simp add: s' s1_def stack_backlog_def stack_waiting_def)
  next
    case Nil
    obtain w' where "s' = release (upd_fdo (count_pended_read t) ((acquire (dispatched s))\<lparr>fw := w'\<rparr>))"
      "contents w' = (contents (fw s))(stack_queue t (fdo s) :=
         contents (fw s) (stack_queue t (fdo s)) @ [q])"
      unfolding s'_def
      by (rule wdf_reliable.BthxRead_parks [OF assms(1) distinct assms(3,4) t Nil])
    with Nil show ?thesis
      using stack_queue_distinct(3,4) [OF distinct, of t]
      by (simp add: stack_backlog_def stack_waiting_def)
  qed
qed

lemma reads_take_the_oldest_of_their_type_witness:
  "stack_waiting ref_contents WINVHCI_H4_EVENT
     (exec (WinVhciBthxDispatch (ref_wdf ref_stack_env) 9 262 4 IOCTL_BTHX_READ_HCI) ref_radio) = [9]"
proof -
  have "read_type ref_radio 0x2000 262 = WINVHCI_H4_EVENT"
    by (simp add: read_type_def load_ulong_def load_bytes_numeral bytes_ulong_def HciPacketEvent_def
        HciPacketAclData_def WINVHCI_HCI_CONTEXT_HEADER_SIZE_def Let_def)
  then show ?thesis
    using reads_take_the_oldest_of_their_type [OF ref.wdf_reliable_axioms ref_inv(3)
        ref_stack_irp [of 9], where inLen = 4 and outLen = 262]
    by (simp add: well_formed_read_def WINVHCI_READ_TYPE_WORD_SIZE_def stack_backlog_def stack_list_def
        stack_waiting_def stack_queue_def)
qed

section \<open>Writes and capabilities\<close>

lemma write_hci_guards:
  assumes "unat (il :: SIZE_T) < 2 ^ 32"
  shows "il < ucast WINVHCI_HCI_CONTEXT_HEADER_SIZE \<longleftrightarrow> unat il < 5"
    and "5 \<le> unat il \<Longrightarrow>
      ucast il - WINVHCI_HCI_CONTEXT_HEADER_SIZE < n \<longleftrightarrow> unat il < unat (n :: ULONG) + 5"
    and "WINVHCI_MAX_BODY < n \<longleftrightarrow> 1025 < unat n"
proof -
  have len: "unat (ucast il :: ULONG) = unat il"
    using assms by (simp add: unsigned_ucast_eq take_bit_nat_eq_self)
  show "il < ucast WINVHCI_HCI_CONTEXT_HEADER_SIZE \<longleftrightarrow> unat il < 5"
    by (simp add: word_less_nat_alt WINVHCI_HCI_CONTEXT_HEADER_SIZE_def)
  show "ucast il - WINVHCI_HCI_CONTEXT_HEADER_SIZE < n \<longleftrightarrow> unat il < unat n + 5" if "5 \<le> unat il"
    using read_capacity [of "ucast il" n] that len by simp
  show "WINVHCI_MAX_BODY < n \<longleftrightarrow> 1025 < unat n"
    by (simp add: h4_limits word_less_nat_alt)
qed

text \<open>When the length in the header is believed, and what is handed to userspace then.\<close>

definition write_accepted :: "memory \<Rightarrow> PVOID \<Rightarrow> SIZE_T \<Rightarrow> bool" where
  "write_accepted m ib inLen \<longleftrightarrow>
     ib \<noteq> NULL \<and> 5 \<le> unat inLen \<and> unat (ctx_DataLen m ib) + 5 \<le> unat inLen
     \<and> unat (ctx_DataLen m ib) \<le> 1025"

lemma BthxWrite_exec:
  fixes W :: "'w wdf" and s :: "'w sys" and q :: WDFREQUEST
  assumes "WdfRequestWdmGetIrp W q = irp" and "RequestorMode irp = KernelMode"
    and "unat inLen < 2 ^ 32"
  defines "ib \<equiv> Type3InputBuffer irp"
  defines "n \<equiv> ctx_DataLen (mem s) ib"
  shows "exec (WinVhciBthxDispatch W q outLen inLen IOCTL_BTHX_WRITE_HCI) s =
    (if write_accepted (mem s) ib inLen then
       WdfRequestCompleteWithInformation q STATUS_SUCCESS (ucast n)
         (exec (WinVhciQueueToUser W (ctx_Type (mem s) ib) (load_bytes (mem s) (ib + 5) (unat n)) n)
            (count_write_locked (dispatched s)))
     else WdfRequestComplete q STATUS_INVALID_PARAMETER (dispatched s))"
proof (cases "ib \<noteq> NULL \<and> 5 \<le> unat inLen")
  case False
  then show ?thesis
    using write_hci_guards(1) [OF assms(3)]
    by (auto simp: BthxDispatch_exec [OF assms(1,2)] bthx_switch_def bthx_write_hci_def
        ib_def [symmetric] WdfRequestComplete_def write_accepted_def)
next
  case True
  then show ?thesis
    using write_hci_guards(1) [OF assms(3)] write_hci_guards(2,3) [OF assms(3), of n]
    by (auto simp: BthxDispatch_exec [OF assms(1,2)] bthx_switch_def bthx_write_hci_def
        ib_def [symmetric] n_def [symmetric] ctx_Data_def WdfRequestComplete_def write_accepted_def)
qed

text \<open>
  C16. A packet the stack writes is taken at its word only as far as its buffer goes: the length in
  its header must leave it inside the input buffer and within the largest body, or the request is
  refused with no effect but the request counter. One that is accepted goes to userspace with exactly
  its type byte, whatever that is, and its payload, and the request is completed with the payload's
  length.
\<close>

theorem stack_writes_stay_in_their_buffer:
  fixes W :: "'w wdf" and s :: "'w sys" and q :: WDFREQUEST and outLen inLen :: SIZE_T
  assumes "WdfRequestWdmGetIrp W q = irp" and "RequestorMode irp = KernelMode"
    and "unat inLen < 2 ^ 32"
  defines "ib \<equiv> Type3InputBuffer irp"
  defines "n \<equiv> ctx_DataLen (mem s) ib"
  shows "exec (WinVhciBthxDispatch W q outLen inLen IOCTL_BTHX_WRITE_HCI) s =
    (if ib \<noteq> NULL \<and> 5 \<le> unat inLen \<and> unat n + 5 \<le> unat inLen \<and> unat n \<le> 1025 then
       WdfRequestCompleteWithInformation q STATUS_SUCCESS (ucast n)
         (exec (WinVhciQueueToUser W (ctx_Type (mem s) ib) (load_bytes (mem s) (ib + 5) (unat n)) n)
            (count_write_locked (dispatched s)))
     else WdfRequestComplete q STATUS_INVALID_PARAMETER (dispatched s))"
  using BthxWrite_exec [OF assms(1-3)]
  by (simp add: ib_def n_def write_accepted_def)

lemma stack_writes_stay_in_their_buffer_witness:
  "calls (exec (WinVhciBthxDispatch (ref_wdf ref_stack_env) 9 0 4 IOCTL_BTHX_WRITE_HCI) ref_radio)
     = calls ref_radio @ [SpinLockAcquire, SpinLockRelease,
                          RequestComplete 9 STATUS_INVALID_PARAMETER 0]"
  using stack_writes_stay_in_their_buffer [OF ref_stack_irp [of 9], where inLen = 4 and outLen = 0
      and s = ref_radio]
  by (simp del: ref_ready_calls)

lemma size_bound: "unat (n :: SIZE_T) < 2 ^ 64"
  using unsigned_less [of n] by simp

text \<open>
  C35. The capabilities request, from kernel mode and with a buffer that is there and large enough,
  fills exactly the structure's bytes, and what it reports matches what the driver enforces: the ACL transfer size is the limit writes of ACL data are held to, the radio
  is neither idle- nor wake-capable, and the two registry knobs \<open>WvScoSupport\<close> and
  \<open>WvMaxScoChannels\<close> are each reported as read, or at its default (2 and 1) when the key, the value
  or the interrupt level rules a read out.
\<close>

theorem capabilities_match_the_limits:
  fixes W :: "'w wdf" and s :: "'w sys" and q :: WDFREQUEST and outLen inLen :: SIZE_T
  assumes "WdfRequestWdmGetIrp W q = irp" and "RequestorMode irp = KernelMode"
    and "UserBuffer irp \<noteq> NULL" and "sizeof_BTHX_CAPABILITIES W \<le> outLen"
    and "\<And>c. length (BTHX_CAPABILITIES_bytes W c) = unat (sizeof_BTHX_CAPABILITIES W)"
  defines "s' \<equiv> exec (WinVhciBthxDispatch W q outLen inLen IOCTL_BTHX_QUERY_CAPABILITIES) s"
  shows "\<exists>caps. delivered (mem s) (mem s') (UserBuffer irp) (BTHX_CAPABILITIES_bytes W caps)
    \<and> calls s' = calls s @ [SpinLockAcquire, SpinLockRelease,
        RequestComplete q STATUS_SUCCESS (sizeof_BTHX_CAPABILITIES W)]
    \<and> MaxAclTransferInSize caps = body_limit WINVHCI_H4_ACL
    \<and> \<not> IsDeviceIdleCapable caps \<and> \<not> IsDeviceWakeCapable caps
    \<and> ScoSupport caps =
        (if KeGetCurrentIrql W (fw s) = 0
            \<and> NT_SUCCESS (WdfRegistryOpenKey W winvhci_registry_path (fw s))
            \<and> NT_SUCCESS (fst (WdfRegistryQueryULong W winvhci_registry_path ''WvScoSupport'' (fw s)))
         then snd (WdfRegistryQueryULong W winvhci_registry_path ''WvScoSupport'' (fw s)) else 2)
    \<and> MaxScoChannels caps =
        (if KeGetCurrentIrql W (fw s) = 0
            \<and> NT_SUCCESS (WdfRegistryOpenKey W winvhci_registry_path (fw s))
            \<and> NT_SUCCESS (fst (WdfRegistryQueryULong W winvhci_registry_path ''WvMaxScoChannels'' (fw s)))
         then snd (WdfRegistryQueryULong W winvhci_registry_path ''WvMaxScoChannels'' (fw s)) else 1)"
proof -
  let ?caps = "reported_capabilities W (fw s)"
  have s': "s' = WdfRequestCompleteWithInformation q STATUS_SUCCESS (sizeof_BTHX_CAPABILITIES W)
      ((dispatched s)\<lparr>mem := store_bytes (mem s) (UserBuffer irp) (BTHX_CAPABILITIES_bytes W ?caps)\<rparr>)"
    using assms(3,4)
    by (simp add: s'_def BthxDispatch_exec [OF assms(1,2)] bthx_switch_def bthx_query_capabilities_def
        not_less)
  have "length (BTHX_CAPABILITIES_bytes W ?caps) \<le> 2 ^ 64"
    using size_bound [of "sizeof_BTHX_CAPABILITIES W"] by (simp add: assms(5))
  then have "delivered (mem s) (mem s') (UserBuffer irp) (BTHX_CAPABILITIES_bytes W ?caps)"
    by (simp add: s' delivered_store)
  then show ?thesis
    by (intro exI [of _ ?caps]) (simp add: s' reported_capabilities_def body_limit_def knob_def
        WinVhciReadUlong_def ScoSupportHCIBypass_def split: prod.split)
qed

lemma capabilities_match_the_limits_witness:
  "\<exists>caps. MaxAclTransferInSize caps = 1021 \<and> ScoSupport caps = 2 \<and> MaxScoChannels caps = 1
     \<and> load_bytes (mem (exec (WinVhciBthxDispatch (ref_wdf ref_stack_env) 9 16 0
            IOCTL_BTHX_QUERY_CAPABILITIES) ref_radio)) 0x2004
          (length (BTHX_CAPABILITIES_bytes (ref_wdf ref_stack_env) caps))
        = BTHX_CAPABILITIES_bytes (ref_wdf ref_stack_env) caps"
proof -
  have size: "sizeof_BTHX_CAPABILITIES (ref_wdf ref_stack_env) = 16"
    "\<And>c. length (BTHX_CAPABILITIES_bytes (ref_wdf ref_stack_env) c) = 16"
    by (simp_all add: ref_wdf_def)
  have registry: "\<not> NT_SUCCESS (fst (WdfRegistryQueryULong (ref_wdf ref_stack_env) p n w))" for p n w
    by (simp add: ref_wdf_def ref_stack_env_def ref_env0_def)
  show ?thesis
    using capabilities_match_the_limits [OF ref_stack_irp [of 9], where outLen = 16 and inLen = 0
        and s = ref_radio]
    by (auto simp: size registry delivered_def body_limit_def h4_limits)
qed

end
