(* ===== verification/Setup_Order.thy ===== *)
theory Setup_Order
  imports Driver_Setup
begin

text \<open>
  The order of the calls that set a device up or create a PDO, and where it stops: a plan is the
  calls with their statuses and devices left out, and a program obeys it when it makes them in that
  order and stops at the first failure.
\<close>

text \<open>The status a set-up call came back with, and the call without its status and device.\<close>

fun call_status :: "wdf_call \<Rightarrow> NTSTATUS" where
  "call_status (QueueCreate d cfg st) = st"
| "call_status (SymbolicLinkCreate name st) = st"
| "call_status (DeviceCreate cb st) = st"
| "call_status (SpinLockCreate st) = st"
| "call_status (PdoAssignDeviceID name st) = st"
| "call_status (PdoAddHardwareID name st) = st"
| "call_status (PdoAddCompatibleID name st) = st"
| "call_status (PdoAssignInstanceID name st) = st"
| "call_status (PdoAddDeviceText name loc st) = st"
| "call_status c = STATUS_SUCCESS"

fun call_shape :: "wdf_call \<Rightarrow> wdf_call" where
  "call_shape (QueueCreate d cfg st) = QueueCreate NULL_HANDLE cfg STATUS_SUCCESS"
| "call_shape (SymbolicLinkCreate name st) = SymbolicLinkCreate name STATUS_SUCCESS"
| "call_shape (DeviceCreate cb st) = DeviceCreate cb STATUS_SUCCESS"
| "call_shape (SpinLockCreate st) = SpinLockCreate STATUS_SUCCESS"
| "call_shape (PdoAssignDeviceID name st) = PdoAssignDeviceID name STATUS_SUCCESS"
| "call_shape (PdoAddHardwareID name st) = PdoAddHardwareID name STATUS_SUCCESS"
| "call_shape (PdoAddCompatibleID name st) = PdoAddCompatibleID name STATUS_SUCCESS"
| "call_shape (PdoAssignInstanceID name st) = PdoAssignInstanceID name STATUS_SUCCESS"
| "call_shape (PdoAddDeviceText name loc st) = PdoAddDeviceText name loc STATUS_SUCCESS"
| "call_shape (DeviceSetPnpCapabilities d a b) = DeviceSetPnpCapabilities NULL_HANDLE a b"
| "call_shape c = c"

text \<open>
  \<open>follows plan cs st\<close>: the calls \<open>cs\<close> are those of the plan in its order, up to the first that fails,
  and \<open>st\<close> is that one's status, or success at the end of the plan.
\<close>

fun follows :: "wdf_call list \<Rightarrow> wdf_call list \<Rightarrow> NTSTATUS \<Rightarrow> bool" where
  "follows [] cs st \<longleftrightarrow> cs = [] \<and> st = STATUS_SUCCESS"
| "follows (p # plan) [] st \<longleftrightarrow> False"
| "follows (p # plan) (c # cs) st \<longleftrightarrow>
     call_shape c = p
     \<and> (if NT_SUCCESS (call_status c) then follows plan cs st else cs = [] \<and> st = call_status c)"

definition device_add_plan :: "wdf_call list" where
  "device_add_plan =
     [DeviceInit (WdfFdoInitSetDefaultChildListConfig Cb_WinVhciEvtChildListCreateDevice),
      DeviceInit (WdfDeviceInitSetPnpPowerEventCallbacks fdo_power_callbacks),
      DeviceInit (WdfDeviceInitSetIoType WdfDeviceIoBuffered),
      DeviceInit (WdfDeviceInitSetExclusive True),
      DeviceInit (WdfDeviceInitSetFileObjectConfig user_file_config),
      DeviceCreate None STATUS_SUCCESS, SpinLockCreate STATUS_SUCCESS,
      QueueCreate NULL_HANDLE bthx_queue_config STATUS_SUCCESS,
      QueueCreate NULL_HANDLE manual_queue_config STATUS_SUCCESS,
      QueueCreate NULL_HANDLE manual_queue_config STATUS_SUCCESS,
      QueueCreate NULL_HANDLE user_queue_config STATUS_SUCCESS,
      QueueCreate NULL_HANDLE manual_queue_config STATUS_SUCCESS,
      SymbolicLinkCreate WinVhciSymbolicLink STATUS_SUCCESS]"

lemma follows_append:
  "follows p cs st \<Longrightarrow> NT_SUCCESS st \<Longrightarrow> follows p' cs' st' \<Longrightarrow> follows (p @ p') (cs @ cs') st'"
  by (induction p cs st rule: follows.induct) (auto split: if_splits)

lemma follows_stopped:
  "follows p cs st \<Longrightarrow> \<not> NT_SUCCESS st \<Longrightarrow> follows (p @ p') cs st"
  by (induction p cs st rule: follows.induct) (auto split: if_splits)

section \<open>Programs that obey a plan\<close>

definition obeys :: "wdf_call list \<Rightarrow> ('w sys, NTSTATUS) prog \<Rightarrow> bool" where
  "obeys plan p \<longleftrightarrow>
     (\<forall>s. \<exists>cs. calls (exec p s) = calls s @ cs \<and> follows plan cs (result p s))"

lemma obeys_Return [intro]: "obeys [] (Return STATUS_SUCCESS)"
  by (simp add: obeys_def)

lemma obeys_quiet:
  assumes "\<And>s. calls (f s) = calls s" and "obeys plan p"
  shows "obeys plan (act f p)"
  using assms by (simp add: obeys_def) metis

lemma obeys_call:
  assumes "\<And>s. \<exists>c. calls (snd (g s)) = calls s @ [c] \<and> call_shape c = c0 \<and> call_status c = st (fst (g s))"
    and "\<And>x. NT_SUCCESS (st x) \<Longrightarrow> obeys plan (k x)"
  shows "obeys (c0 # plan) (atomically g (\<lambda>x. if \<not> NT_SUCCESS (st x) then Return (st x) else k x))"
  unfolding obeys_def
proof
  fix s
  obtain c where c: "calls (snd (g s)) = calls s @ [c]" "call_shape c = c0"
      "call_status c = st (fst (g s))"
    using assms(1) by blast
  show "\<exists>cs. calls (exec (atomically g (\<lambda>x. if \<not> NT_SUCCESS (st x) then Return (st x) else k x)) s)
      = calls s @ cs \<and> follows (c0 # plan) cs
        (result (atomically g (\<lambda>x. if \<not> NT_SUCCESS (st x) then Return (st x) else k x)) s)"
  proof (cases "NT_SUCCESS (st (fst (g s)))")
    case True
    with assms(2) obtain cs where "calls (exec (k (fst (g s))) (snd (g s))) = calls (snd (g s)) @ cs"
        "follows plan cs (result (k (fst (g s))) (snd (g s)))"
      unfolding obeys_def by blast
    with True c show ?thesis by (intro exI [of _ "c # cs"]) simp
  next
    case False
    with c show ?thesis by (intro exI [of _ "[c]"]) simp
  qed
qed

lemma obeys_log:
  assumes "call_shape c = c0" and "NT_SUCCESS (call_status c)" and "obeys plan p"
  shows "obeys (c0 # plan) (act (log_call c) p)"
  unfolding obeys_def
proof
  fix s
  from assms(3) obtain cs where "calls (exec p (log_call c s)) = calls (log_call c s) @ cs"
      "follows plan cs (result p (log_call c s))"
    unfolding obeys_def by blast
  with assms(1,2) show "\<exists>cs. calls (exec (act (log_call c) p) s) = calls s @ cs
      \<and> follows (c0 # plan) cs (result (act (log_call c) p) s)"
    by (intro exI [of _ "c # cs"]) simp
qed

lemma obeys_bind:
  assumes "obeys plan p" and "\<And>x. NT_SUCCESS x \<Longrightarrow> obeys plan' (k x)"
  shows "obeys (plan @ plan') (bind_prog p (\<lambda>x. if \<not> NT_SUCCESS x then Return x else k x))"
  unfolding obeys_def
proof
  fix s
  let ?q = "bind_prog p (\<lambda>x. if \<not> NT_SUCCESS x then Return x else k x)"
  obtain cs where cs: "calls (exec p s) = calls s @ cs" "follows plan cs (result p s)"
    using assms(1) unfolding obeys_def by blast
  show "\<exists>cs. calls (exec ?q s) = calls s @ cs \<and> follows (plan @ plan') cs (result ?q s)"
  proof (cases "NT_SUCCESS (result p s)")
    case True
    with assms(2) obtain cs' where
      "calls (exec (k (result p s)) (exec p s)) = calls (exec p s) @ cs'"
      "follows plan' cs' (result (k (result p s)) (exec p s))"
      unfolding obeys_def by blast
    with True cs show ?thesis
      by (intro exI [of _ "cs @ cs'"]) (simp add: follows_append)
  next
    case False
    with cs show ?thesis
      by (intro exI [of _ cs]) (simp add: follows_stopped)
  qed
qed

section \<open>Device creation\<close>

lemma create_queue_obeys:
  assumes "obeys plan k"
  shows "obeys (QueueCreate NULL_HANDLE cfg STATUS_SUCCESS # plan) (create_queue W d cfg field k)"
  unfolding create_queue_def
  using assms by (intro obeys_call [where st = "\<lambda>x. x"]) (auto split: prod.split)

lemma user_init_obeys:
  "obeys [DeviceInit (WdfDeviceInitSetIoType WdfDeviceIoBuffered),
          DeviceInit (WdfDeviceInitSetExclusive True),
          DeviceInit (WdfDeviceInitSetFileObjectConfig user_file_config)] WinVhciUserInitDevice"
  unfolding WinVhciUserInitDevice_def by (intro obeys_log obeys_Return) simp_all

lemma fdo_queues_obey:
  "obeys [QueueCreate NULL_HANDLE bthx_queue_config STATUS_SUCCESS,
          QueueCreate NULL_HANDLE manual_queue_config STATUS_SUCCESS,
          QueueCreate NULL_HANDLE manual_queue_config STATUS_SUCCESS] (WinVhciFdoCreateQueues W d)"
  unfolding WinVhciFdoCreateQueues_def
  by (intro obeys_quiet create_queue_obeys obeys_Return) simp

lemma user_queues_obey:
  "obeys [QueueCreate NULL_HANDLE user_queue_config STATUS_SUCCESS,
          QueueCreate NULL_HANDLE manual_queue_config STATUS_SUCCESS,
          SymbolicLinkCreate WinVhciSymbolicLink STATUS_SUCCESS] (WinVhciUserCreateQueues W d)"
  unfolding WinVhciUserCreateQueues_def
  by (intro obeys_quiet create_queue_obeys obeys_call [where st = "\<lambda>x. x"] obeys_Return)
    (auto split: prod.split)

lemma device_add_plan_parts:
  "device_add_plan =
     DeviceInit (WdfFdoInitSetDefaultChildListConfig Cb_WinVhciEvtChildListCreateDevice)
     # DeviceInit (WdfDeviceInitSetPnpPowerEventCallbacks fdo_power_callbacks)
     # [DeviceInit (WdfDeviceInitSetIoType WdfDeviceIoBuffered),
        DeviceInit (WdfDeviceInitSetExclusive True),
        DeviceInit (WdfDeviceInitSetFileObjectConfig user_file_config)]
     @ DeviceCreate None STATUS_SUCCESS # SpinLockCreate STATUS_SUCCESS
     # [QueueCreate NULL_HANDLE bthx_queue_config STATUS_SUCCESS,
        QueueCreate NULL_HANDLE manual_queue_config STATUS_SUCCESS,
        QueueCreate NULL_HANDLE manual_queue_config STATUS_SUCCESS]
     @ [QueueCreate NULL_HANDLE user_queue_config STATUS_SUCCESS,
        QueueCreate NULL_HANDLE manual_queue_config STATUS_SUCCESS,
        SymbolicLinkCreate WinVhciSymbolicLink STATUS_SUCCESS] @ []"
  by (simp add: device_add_plan_def)

lemma DeviceAdd_obeys: "obeys device_add_plan (WinVhciEvtDeviceAdd W)"
  unfolding device_add_plan_parts WinVhciEvtDeviceAdd_def split_def
  by (intro obeys_log obeys_bind user_init_obeys fdo_queues_obey user_queues_obey obeys_Return
      obeys_call [where st = fst] obeys_call [where st = "\<lambda>x. x"])
    (auto simp: create_fdo_def create_lock_def split: prod.split)

section \<open>PDO creation\<close>

definition pdo_plan :: "wdf_call list" where
  "pdo_plan =
     [PdoAssignDeviceID WINVHCI_RADIO_DEVICE_ID STATUS_SUCCESS,
      PdoAddHardwareID WINVHCI_RADIO_HARDWARE_ID STATUS_SUCCESS,
      PdoAddCompatibleID WINVHCI_RADIO_COMPAT_ID STATUS_SUCCESS,
      PdoAssignInstanceID ''0'' STATUS_SUCCESS,
      PdoAddDeviceText ''Virtual Bluetooth Radio'' ''winvhci'' STATUS_SUCCESS,
      DeviceInit (WdfPdoInitSetDefaultLocale 0x409),
      DeviceInit WdfPdoInitAllowForwardingRequestToParent,
      DeviceInit (WdfDeviceInitSetPnpPowerEventCallbacks pdo_power_callbacks),
      DeviceCreate (Some Cb_WinVhciPdoEvtCleanup) STATUS_SUCCESS,
      DeviceSetPnpCapabilities NULL_HANDLE True True,
      QueueCreate NULL_HANDLE pdo_queue_config STATUS_SUCCESS]"

text \<open>
  The effect that goes with the calls: an object was made when its creation is among them and
  succeeded, and then the context, the capabilities and the queue are that object's.
\<close>

definition pdo_effect ::
  "'w wdf \<Rightarrow> ULONG \<Rightarrow> 'w sys \<Rightarrow> 'w sys \<Rightarrow> wdf_call list \<Rightarrow> bool" where
  "pdo_effect W i s s' cs \<longleftrightarrow>
     mem s' = mem s \<and> pool s' = pool s
     \<and> (if \<exists>ok. DeviceCreate (Some Cb_WinVhciPdoEvtCleanup) ok \<in> set cs \<and> NT_SUCCESS ok then
          \<exists>w ok pdo w' first qst. WdfDeviceCreate W w = ((ok, pdo), w')
            \<and> cs = first @ [DeviceCreate (Some Cb_WinVhciPdoEvtCleanup) ok,
                DeviceSetPnpCapabilities pdo True True, QueueCreate pdo pdo_queue_config qst]
            \<and> fdo s' = (fdo s)\<lparr>RadiosAlive := RadiosAlive (fdo s) + 1\<rparr>
            \<and> pdos s' = (pdos s)(pdo \<mapsto> \<lparr>Fdo = Device (fdo s), RadioId = i\<rparr>)
        else fdo s' = fdo s \<and> pdos s' = pdos s)"

definition makes_pdo :: "'w wdf \<Rightarrow> ULONG \<Rightarrow> wdf_call list \<Rightarrow> ('w sys, NTSTATUS) prog \<Rightarrow> bool" where
  "makes_pdo W i plan p \<longleftrightarrow>
     (\<forall>s. \<exists>cs. calls (exec p s) = calls s @ cs \<and> follows plan cs (result p s)
        \<and> pdo_effect W i s (exec p s) cs)"

lemma pdo_effect_Cons:
  assumes "pdo_effect W i s1 s' cs" and "\<And>cb ok. c \<noteq> DeviceCreate cb ok"
    and "fdo s1 = fdo s" "pdos s1 = pdos s" "mem s1 = mem s" "pool s1 = pool s"
  shows "pdo_effect W i s s' (c # cs)"
proof (cases "\<exists>ok. DeviceCreate (Some Cb_WinVhciPdoEvtCleanup) ok \<in> set cs \<and> NT_SUCCESS ok")
  case True
  then obtain w ok pdo w' first qst where "WdfDeviceCreate W w = ((ok, pdo), w')"
      "c # cs = (c # first) @ [DeviceCreate (Some Cb_WinVhciPdoEvtCleanup) ok,
          DeviceSetPnpCapabilities pdo True True, QueueCreate pdo pdo_queue_config qst]"
      "fdo s' = (fdo s)\<lparr>RadiosAlive := RadiosAlive (fdo s) + 1\<rparr>"
      "pdos s' = (pdos s)(pdo \<mapsto> \<lparr>Fdo = Device (fdo s), RadioId = i\<rparr>)"
    using assms(1,3-6) unfolding pdo_effect_def by auto
  moreover have "mem s' = mem s" "pool s' = pool s"
    using assms(1,5,6) by (simp_all add: pdo_effect_def)
  ultimately show ?thesis
    using True unfolding pdo_effect_def by (metis list.set_intros(2))
next
  case False
  moreover have "DeviceCreate (Some Cb_WinVhciPdoEvtCleanup) ok \<noteq> c" for ok
    using assms(2) by metis
  ultimately show ?thesis
    using assms(1,3-6) by (auto simp: pdo_effect_def)
qed

lemma or_fail_makes_pdo:
  assumes "makes_pdo W i plan k"
    and "\<And>st. call_shape (c st) = c0 \<and> call_status (c st) = st"
    and "\<And>st cb ok. c st \<noteq> DeviceCreate cb ok"
  shows "makes_pdo W i (c0 # plan) (or_fail c f k)"
  unfolding makes_pdo_def
proof
  fix s :: "'a sys"
  obtain st w where f: "f (fw s) = (st, w)"
    by (metis surj_pair)
  define s1 where "s1 = log_call (c st) (s\<lparr>fw := w\<rparr>)"
  have s1: "calls s1 = calls s @ [c st]" "fdo s1 = fdo s" "pdos s1 = pdos s" "mem s1 = mem s"
      "pool s1 = pool s"
    by (simp_all add: s1_def)
  show "\<exists>cs. calls (exec (or_fail c f k) s) = calls s @ cs
      \<and> follows (c0 # plan) cs (result (or_fail c f k) s)
      \<and> pdo_effect W i s (exec (or_fail c f k) s) cs"
  proof (cases "NT_SUCCESS st")
    case True
    then have run: "exec (or_fail c f k) s = exec k s1" "result (or_fail c f k) s = result k s1"
      by (simp_all add: or_fail_def f s1_def)
    obtain cs where cs: "calls (exec k s1) = calls s1 @ cs" "follows plan cs (result k s1)"
        "pdo_effect W i s1 (exec k s1) cs"
      using assms(1) unfolding makes_pdo_def by blast
    show ?thesis
      unfolding run
      by (intro exI [of _ "c st # cs"] conjI pdo_effect_Cons [OF cs(3) assms(3)])
        (simp_all add: s1 cs True assms(2))
  next
    case False
    then show ?thesis
      by (intro exI [of _ "[c st]"]) (simp add: or_fail_def f assms(2) pdo_effect_def assms(3) [symmetric])
  qed
qed

lemma log_makes_pdo:
  assumes "makes_pdo W i plan k" and "call_shape c = c0" and "NT_SUCCESS (call_status c)"
    and "\<And>cb ok. c \<noteq> DeviceCreate cb ok"
  shows "makes_pdo W i (c0 # plan) (act (log_call c) k)"
  unfolding makes_pdo_def
proof
  fix s :: "'a sys"
  obtain cs where cs: "calls (exec k (log_call c s)) = calls (log_call c s) @ cs"
      "follows plan cs (result k (log_call c s))"
      "pdo_effect W i (log_call c s) (exec k (log_call c s)) cs"
    using assms(1) unfolding makes_pdo_def by blast
  have "pdo_effect W i s (exec k (log_call c s)) (c # cs)"
    by (rule pdo_effect_Cons [OF cs(3) assms(4)]) simp_all
  with cs(1,2) assms(2,3) show "\<exists>cs. calls (exec (act (log_call c) k) s) = calls s @ cs
      \<and> follows (c0 # plan) cs (result (act (log_call c) k) s)
      \<and> pdo_effect W i s (exec (act (log_call c) k) s) cs"
    by (intro exI [of _ "c # cs"]) simp
qed

text \<open>The object, its context, its count, its capabilities and its queue.\<close>

lemma object_makes_pdo:
  assumes "\<And>status pdo. rest (status, pdo) =
      (if \<not> NT_SUCCESS status then Return status
       else act (fill_pdo_context i pdo) (act count_pdo
         (act (log_call (DeviceSetPnpCapabilities pdo True True))
           (atomically
             (\<lambda>s. case WdfIoQueueCreate W pdo pdo_queue_config (fw s) of
                ((status, queue), w') \<Rightarrow>
                  (status, log_call (QueueCreate pdo pdo_queue_config status) (s\<lparr>fw := w'\<rparr>)))
             (\<lambda>status. if \<not> NT_SUCCESS status then Return status else Return STATUS_SUCCESS)))))"
  shows "makes_pdo W i
    [DeviceCreate (Some Cb_WinVhciPdoEvtCleanup) STATUS_SUCCESS,
     DeviceSetPnpCapabilities NULL_HANDLE True True,
     QueueCreate NULL_HANDLE pdo_queue_config STATUS_SUCCESS] (atomically (create_pdo W) rest)"
    (is "makes_pdo W i ?plan _")
  unfolding makes_pdo_def
proof
  fix s :: "'a sys"
  let ?p = "atomically (create_pdo W) rest"
  obtain ok pdo w1 where d: "WdfDeviceCreate W (fw s) = ((ok, pdo), w1)"
    by (metis surj_pair)
  obtain qst q w2 where c: "WdfIoQueueCreate W pdo pdo_queue_config w1 = ((qst, q), w2)"
    by (metis surj_pair)
  show "\<exists>cs. calls (exec ?p s) = calls s @ cs
      \<and> follows ?plan cs (result ?p s)
      \<and> pdo_effect W i s (exec ?p s) cs"
  proof (cases "NT_SUCCESS ok")
    case False
    with d show ?thesis
      by (intro exI [of _ "[DeviceCreate (Some Cb_WinVhciPdoEvtCleanup) ok]"])
        (simp add: create_pdo_def assms pdo_effect_def)
  next
    case True
    let ?cs = "[DeviceCreate (Some Cb_WinVhciPdoEvtCleanup) ok,
        DeviceSetPnpCapabilities pdo True True, QueueCreate pdo pdo_queue_config qst]"
    have s': "calls (exec ?p s) = calls s @ ?cs" "mem (exec ?p s) = mem s" "pool (exec ?p s) = pool s"
        "fdo (exec ?p s) = (fdo s)\<lparr>RadiosAlive := RadiosAlive (fdo s) + 1\<rparr>"
        "pdos (exec ?p s) = (pdos s)(pdo \<mapsto> \<lparr>Fdo = Device (fdo s), RadioId = i\<rparr>)"
        "result ?p s = (if NT_SUCCESS qst then STATUS_SUCCESS else qst)"
      using True d c by (simp_all add: create_pdo_def fill_pdo_context_def count_pdo_def assms)
    have "pdo_effect W i s (exec ?p s) ?cs"
      unfolding pdo_effect_def using True d s'(2-5) by (auto simp del: exec_simps)
    moreover have "follows ?plan ?cs (result ?p s)"
      using True s'(6) by simp
    ultimately show ?thesis
      using s'(1) by blast
  qed
qed

lemma CreateDevice_makes_pdo: "makes_pdo W i pdo_plan (WinVhciEvtChildListCreateDevice W i)"
  unfolding WinVhciEvtChildListCreateDevice_def pdo_plan_def
  by (intro or_fail_makes_pdo log_makes_pdo object_makes_pdo) simp_all

end
