(* ===== verification/Radio_Properties.thy ===== *)
theory Radio_Properties
  imports Bthx_Properties Setup_Order
begin

text \<open>
  The radio's lifetime: the control packet that creates it, the callbacks that start and stop its
  stack, the close of the handle and the teardown of the device; and the statistics.
\<close>

section \<open>The control packet\<close>

text \<open>The four replies of the control packet that create no radio.\<close>

definition control_refused :: "UCHAR list \<Rightarrow> ULONG \<Rightarrow> NTSTATUS option" where
  "control_refused b n =
     (if n \<noteq> 1 then Some STATUS_INVALID_PARAMETER
      else if and (b ! 0) 0x3C \<noteq> 0 then Some STATUS_INVALID_PARAMETER
      else if and (b ! 0) 0xC0 \<noteq> 0 then Some STATUS_NOT_SUPPORTED
      else None)"

lemma low_byte: "unat (ucast (and x 0xFF) :: UCHAR) = unat (x :: ULONG) mod 256"
proof -
  have "and x 0xFF = take_bit 8 x"
    by (simp add: take_bit_eq_mask mask_eq_exp_minus_1)
  then show ?thesis
    by (simp add: unsigned_ucast_eq unsigned_take_bit_eq) (simp add: take_bit_eq_mod)
qed

lemma reply_id:
  "unat (ucast (and i 0xFF) :: UCHAR) + 256 * unat (ucast (and (drop_bit 8 i) 0xFF) :: UCHAR)
     = unat (i :: ULONG) mod 65536"
proof -
  have "unat (drop_bit 8 i) = unat i div 256"
    using drop_bit_eq_div [of 8 "unat i"] by (simp add: unat_drop_bit_eq)
  then show ?thesis
    using mod_mult2_eq [of "unat i" 256 256] by (simp add: low_byte mult.commute)
qed

text \<open>
  C28. A well-formed control packet while no radio is present creates one: the next id is taken and
  becomes the current one, the child with that id is reported, and the client is sent
  \<open>FF FF <opcode> <id>\<close>, the id little-endian modulo 65536.
\<close>

theorem control_packet_creates_a_radio:
  fixes W :: "'w wdf" and s :: "'w sys" and b :: "UCHAR list"
  assumes "control_refused b n = None" and "\<not> RadioPresent (fdo s)"
    and "NT_SUCCESS (fst (WdfChildListAddOrUpdateChildDescriptionAsPresent W
            (NextRadioId (fdo s)) (fw s)))"
  defines "i \<equiv> NextRadioId (fdo s)"
  shows "\<exists>s1 lo hi.
      result (WinVhciHandleControl W b n) s = STATUS_SUCCESS
      \<and> exec (WinVhciHandleControl W b n) s =
          exec (WinVhciQueueToUser W 0xFF [0xFF, b ! 0, lo, hi] 4) s1
      \<and> unat lo + 256 * unat hi = unat i mod 65536
      \<and> fdo s1 = (fdo s)\<lparr>RadioPresent := True, CurrentRadioId := i, NextRadioId := i + 1\<rparr>
      \<and> fw s1 = snd (WdfChildListAddOrUpdateChildDescriptionAsPresent W i (fw s))
      \<and> pool s1 = pool s \<and> mem s1 = mem s
      \<and> (\<exists>st. calls s1 = calls s @ [SpinLockAcquire, SpinLockRelease, ChildListAdd i st])"
proof -
  define s0 where "s0 = snd (claim_radio_locked s)"
  define s1 where "s1 = snd (WinVhciAddRadio W i s0)"
  have claim: "claim_radio_locked s = (Some i, s0)"
    "fdo s0 = (fdo s)\<lparr>RadioPresent := True, CurrentRadioId := i, NextRadioId := i + 1\<rparr>"
    "fw s0 = fw s" "mem s0 = mem s" "pool s0 = pool s"
    "calls s0 = calls s @ [SpinLockAcquire, SpinLockRelease]"
    using assms(2) by (simp_all add: s0_def claim_radio_locked_def Let_def i_def)
  have ok: "NT_SUCCESS (fst (WinVhciAddRadio W i s0))"
    using assms(3) by (simp add: claim(3) i_def)
  have op: "n = 1" "and (b ! 0) 0x3C = 0" "and (b ! 0) 0xC0 = 0"
    using assms(1) by (simp_all add: control_refused_def split: if_splits)
  have "result (WinVhciHandleControl W b n) s = STATUS_SUCCESS"
    "exec (WinVhciHandleControl W b n) s =
       exec (WinVhciQueueToUser W 0xFF [0xFF, b ! 0, ucast (and i 0xFF),
               ucast (and (drop_bit 8 i) 0xFF)] 4) s1"
    using op ok claim(1)
    by (simp_all add: WinVhciHandleControl_def Let_def s1_def control_reply_body_def
        WINVHCI_H4_VENDOR_def)
  moreover have "fdo s1 = (fdo s)\<lparr>RadioPresent := True, CurrentRadioId := i, NextRadioId := i + 1\<rparr>"
    "fw s1 = snd (WdfChildListAddOrUpdateChildDescriptionAsPresent W i (fw s))"
    "pool s1 = pool s" "mem s1 = mem s"
    "\<exists>st. calls s1 = calls s @ [SpinLockAcquire, SpinLockRelease, ChildListAdd i st]"
    using claim by (simp_all add: s1_def)
  ultimately show ?thesis
    using reply_id [of i] by blast
qed

lemma control_packet_creates_a_radio_witness:
  "result (WinVhciHandleControl (ref_wdf ref_env0) [0] 1) ref_client = STATUS_SUCCESS"
  using control_packet_creates_a_radio [of "[0]" 1 ref_client "ref_wdf ref_env0"]
  by (auto simp: control_refused_def) (simp add: ref_wdf_def ref_env0_def)

text \<open>
  C29. A control packet that creates no radio sends no reply and leaves every channel alone. One with
  a wrong length, reserved bits or a quirk bit has no effect at all; while a radio is present it is
  refused and that radio stays the current one; and when the child cannot be reported the radio is
  withdrawn again, its id used up.
\<close>

theorem refused_control_packets:
  fixes W :: "'w wdf" and s :: "'w sys" and b :: "UCHAR list" and n :: ULONG
  defines "p \<equiv> WinVhciHandleControl W b n" and "i \<equiv> NextRadioId (fdo s)"
  shows "(case control_refused b n of
      Some st \<Rightarrow> result p s = st \<and> exec p s = s
    | None \<Rightarrow>
        if RadioPresent (fdo s) then
          result p s = STATUS_INVALID_DEVICE_STATE \<and> exec p s = release (acquire s)
        else
          (let (st, w') = WdfChildListAddOrUpdateChildDescriptionAsPresent W i (fw s) in
           if NT_SUCCESS st then result p s = STATUS_SUCCESS
           else result p s = st \<and> fw (exec p s) = w' \<and> mem (exec p s) = mem s
             \<and> pool (exec p s) = pool s
             \<and> fdo (exec p s) =
                 (fdo s)\<lparr>RadioPresent := False, CurrentRadioId := i, NextRadioId := i + 1\<rparr>
             \<and> calls (exec p s) = calls s @ [SpinLockAcquire, SpinLockRelease, ChildListAdd i st,
                 SpinLockAcquire, SpinLockRelease]))"
proof (cases "control_refused b n")
  case (Some st)
  then show ?thesis
    by (auto simp: control_refused_def p_def WinVhciHandleControl_def Let_def split: if_splits)
next
  case None
  then have op: "n = 1" "and (b ! 0) 0x3C = 0" "and (b ! 0) 0xC0 = 0"
    by (simp_all add: control_refused_def split: if_splits)
  with None show ?thesis
    by (auto simp: p_def i_def WinVhciHandleControl_def Let_def claim_radio_locked_def
        unclaim_radio_locked_def split: prod.split)
qed

section \<open>The power callbacks\<close>

text \<open>
  C22. Only the current radio's power callbacks count. A late callback of an earlier radio, or of one
  already replaced, leaves the device context, the queues and the pool as they are. For the current
  radio, entering D0 opens the admission of writes and changes nothing else; leaving it closes the
  admission and frees both stack backlogs, and leaves the packets for userspace, and the waiting
  reads, alone.
\<close>

theorem only_the_current_radios_callbacks_count:
  fixes s :: "'w sys" and pc :: WINVHCI_PDO_CONTEXT
  defines "entry \<equiv> exec (WinVhciPdoEvtD0Entry pc) s" and "leave \<equiv> exec (WinVhciPdoEvtD0Exit pc) s"
  shows "fw entry = fw s \<and> fw leave = fw s \<and> mem entry = mem s \<and> mem leave = mem s
    \<and> pool entry = pool s
    \<and> (if RadioId pc = CurrentRadioId (fdo s) then
         fdo entry = (fdo s)\<lparr>RadioStarted := True\<rparr>
         \<and> fdo leave = (fdo s)\<lparr>RadioStarted := False, PendingEventList := [], PendingEventCount := 0,
                               PendingDataList := [], PendingDataCount := 0\<rparr>
         \<and> pool leave = pool s - int (length (PendingEventList (fdo s)))
                               - int (length (PendingDataList (fdo s)))
       else fdo entry = fdo s \<and> fdo leave = fdo s \<and> pool leave = pool s)"
  by (simp add: entry_def leave_def WinVhciPdoEvtD0Entry_def WinVhciPdoEvtD0Exit_def
      RadioStackDown_fdo) (simp add: WinVhciRadioStackDown_def Let_def)

section \<open>Closing the handle and tearing the device down\<close>

text \<open>
  C25. Closing the handle, run without interference: the client and the radio are gone, every backlog
  is freed, no read of the stack is left waiting on either queue and both queues run again; reads of
  the handle itself are left to the framework. The child is withdrawn first, and only if there was
  one.
\<close>

theorem close_leaves_nothing_behind:
  fixes W :: "'w wdf" and s :: "'w sys"
  assumes "wdf_queues W contents" and "queues_distinct (fdo s)"
  defines "s' \<equiv> exec (WinVhciEvtFileClose W) s"
  shows "Owner (fdo s') = NULL_HANDLE \<and> \<not> RadioPresent (fdo s')
    \<and> queued_packets (fdo s') = 0 \<and> pool s' = pool s - queued_packets (fdo s)
    \<and> HostToCtrlCount (fdo s') = 0 \<and> PendingEventCount (fdo s') = 0 \<and> PendingDataCount (fdo s') = 0
    \<and> (\<forall>t. stack_waiting contents t s' = []) \<and> user_waiting contents s' = user_waiting contents s
    \<and> CurrentRadioId (fdo s') = CurrentRadioId (fdo s) \<and> NextRadioId (fdo s') = NextRadioId (fdo s)
    \<and> calls s' = calls s @ [SpinLockAcquire, SpinLockRelease]
        @ (if RadioPresent (fdo s) then [ChildListScan] else [])
        @ [QueuePurge (ReadEventQueue (fdo s)), QueuePurge (ReadDataQueue (fdo s)),
           QueueStart (ReadEventQueue (fdo s)), QueueStart (ReadDataQueue (fdo s)),
           SpinLockAcquire, SpinLockRelease]"
  using assms(2)
  by (simp add: s'_def WinVhciEvtFileClose_def close_locked_def close_release_def purge_queue_def
      start_queue_def queued_packets_def stack_waiting_def user_waiting_def stack_queue_def
      queues_distinct_def wdf_queues.purge_contents [OF assms(1)]
      wdf_queues.start_contents [OF assms(1)] wdf_queues.scan_contents [OF assms(1)] Let_def)

lemma close_leaves_nothing_behind_witness:
  "stack_waiting ref_contents WINVHCI_H4_EVENT
     (exec (WinVhciEvtFileClose (ref_wdf ref_env0)) (ref_park 8 2 ref_radio)) = []"
proof -
  have "queues_distinct (fdo (ref_park 8 2 ref_radio))"
    by (simp add: queues_distinct_def)
  from close_leaves_nothing_behind [OF ref.wdf_queues_axioms this] show ?thesis
    by blast
qed

text \<open>
  C26. Teardown frees everything: after it no packet is queued, no packet allocation is out if none
  was lost before, and neither of the stack's queues holds a read, whether or not a client ever
  closed the handle. Queues that were never created are not purged.
\<close>

theorem teardown_frees_everything:
  fixes W :: "'w wdf" and s :: "'w sys"
  assumes "wdf_queues W contents" and "pool s = queued_packets (fdo s)"
  defines "s' \<equiv> exec (WinVhciEvtSelfManagedIoCleanup W) s"
  shows "queued_packets (fdo s') = 0 \<and> pool s' = 0
    \<and> (\<forall>q \<in> {ReadEventQueue (fdo s), ReadDataQueue (fdo s)} - {NULL_HANDLE}. contents (fw s') q = [])
    \<and> calls s' = calls s
        @ (if ReadEventQueue (fdo s) \<noteq> NULL_HANDLE then [QueuePurge (ReadEventQueue (fdo s))] else [])
        @ (if ReadDataQueue (fdo s) \<noteq> NULL_HANDLE then [QueuePurge (ReadDataQueue (fdo s))] else [])
        @ [SpinLockAcquire, SpinLockRelease]"
  using assms(2)
  by (auto simp: s'_def WinVhciEvtSelfManagedIoCleanup_def purge_if_created_def purge_queue_def
      queued_packets_def wdf_queues.purge_contents [OF assms(1)])

lemma teardown_frees_everything_witness:
  "pool (exec (WinVhciEvtSelfManagedIoCleanup (ref_wdf ref_env0)) ref_queued) = 0"
  using teardown_frees_everything [OF ref.wdf_queues_axioms [of ref_env0], where s = ref_queued]
  by (simp add: ref_queued_def queued_packets_def)

section \<open>Statistics\<close>

lemma store_bytes_overwrite:
  assumes "length xs = length ys" and "length ys \<le> 2 ^ 64"
  shows "store_bytes (store_bytes m a xs) a ys = store_bytes m a ys"
  using assms by (auto simp: store_bytes_at fun_eq_iff)

definition reported_stats :: "WINVHCI_FDO_CONTEXT \<Rightarrow> WINVHCI_STATS" where
  "reported_stats c =
     \<lparr>st_Size = 52, st_DropsNoClient = DropsNoClient c, st_DropsAllocFailed = DropsAllocFailed c,
      st_HostToCtrlCount = HostToCtrlCount c, st_HostToCtrlPeak = HostToCtrlPeak c,
      st_PendingEventCount = PendingEventCount c, st_PendingEventPeak = PendingEventPeak c,
      st_PendingDataCount = PendingDataCount c, st_PendingDataPeak = PendingDataPeak c,
      st_WritesTotal = WritesTotal c, st_QueuedToUserTotal = QueuedToUserTotal c,
      st_WritesNoRadio = WritesNoRadio c, st_RadiosAlive = RadiosAlive c\<rparr>"

text \<open>The thirteen words, read back as the structure.\<close>

lemma stats_readback:
  assumes "load_bytes m p 52 =
      concat (map ulong_bytes (52 # stats_counters c @ [RadiosAlive c]))"
  shows "load_stats m p = reported_stats c"
proof -
  have "load_ulongs m p (length (52 # stats_counters c @ [RadiosAlive c])) =
      52 # stats_counters c @ [RadiosAlive c]"
    using assms by (intro load_ulongs_bytes) (simp add: stats_counters_def)
  then show ?thesis
    by (simp add: stats_counters_def load_stats_def reported_stats_def add.assoc)
qed

lemma stats_short: "outLen < sizeof_WINVHCI_STATS \<longleftrightarrow> unat outLen < 52"
  by (simp add: sizeof_WINVHCI_STATS_def word_less_nat_alt)

text \<open>The three stores of the handler leave the thirteen words.\<close>

lemma stats_stores:
  fixes s :: "'w sys" and out :: PVOID
  defines "s' \<equiv> stats_radios out (stats_locked out (stats_clear out s))"
    and "all \<equiv> concat (map ulong_bytes (52 # stats_counters (fdo s) @ [RadiosAlive (fdo s)]))"
  shows "delivered (mem s) (mem s') out all" and "load_bytes (mem s') out 52 = all"
proof -
  let ?c = "concat (map ulong_bytes (stats_counters (fdo s)))"
  have c: "length ?c = 44" "length all = 52"
    by (simp_all add: stats_counters_def all_def)
  have "all = ulong_bytes 52 @ ?c @ ulong_bytes (RadiosAlive (fdo s))"
    by (simp add: all_def)
  then have split: "store_bytes m out all =
      store_bytes (store_bytes (store_bytes m out (ulong_bytes 52)) (out + 4) ?c) (out + 48)
        (ulong_bytes (RadiosAlive (fdo s)))" for m
    using c(1) by (simp only: store_bytes_append) (simp add: add.assoc)
  have "mem s' = store_bytes (store_bytes (mem s) out (replicate 52 0)) out all"
    unfolding split
    by (simp add: s'_def stats_clear_def stats_locked_def stats_radios_def Let_def
        sizeof_WINVHCI_STATS_def)
  also have "\<dots> = store_bytes (mem s) out all"
    by (rule store_bytes_overwrite) (simp_all only: c length_replicate, simp)
  finally have m: "mem s' = store_bytes (mem s) out all" .
  have "length all \<le> 2 ^ 64"
    by (simp only: c) simp
  then show "delivered (mem s) (mem s') out all"
    unfolding m by (rule delivered_store)
  then show "load_bytes (mem s') out 52 = all"
    unfolding delivered_def c(2) by blast
qed

lemma DeviceControl_refused:
  assumes "WdfRequestRetrieveOutputBuffer W q sizeof_WINVHCI_STATS = (st, out, len)"
    and "\<not> (code = IOCTL_WINVHCI_GET_STATS \<and> 52 \<le> unat outLen \<and> NT_SUCCESS st)"
  obtains e info where "\<not> NT_SUCCESS e"
    "exec (WinVhciEvtIoDeviceControl W q outLen inLen code) s =
       WdfRequestCompleteWithInformation q e info s"
proof -
  consider "code \<noteq> IOCTL_WINVHCI_GET_STATS"
    | "code = IOCTL_WINVHCI_GET_STATS" "unat outLen < 52"
    | "code = IOCTL_WINVHCI_GET_STATS" "52 \<le> unat outLen" "\<not> NT_SUCCESS st"
    using assms(2) by linarith
  then show ?thesis
  proof cases
    case 1
    then show ?thesis
      by (intro that [of STATUS_INVALID_DEVICE_REQUEST 0])
        (simp_all add: NT_SUCCESS_errors WinVhciEvtIoDeviceControl_def WdfRequestComplete_def)
  next
    case 2
    then show ?thesis
      by (intro that [of STATUS_BUFFER_TOO_SMALL sizeof_WINVHCI_STATS])
        (simp_all add: NT_SUCCESS_errors WinVhciEvtIoDeviceControl_def stats_short)
  next
    case 3
    then show ?thesis
      by (intro that [of st 0])
        (simp_all add: WinVhciEvtIoDeviceControl_def stats_short assms(1) WdfRequestComplete_def)
  qed
qed

text \<open>The request that is answered.\<close>

lemma DeviceControl_answered:
  fixes W :: "'w wdf" and s :: "'w sys" and q :: WDFREQUEST and outLen inLen :: SIZE_T
  assumes "WdfRequestRetrieveOutputBuffer W q sizeof_WINVHCI_STATS = (st, out, len)"
    and "52 \<le> unat outLen" and "NT_SUCCESS st"
  defines "s' \<equiv> exec (WinVhciEvtIoDeviceControl W q outLen inLen IOCTL_WINVHCI_GET_STATS) s"
  shows "delivered (mem s) (mem s') out
      (concat (map ulong_bytes (52 # stats_counters (fdo s) @ [RadiosAlive (fdo s)])))"
    and "load_stats (mem s') out = reported_stats (fdo s)"
    and "fdo s' = fdo s" and "fw s' = fw s" and "pool s' = pool s"
    and "calls s' = calls s @ [SpinLockAcquire, SpinLockRelease, RequestComplete q STATUS_SUCCESS 52]"
proof -
  have s': "s' = WdfRequestCompleteWithInformation q STATUS_SUCCESS sizeof_WINVHCI_STATS
      (stats_radios out (stats_locked out (stats_clear out s)))"
    using assms(2,3) by (simp add: s'_def WinVhciEvtIoDeviceControl_def stats_short assms(1))
  then have m: "mem s' = mem (stats_radios out (stats_locked out (stats_clear out s)))"
    by simp
  show "delivered (mem s) (mem s') out
      (concat (map ulong_bytes (52 # stats_counters (fdo s) @ [RadiosAlive (fdo s)])))"
    unfolding m by (rule stats_stores)
  show "load_stats (mem s') out = reported_stats (fdo s)"
    unfolding m by (rule stats_readback [OF stats_stores(2)])
  show "fdo s' = fdo s" "fw s' = fw s" "pool s' = pool s"
    "calls s' = calls s @ [SpinLockAcquire, SpinLockRelease, RequestComplete q STATUS_SUCCESS 52]"
    by (simp_all add: s' stats_clear_def stats_locked_def stats_radios_def Let_def
        sizeof_WINVHCI_STATS_def)
qed

text \<open>
  C31. The statistics request copies a consistent snapshot: exactly 52 bytes are written, thirteen
  little-endian words, the size first, then the eleven counters as they are in one state, then the
  number of live radios, so that read as a \<open>WINVHCI_STATS\<close> each field holds its counter; nothing else of memory or of the driver changes, and the request is
  completed with 52. Any other code, or a shorter buffer, writes nothing.
\<close>

theorem statistics_are_a_snapshot:
  fixes W :: "'w wdf" and s :: "'w sys" and q :: WDFREQUEST and outLen inLen :: SIZE_T
    and code :: ULONG
  assumes "WdfRequestRetrieveOutputBuffer W q sizeof_WINVHCI_STATS = (st, out, len)"
  defines "s' \<equiv> exec (WinVhciEvtIoDeviceControl W q outLen inLen code) s"
  shows "if code = IOCTL_WINVHCI_GET_STATS \<and> 52 \<le> unat outLen \<and> NT_SUCCESS st then
      delivered (mem s) (mem s') out
        (concat (map ulong_bytes (52 # stats_counters (fdo s) @ [RadiosAlive (fdo s)])))
      \<and> load_stats (mem s') out = reported_stats (fdo s)
      \<and> fdo s' = fdo s \<and> fw s' = fw s \<and> pool s' = pool s
      \<and> calls s' = calls s @ [SpinLockAcquire, SpinLockRelease,
                              RequestComplete q STATUS_SUCCESS 52]
    else \<exists>e info. \<not> NT_SUCCESS e \<and> s' = WdfRequestCompleteWithInformation q e info s"
proof (cases "code = IOCTL_WINVHCI_GET_STATS \<and> 52 \<le> unat outLen \<and> NT_SUCCESS st")
  case True
  then show ?thesis
    using DeviceControl_answered [OF assms(1), where s = s and outLen = outLen and inLen = inLen]
    by (simp add: s'_def)
next
  case False
  obtain e info where "\<not> NT_SUCCESS e" "s' = WdfRequestCompleteWithInformation q e info s"
    unfolding s'_def by (rule DeviceControl_refused [OF assms(1) False])
  with False show ?thesis by auto
qed

definition ref_stats_env :: ref_env where
  "ref_stats_env = ref_env0\<lparr>env_out := (\<lambda>r. (STATUS_SUCCESS, 0x1000, 52))\<rparr>"

lemma statistics_are_a_snapshot_witness:
  "delivered (mem ref_radio)
     (mem (exec (WinVhciEvtIoDeviceControl (ref_wdf ref_stats_env) 9 52 0 IOCTL_WINVHCI_GET_STATS)
        ref_radio)) 0x1000
     (concat (map ulong_bytes (52 # replicate 12 0)))"
proof -
  have out: "WdfRequestRetrieveOutputBuffer (ref_wdf ref_stats_env) 9 sizeof_WINVHCI_STATS
      = (STATUS_SUCCESS, 0x1000, 52)"
    by (simp add: ref_wdf_def ref_stats_env_def)
  have "52 # stats_counters (fdo ref_radio) @ [RadiosAlive (fdo ref_radio)] = 52 # replicate 12 0"
    by (simp add: stats_counters_def numeral_eq_Suc)
  then show ?thesis
    using statistics_are_a_snapshot [OF out, where s = ref_radio and outLen = 52 and inLen = 0
        and code = IOCTL_WINVHCI_GET_STATS]
    by (simp only: simp_thms NT_SUCCESS_STATUS_SUCCESS if_True) simp
qed

lemma channel_ok_count_le: "channel_ok reads pkts n pk \<Longrightarrow> n \<le> pk"
  by (simp add: channel_ok_def peak_ok_count_le)

lemma channel_ok_count:
  "channel_ok reads pkts n pk \<Longrightarrow> length pkts < 2 ^ 32 \<Longrightarrow> unat n = length pkts"
  by (simp add: channel_ok_def unat_of_nat take_bit_nat_eq_self)

text \<open>
  C32. What the statistics report is never contradictory. In every reachable state, a
  \<open>GET_STATS\<close> request that is answered (and runs on its own) leaves in its buffer a structure in which each of the three
  counts is at most its peak, and each is the exact length of its own backlog as long as that is
  below \<open>2 ^ 32\<close>.
\<close>

theorem reported_counts_are_consistent:
  fixes W :: "'w wdf" and s :: "'w sys" and q :: WDFREQUEST and outLen inLen :: SIZE_T
  assumes "wdf_creation W contents live" and "system_inv contents qs s0"
    and "conc_reach (spawns W) (env_step contents) s0 (s, ts)"
    and "WdfRequestRetrieveOutputBuffer W q sizeof_WINVHCI_STATS = (st, out, len)"
    and "52 \<le> unat outLen" and "NT_SUCCESS st"
  defines "report \<equiv>
    load_stats (mem (exec (WinVhciEvtIoDeviceControl W q outLen inLen IOCTL_WINVHCI_GET_STATS) s)) out"
  shows "st_HostToCtrlCount report \<le> st_HostToCtrlPeak report
    \<and> st_PendingEventCount report \<le> st_PendingEventPeak report
    \<and> st_PendingDataCount report \<le> st_PendingDataPeak report
    \<and> (length (HostToCtrlList (fdo s)) < 2 ^ 32 \<longrightarrow>
         unat (st_HostToCtrlCount report) = length (HostToCtrlList (fdo s)))
    \<and> (length (PendingEventList (fdo s)) < 2 ^ 32 \<longrightarrow>
         unat (st_PendingEventCount report) = length (PendingEventList (fdo s)))
    \<and> (length (PendingDataList (fdo s)) < 2 ^ 32 \<longrightarrow>
         unat (st_PendingDataCount report) = length (PendingDataList (fdo s)))"
proof -
  have inv: "driver_inv contents s"
    using wdf_creation.reachable_inv [OF assms(1,3,2)] by (simp add: system_inv_def)
  then have ok: "channel_ok (contents (fw s) (UserReadQueue (fdo s))) (HostToCtrlList (fdo s))
        (HostToCtrlCount (fdo s)) (HostToCtrlPeak (fdo s))"
      "channel_ok (contents (fw s) (ReadEventQueue (fdo s))) (PendingEventList (fdo s))
        (PendingEventCount (fdo s)) (PendingEventPeak (fdo s))"
      "channel_ok (contents (fw s) (ReadDataQueue (fdo s))) (PendingDataList (fdo s))
        (PendingDataCount (fdo s)) (PendingDataPeak (fdo s))"
    by (simp_all add: driver_inv_def user_ok_def stack_ok_def stack_channel_defs)
  have "report = reported_stats (fdo s)"
    unfolding report_def by (rule DeviceControl_answered(2) [OF assms(4-6)])
  then show ?thesis
    using ok [THEN channel_ok_count_le] ok [THEN channel_ok_count]
    by (simp add: reported_stats_def)
qed

lemma reported_counts_are_consistent_witness:
  "unat (st_HostToCtrlCount (load_stats (mem (exec (WinVhciEvtIoDeviceControl
     (ref_wdf ref_stats_env) 9 52 0 IOCTL_WINVHCI_GET_STATS) ref_client)) 0x1000)) = 0"
proof -
  have out: "WdfRequestRetrieveOutputBuffer (ref_wdf ref_stats_env) 9 sizeof_WINVHCI_STATS
      = (STATUS_SUCCESS, 0x1000, 52)"
    by (simp add: ref_wdf_def ref_stats_env_def)
  show ?thesis
    using reported_counts_are_consistent [OF ref.wdf_creation_axioms ref_inv(2) conc_reach.start out,
        where outLen = 52 and inLen = 0] by simp
qed

section \<open>The allocation-failure knob\<close>

lemma fail_pattern_nth:
  assumes "unat (AllocSeq c) + k < 2 ^ 32"
  shows "fail_pattern k c =
    map (\<lambda>i. FailAllocOneIn c \<noteq> 0 \<and> (unat (AllocSeq c) + i + 1) mod unat (FailAllocOneIn c) = 0)
      [0..<k]"
  using assms
proof (induction k arbitrary: c)
  case (Suc k)
  show ?case
  proof (cases "FailAllocOneIn c = 0")
    case True
    with Suc.IH [of c] Suc.prems show ?thesis
      by (simp add: map_replicate_trivial replicate_append_same)
  next
    case False
    define c' where "c' = c\<lparr>AllocSeq := AllocSeq c + 1\<rparr>"
    have seq: "unat (AllocSeq c + 1) = unat (AllocSeq c) + 1"
      using Suc.prems by (simp add: unat_word_ariths)
    have fails: "(AllocSeq c + 1) mod FailAllocOneIn c = 0 \<longleftrightarrow>
        (unat (AllocSeq c) + 1) mod unat (FailAllocOneIn c) = 0"
      by (simp add: unat_eq_0 [symmetric] unat_mod_distrib seq)
    have "fail_pattern k c' = map (\<lambda>i. (unat (AllocSeq c) + Suc i + 1) mod unat (FailAllocOneIn c) = 0)
        [0..<k]"
      using Suc.IH [of c'] Suc.prems False by (simp add: c'_def seq)
    with False fails show ?thesis
      by (simp add: WinVhciTestFailAlloc_def Let_def c'_def [symmetric] map_upt_Suc del: upt_Suc)
  qed
qed simp

text \<open>
  C38. The knob injects failures as documented: set to \<open>n\<close>, of the next \<open>k\<close> calls exactly those fail
  whose number is a multiple of \<open>n\<close>, counting on from \<open>AllocSeq\<close>, and the count moves on by \<open>k\<close>; set
  to 0, none fails and the count does not move. (While the 32-bit count does not wrap around.)
\<close>

theorem injected_failures_are_every_nth:
  assumes "unat (AllocSeq c) + k < 2 ^ 32"
  shows "fail_pattern k c =
      map (\<lambda>i. FailAllocOneIn c \<noteq> 0 \<and> (unat (AllocSeq c) + i + 1) mod unat (FailAllocOneIn c) = 0)
        [0..<k]
    \<and> after_calls k c =
        (if FailAllocOneIn c = 0 then c else c\<lparr>AllocSeq := AllocSeq c + of_nat k\<rparr>)"
  using fail_pattern_nth [OF assms] after_calls_count by blast

lemma injected_failures_are_every_nth_witness:
  "fail_pattern 6 (zero_fdo_context\<lparr>FailAllocOneIn := 3\<rparr>)
     = [False, False, True, False, False, True]"
  using injected_failures_are_every_nth [of "zero_fdo_context\<lparr>FailAllocOneIn := 3\<rparr>" 6]
  by (simp add: upt_rec)

section \<open>Creating the PDO\<close>

text \<open>
  C33. A reported radio becomes a PDO, or the callback stops at the call that failed. The calls of
  the child-list callback are those of \<open>pdo_plan\<close>, in its order, up to the first whose status is an
  error, and that status (or success after the last) is what the callback returns: the identifiers
  the profile driver's INF matches on, forwarding to the parent and the power callbacks, then the
  object with its cleanup callback, its capabilities and its default queue, parallel and not
  power-managed. If the object was made, its context (of the device the framework returned, the one
  that gets the capabilities and the queue) names the FDO and the reported radio's id and the count
  of live radios is one higher, whatever becomes of the queue; if not, no context is touched.
\<close>

theorem created_pdo_carries_its_id:
  fixes W :: "'w wdf" and s :: "'w sys" and i :: ULONG
  defines "s' \<equiv> exec (WinVhciEvtChildListCreateDevice W i) s"
    and "st \<equiv> result (WinVhciEvtChildListCreateDevice W i) s"
    and "made \<equiv> DeviceCreate (Some Cb_WinVhciPdoEvtCleanup)"
  shows "\<exists>cs. calls s' = calls s @ cs \<and> follows pdo_plan cs st
    \<and> mem s' = mem s \<and> pool s' = pool s
    \<and> (if \<exists>ok. made ok \<in> set cs \<and> NT_SUCCESS ok then
         \<exists>w ok pdo w' first qst. WdfDeviceCreate W w = ((ok, pdo), w')
           \<and> cs = first @ [made ok, DeviceSetPnpCapabilities pdo True True,
                QueueCreate pdo pdo_queue_config qst]
           \<and> fdo s' = (fdo s)\<lparr>RadiosAlive := RadiosAlive (fdo s) + 1\<rparr>
           \<and> pdos s' = (pdos s)(pdo \<mapsto> \<lparr>Fdo = Device (fdo s), RadioId = i\<rparr>)
       else fdo s' = fdo s \<and> pdos s' = pdos s)"
  using CreateDevice_makes_pdo [of W i]
  unfolding makes_pdo_def pdo_effect_def s'_def st_def made_def by blast

text \<open>
  C34. A request the profile driver sends to the PDO is counted and passed on to the queue of the FDO
  that serves BTHX requests; the PDO completes it only when it cannot be passed on, with the error,
  and does nothing else to the driver.
\<close>

theorem pdo_requests_are_passed_on:
  fixes W :: "'w wdf" and s :: "'w sys" and q :: WDFREQUEST and outLen inLen :: SIZE_T
  assumes "WdfRequestForwardToParentDeviceIoQueue W q (BthxIoQueue (fdo s)) (fw s) = (st, w')"
  defines "s1 \<equiv> exec (WinVhciPdoEvtInternalDeviceControl W q outLen inLen) s"
    and "s2 \<equiv> exec (WinVhciPdoEvtDeviceControl W q outLen inLen) s"
  shows "s1 = s2 \<and> fw s1 = w' \<and> mem s1 = mem s \<and> pool s1 = pool s
    \<and> fdo s1 = (fdo s)\<lparr>PdoRequestCount := PdoRequestCount (fdo s) + 1\<rparr>
    \<and> calls s1 = calls s @ RequestForwardToParent q (BthxIoQueue (fdo s)) st
        # (if NT_SUCCESS st then [] else [RequestComplete q st 0])"
  using assms(1)
  by (simp add: s1_def s2_def WinVhciPdoEvtInternalDeviceControl_def WinVhciPdoEvtDeviceControl_def
      WinVhciPdoForwardToParent_def)

lemma pdo_requests_are_passed_on_witness:
  "ref_parent (fw (exec (WinVhciPdoEvtInternalDeviceControl (ref_wdf ref_env0) 9 0 0) ref_radio))
     = ref_parent (fw ref_radio) @ [(9, 1)]"
proof -
  have "WdfRequestForwardToParentDeviceIoQueue (ref_wdf ref_env0) 9 (BthxIoQueue (fdo ref_radio))
      (fw ref_radio) = (STATUS_SUCCESS, (fw ref_radio)\<lparr>ref_parent := ref_parent (fw ref_radio) @ [(9, 1)]\<rparr>)"
    by (simp add: ref_wdf_def)
  from pdo_requests_are_passed_on [OF this, where outLen = 0 and inLen = 0] show ?thesis
    by (elim conjE) simp
qed

section \<open>Writes to a stack that does not consume\<close>

text \<open>
  \<open>RadioStarted\<close> is cleared only by the power callback of the current radio. A client that closes
  the handle and opens it again before the old PDO has left D0 gets a new current radio while the
  flag is still the old one's, and from then on the old PDO's callback is ignored as stale.
\<close>

lemma FileClose_fdo:
  "fdo (exec (WinVhciEvtFileClose W) s) =
     (fdo s)\<lparr>RadioPresent := False, Owner := NULL_HANDLE, HostToCtrlList := [],
             HostToCtrlCount := 0, PendingEventList := [], PendingEventCount := 0,
             PendingDataList := [], PendingDataCount := 0\<rparr>"
  by (simp add: WinVhciEvtFileClose_def close_locked_def close_release_def purge_queue_def
      start_queue_def Let_def)

lemma FileCreate_fdo:
  "fdo (exec (WinVhciEvtDeviceFileCreate q f) s) = (fdo s)\<lparr>Owner := f\<rparr>"
  by (simp add: WinVhciEvtDeviceFileCreate_def set_owner_locked_def)

context wdf_queues
begin

lemma QueueToUser_radio_fields:
  "RadioPresent (fdo (exec (WinVhciQueueToUser W t b n) s)) = RadioPresent (fdo s)
   \<and> RadioStarted (fdo (exec (WinVhciQueueToUser W t b n) s)) = RadioStarted (fdo s)
   \<and> CurrentRadioId (fdo (exec (WinVhciQueueToUser W t b n) s)) = CurrentRadioId (fdo s)"
proof -
  have "fdo (WinVhciQueueToUser_complete W r t b n s') = fdo s'" for r s'
    by (simp add: WinVhciQueueToUser_complete_def split: prod.split)
  then show ?thesis
    unfolding WinVhciQueueToUser_def
    by (cases rule: QueueToUser_locked_cases [where s = s and t = t and b = b and n = n]) simp_all
qed

lemma HandleControl_radio_fields:
  assumes "control_refused b n = None" and "\<not> RadioPresent (fdo s)"
    and "\<And>w. NT_SUCCESS (fst (WdfChildListAddOrUpdateChildDescriptionAsPresent W
            (NextRadioId (fdo s)) w))"
  shows "RadioPresent (fdo (exec (WinVhciHandleControl W b n) s))"
    "RadioStarted (fdo (exec (WinVhciHandleControl W b n) s)) = RadioStarted (fdo s)"
    "CurrentRadioId (fdo (exec (WinVhciHandleControl W b n) s)) = NextRadioId (fdo s)"
proof -
  have "n = 1" "and (b ! 0) 0x3C = 0" "and (b ! 0) 0xC0 = 0"
    using assms(1) by (simp_all add: control_refused_def split: if_splits)
  then show "RadioPresent (fdo (exec (WinVhciHandleControl W b n) s))"
    "RadioStarted (fdo (exec (WinVhciHandleControl W b n) s)) = RadioStarted (fdo s)"
    "CurrentRadioId (fdo (exec (WinVhciHandleControl W b n) s)) = NextRadioId (fdo s)"
    using assms(2,3)
    by (simp_all add: WinVhciHandleControl_def claim_radio_locked_def Let_def
        QueueToUser_radio_fields)
qed

end

text \<open>
  C39. Finding: closing the handle of a running radio, opening it again and asking for a radio leaves
  the new radio admitted as started although no PDO of it has entered D0, and the old radio's late
  D0 exit does not correct it.
\<close>

theorem new_radio_inherits_the_started_flag:
  fixes W :: "'w wdf" and s :: "'w sys" and b :: "UCHAR list" and n :: ULONG
    and q :: WDFREQUEST and f :: WDFFILEOBJECT and pc :: WINVHCI_PDO_CONTEXT
  assumes "wdf_queues W contents" and "system_inv contents qs s"
    and "RadioStarted (fdo s)" and "RadioId pc = CurrentRadioId (fdo s)"
    and "\<And>w. NT_SUCCESS (fst (WdfChildListAddOrUpdateChildDescriptionAsPresent W
            (NextRadioId (fdo s)) w))"
    and "control_refused b n = None"
  defines "s1 \<equiv> exec (WinVhciEvtFileClose W) s"
  defines "s2 \<equiv> exec (WinVhciEvtDeviceFileCreate q f) s1"
  defines "s3 \<equiv> exec (WinVhciHandleControl W b n) s2"
  defines "s4 \<equiv> exec (WinVhciPdoEvtD0Exit pc) s3"
  shows "CurrentRadioId (fdo s4) = NextRadioId (fdo s) \<and> CurrentRadioId (fdo s4) \<noteq> RadioId pc
    \<and> fst (admission_locked s3) \<and> fst (admission_locked s4)"
proof -
  have ids: "NextRadioId (fdo s) = CurrentRadioId (fdo s) + 1"
    using assms(2) by (simp add: system_inv_def ids_ok_def)
  have s2: "\<not> RadioPresent (fdo s2)" "RadioStarted (fdo s2)"
    "NextRadioId (fdo s2) = NextRadioId (fdo s)"
    using assms(3) by (simp_all add: s2_def s1_def FileCreate_fdo FileClose_fdo)
  have s3: "RadioPresent (fdo s3)" "RadioStarted (fdo s3)"
    "CurrentRadioId (fdo s3) = NextRadioId (fdo s)"
    using wdf_queues.HandleControl_radio_fields [OF assms(1,6) s2(1)] s2 assms(5)
    by (simp_all add: s3_def)
  have "RadioId pc \<noteq> CurrentRadioId (fdo s3)"
    using s3(3) ids assms(4) by simp
  then have "fdo s4 = fdo s3"
    by (simp add: s4_def WinVhciPdoEvtD0Exit_def RadioStackDown_fdo)
  with s3 ids assms(4) show ?thesis
    by (simp add: admission_locked_def Let_def)
qed

lemma new_radio_inherits_the_started_flag_witness:
  "fst (admission_locked (exec (WinVhciHandleControl (ref_wdf ref_env0) [0] 1)
     (exec (WinVhciEvtDeviceFileCreate 9 78) (exec (WinVhciEvtFileClose (ref_wdf ref_env0)) ref_radio))))"
proof -
  have "\<And>w. NT_SUCCESS (fst (WdfChildListAddOrUpdateChildDescriptionAsPresent (ref_wdf ref_env0)
            (NextRadioId (fdo ref_radio)) w))"
    by (simp add: ref_wdf_def ref_env0_def)
  from new_radio_inherits_the_started_flag [OF ref.wdf_queues_axioms ref_inv(3) _ _ this,
      where b = "[0]" and n = 1 and pc = "\<lparr>Fdo = 1, RadioId = 1\<rparr>" and q = 9 and f = 78]
  show ?thesis by (simp add: control_refused_def)
qed

text \<open>A running radio whose PDO is known to the framework.\<close>

definition ref_running :: "ref_fw sys" where
  "ref_running = (ref_event_written ref_radio)\<lparr>pdos := [1 \<mapsto> \<lparr>Fdo = 1, RadioId = 1\<rparr>]\<rparr>"

text \<open>
  A write and a late \<open>D0Exit\<close>, region by region: the write as dispatched, past its argument checks
  (\<open>admitting\<close>) and past its admission (\<open>delivering\<close>).
\<close>

definition late_exit :: "(ref_fw sys, unit) prog" where
  "late_exit = bind_prog (WinVhciPdoEvtD0Exit \<lparr>Fdo = 1, RadioId = 1\<rparr>) (\<lambda>_. Return ())"

definition late_write :: "(ref_fw sys, unit) prog" where
  "late_write = WinVhciEvtIoWrite (ref_wdf ref_stack_env) 9 3"

definition write_reply :: "NTSTATUS \<Rightarrow> (ref_fw sys, unit) prog" where
  "write_reply status = act (WdfRequestCompleteWithInformation 9 status
     (if NT_SUCCESS status then 3 else 0)) (Return ())"

definition admitting :: "(ref_fw sys, unit) prog" where
  "admitting = bind_prog
     (dispatch_by_type (ref_wdf ref_stack_env) WINVHCI_H4_EVENT [0x0E, 0] 2) write_reply"

definition delivering :: "(ref_fw sys, unit) prog" where
  "delivering = bind_prog
     (WinVhciDeliverToStack (ref_wdf ref_stack_env) WINVHCI_H4_EVENT [0x0E, 0] 2) write_reply"

definition late_admitted :: "ref_fw sys" where
  "late_admitted = snd (admission_locked ref_running)"

definition late_down :: "ref_fw sys" where
  "late_down = WinVhciRadioStackDown 1 late_admitted"

lemma late_steps:
  "advance late_write ref_running = (ref_running, admitting)"
  "advance admitting ref_running = (late_admitted, delivering)"
  "advance late_exit late_admitted = (late_down, Return ())"
proof -
  show "advance late_write ref_running = (ref_running, admitting)"
    using ref_write_bytes [of 9 ref_radio] ref_write_size
    by (simp add: late_write_def admitting_def write_reply_def [abs_def] WinVhciEvtIoWrite_def
        WinVhciDispatchWrite_def ref_write_request write_bounds write_type_def write_body_def
        write_buffer_def ref_running_def)
  show "advance admitting ref_running = (late_admitted, delivering)"
    by (simp add: admitting_def delivering_def dispatch_by_type_def body_limit_def h4_limits
        late_admitted_def admission_locked_def Let_def ref_running_def ref_event_state)
  show "advance late_exit late_admitted = (late_down, Return ())"
    by (simp add: late_exit_def WinVhciPdoEvtD0Exit_def late_down_def)
qed

lemma late_reached:
  "conc_reach (spawns (ref_wdf ref_stack_env)) (env_step ref_contents) ref_running
     (exec delivering late_down, [Return (), Return (result delivering late_down)])"
proof -
  let ?reach = "conc_reach (spawns (ref_wdf ref_stack_env)) (env_step ref_contents) ref_running"
  have "spawns (ref_wdf ref_stack_env) ref_running late_exit"
    "spawns (ref_wdf ref_stack_env) ref_running late_write"
    unfolding late_exit_def late_write_def
    by (rule spawns.intros(13) [where d = 1], simp add: ref_running_def, rule spawns.intros)
  then have "?reach (ref_running, [late_exit, late_write])"
    by (metis append_Cons append_Nil conc_reach.intros conc_step.dispatch)
  from conc_reach_advance [OF this, of 1] have "?reach (ref_running, [late_exit, admitting])"
    by (simp add: late_steps)
  from conc_reach_advance [OF this, of 1] have "?reach (late_admitted, [late_exit, delivering])"
    by (simp add: late_steps)
  from conc_reach_advance [OF this, of 0] have "?reach (late_down, [Return (), delivering])"
    by (simp add: late_steps)
  then show ?thesis
    using conc_reach_rest [of "spawns (ref_wdf ref_stack_env)" "env_step ref_contents" ref_running
        late_down "[Return ()]" delivering] by simp
qed

lemma late_delivery:
  "fdo (exec delivering late_down) =
     queue_to_stack_ctx WINVHCI_H4_EVENT (packet_of WINVHCI_H4_EVENT [0x0E, 0] 2)
       ((fdo ref_radio)\<lparr>RadioStarted := False\<rparr>)"
proof -
  have down: "fdo late_down = (fdo ref_radio)\<lparr>RadioStarted := False\<rparr>" "fw late_down = fw ref_radio"
    by (simp_all add: late_down_def late_admitted_def RadioStackDown_fdo admission_locked_def Let_def
        ref_running_def ref_event_state zero_fdo_context_def)
  obtain s' where "run (WinVhciDeliverToStack (ref_wdf ref_stack_env) WINVHCI_H4_EVENT [0x0E, 0] 2)
      late_down = (STATUS_SUCCESS, s')"
    "fdo s' = queue_to_stack_ctx WINVHCI_H4_EVENT (packet_of WINVHCI_H4_EVENT [0x0E, 0] 2)
       (fdo late_down)"
    using ref.DeliverToStack_queues_run [of late_down WINVHCI_H4_EVENT ref_stack_env "[0x0E, 0]" 2]
      down by auto
  then show ?thesis
    by (simp add: delivering_def write_reply_def exec_def down run_bind_prog)
qed

text \<open>
  C40. Finding: admission and queueing are two locked regions, and a D0 exit can run between them.
  There is an interleaving of one write and one D0 exit, from a running radio, after which both have
  returned, the admission is closed, and a packet sits on the event backlog that the exit should have
  left empty.
\<close>

theorem write_can_outlive_the_stack_it_was_admitted_to:
  "\<exists>s ts. conc_reach (spawns (ref_wdf ref_stack_env)) (env_step ref_contents) ref_running (s, ts)
     \<and> list_all (\<lambda>p. p = Return ()) ts
     \<and> \<not> RadioStarted (fdo s) \<and> CurrentRadioId (fdo s) = 1
     \<and> length (stack_backlog WINVHCI_H4_EVENT s) = 1"
proof -
  have "\<not> RadioStarted (fdo (exec delivering late_down))"
    "CurrentRadioId (fdo (exec delivering late_down)) = 1"
    "length (stack_backlog WINVHCI_H4_EVENT (exec delivering late_down)) = 1"
    by (simp_all add: late_delivery stack_backlog_def) (simp add: stack_list_def)
  with late_reached show ?thesis
    by (intro exI [of _ "exec delivering late_down"] exI [of _ "[Return (), Return ()]"]) simp
qed

end
