(* ===== verification/End_To_End.thy ===== *)
theory End_To_End
  imports Bthx_Properties
begin

text \<open>
  A packet from the side that sends it to the side that receives it, through both handlers: whichever
  of the two comes first, the receiver's buffer ends up with the sender's packet.
\<close>

section \<open>Completions in the log\<close>

definition completions :: "wdf_call list \<Rightarrow> wdf_call multiset" where
  "completions cs = {#c \<in># mset cs. case c of RequestComplete r st info \<Rightarrow> True | _ \<Rightarrow> False#}"

lemma completions_append [simp]: "completions (cs @ ds) = completions cs + completions ds"
  by (simp add: completions_def)

lemma completions_simps [simp]:
  "completions [] = {#}"
  "completions (RequestComplete r st info # cs) = {#RequestComplete r st info#} + completions cs"
  "completions (SpinLockAcquire # cs) = completions cs"
  "completions (SpinLockRelease # cs) = completions cs"
  by (simp_all add: completions_def)

section \<open>From userspace to the stack\<close>

lemma read_type_mem: "mem s' = mem s \<Longrightarrow> read_type s' ib ol = read_type s ib ol"
  by (simp add: read_type_def)

lemma write_mem:
  "mem s' = mem s \<Longrightarrow> write_type W q s' = write_type W q s"
  "mem s' = mem s \<Longrightarrow> write_body W q s' = write_body W q s"
  by (simp_all add: write_type_def write_body_def)

lemma write_body_length_eq: "length (write_body W q s) = unat (write_body_length W q)"
  by (simp add: write_body_def)

lemma context_at_written:
  "context_at (store_bytes m p (rw_context_bytes (write_body_length W q) t (write_body W q s))) p
     (write_body_length W q) t (write_body W q s)"
  using ulong_bound [of "write_body_length W q"]
  by (intro context_at_stored write_body_length_eq) simp

text \<open>
  What a user's write and a stack's read of the same type leave when they have met.
\<close>

definition event_crossed ::
  "('w \<Rightarrow> WDFQUEUE \<Rightarrow> WDFREQUEST list) \<Rightarrow> 'w wdf \<Rightarrow> WDFREQUEST \<Rightarrow> WDFREQUEST \<Rightarrow> 'w sys \<Rightarrow> 'w sys \<Rightarrow>
   bool" where
  "event_crossed contents W q r s s' \<longleftrightarrow>
     (let t = write_type W q s; irp = WdfRequestWdmGetIrp W r in
      context_at (mem s') (UserBuffer irp) (write_body_length W q) t (write_body W q s)
      \<and> stack_backlog t s' = [] \<and> stack_waiting contents t s' = [] \<and> pool s' = pool s
      \<and> (\<exists>info. completions (calls s') = completions (calls s) +
           {#RequestComplete q STATUS_SUCCESS (WdfRequestGetParameters_WriteLength W q),
             RequestComplete r STATUS_SUCCESS info#}))"

context wdf_reliable
begin

lemma write_then_read_crosses:
  assumes "system_inv contents qs s" and "FailAllocOneIn (fdo s) = 0"
    and "write_well_sized W q" and "stack_type (write_type W q s)"
    and "write_body_length W q \<le> body_limit (write_type W q s)"
    and "RadioPresent (fdo s)" and "RadioStarted (fdo s)"
    and "stack_waiting contents (write_type W q s) s = []"
    and "stack_backlog (write_type W q s) s = []"
    and "WdfRequestWdmGetIrp W r = irp" and "well_formed_read irp inLen outLen"
    and "read_type s (Type3InputBuffer irp) outLen = write_type W q s"
    and "unat (write_body_length W q) + 5 \<le> unat (IrpOutputBufferLength irp)"
  shows "event_crossed contents W q r s
    (exec (WinVhciBthxDispatch W r outLen inLen IOCTL_BTHX_READ_HCI)
       (exec (WinVhciEvtIoWrite W q l) s))"
proof -
  let ?t = "write_type W q s" and ?n = "write_body_length W q" and ?b = "write_body W q s"
  let ?p = "\<lparr>pkt_Type = ?t, pkt_Length = ?n, pkt_Data = ?b\<rparr>" and ?s1 = "exec (WinVhciEvtIoWrite W q l) s"
  have p: "packet_of ?t ?b ?n = ?p"
    by (simp add: packet_of_def write_body_def)
  obtain s0 where
    s0: "run (WinVhciDeliverToStack W ?t ?b ?n) (release (acquire s)) = (STATUS_SUCCESS, s0)"
    and "contents (fw s0) = contents (fw s)" "fdo s0 = queue_to_stack_ctx ?t ?p (fdo s)"
    "pool s0 = pool s + 1" "mem s0 = mem s"
    "completions (calls s0) = completions (calls s)"
    using assms(2,8)
    by (auto simp: stack_waiting_def p
        intro: DeliverToStack_queues_run [of "release (acquire s)" ?t ?b ?n])
  then have s1: "contents (fw ?s1) = contents (fw s)" "fdo ?s1 = queue_to_stack_ctx ?t ?p (fdo s)"
    "pool ?s1 = pool s + 1" "mem ?s1 = mem s"
    "completions (calls ?s1) = completions (calls s) +
       {#RequestComplete q STATUS_SUCCESS (WdfRequestGetParameters_WriteLength W q)#}"
    by (simp_all add: admitted_write_exec [OF assms(3-7) s0])
  have "system_inv contents qs ?s1"
    using user_handlers_safe(1) assms(1) by (rule safe_exec)
  then have distinct: "queues_distinct (fdo ?s1)"
    by (rule system_inv_distinct)
  have type: "read_type ?s1 (Type3InputBuffer irp) outLen = ?t"
    using assms(12) by (simp add: read_type_mem [OF s1(4)])
  have "stack_backlog ?t ?s1 = [?p]"
    using assms(9) by (simp add: s1 stack_backlog_def)
  note takes = BthxRead_takes [OF distinct assms(10,11) type this]
  have out: "UserBuffer irp \<noteq> NULL"
    using assms(11) unfolding well_formed_read_def by blast
  define s2 where "s2 = release (upd_fdo (\<lambda>c. set_stack_list ?t [] (stack_count ?t c - 1) c)
      (acquire (dispatched ?s1)))"
  obtain info where c: "WinVhciCompleteRead W r ?t ?b ?n s2 = (STATUS_SUCCESS,
      WdfRequestCompleteWithInformation r STATUS_SUCCESS info
        (s2\<lparr>mem := store_bytes (mem s2) (UserBuffer irp) (rw_context_bytes ?n ?t ?b)\<rparr>))"
    by (rule CompleteRead_success [OF assms(10) out assms(13) write_body_length_eq])
  have s2: "contents (fw s2) = contents (fw s)" "stack_list ?t (fdo s2) = []"
    "stack_queue ?t (fdo s2) = stack_queue ?t (fdo s)" "pool s2 = pool s + 1"
    "completions (calls s2) = completions (calls s) +
       {#RequestComplete q STATUS_SUCCESS (WdfRequestGetParameters_WriteLength W q)#}"
    by (simp_all add: s2_def s1)
  show ?thesis
    using s2 assms(8)
    by (simp add: event_crossed_def Let_def takes s2_def [symmetric] c assms(10) stack_backlog_def
        stack_waiting_def context_at_written)
qed

lemma read_then_write_crosses:
  assumes "system_inv contents qs s"
    and "write_well_sized W q" and "stack_type (write_type W q s)"
    and "write_body_length W q \<le> body_limit (write_type W q s)"
    and "RadioPresent (fdo s)" and "RadioStarted (fdo s)"
    and "stack_waiting contents (write_type W q s) s = []"
    and "stack_backlog (write_type W q s) s = []"
    and "WdfRequestWdmGetIrp W r = irp" and "well_formed_read irp inLen outLen"
    and "read_type s (Type3InputBuffer irp) outLen = write_type W q s"
    and "unat (write_body_length W q) + 5 \<le> unat (IrpOutputBufferLength irp)"
  shows "event_crossed contents W q r s
    (exec (WinVhciEvtIoWrite W q l)
       (exec (WinVhciBthxDispatch W r outLen inLen IOCTL_BTHX_READ_HCI) s))"
proof -
  let ?t = "write_type W q s" and ?n = "write_body_length W q" and ?b = "write_body W q s"
  let ?s1 = "exec (WinVhciBthxDispatch W r outLen inLen IOCTL_BTHX_READ_HCI) s"
  have distinct: "queues_distinct (fdo s)"
    using assms(1) by (rule system_inv_distinct)
  have "stack_count ?t (fdo s) = 0"
    using assms(1,8) by (simp add: system_inv_def driver_inv_split [OF assms(3)] stack_ok_def
        channel_ok_def stack_backlog_def)
  obtain w' where "?s1 = release (upd_fdo (count_pended_read ?t) ((acquire (dispatched s))\<lparr>fw := w'\<rparr>))"
    "contents w' = (contents (fw s))(stack_queue ?t (fdo s) := [r])"
    using BthxRead_parks [OF distinct assms(9,10,11,8)] assms(7)
    by (auto simp: stack_waiting_def)
  then have s1: "mem ?s1 = mem s" "pool ?s1 = pool s" "stack_list ?t (fdo ?s1) = []"
    "stack_queue ?t (fdo ?s1) = stack_queue ?t (fdo s)" "stack_count ?t (fdo ?s1) = 0"
    "RadioPresent (fdo ?s1)" "RadioStarted (fdo ?s1)"
    "contents (fw ?s1) (stack_queue ?t (fdo s)) = [r]"
    "completions (calls ?s1) = completions (calls s)"
    using assms(5-8) \<open>stack_count ?t (fdo s) = 0\<close>
    by (simp_all add: stack_backlog_def)
  note same = write_mem [OF s1(1)]
  have out: "UserBuffer irp \<noteq> NULL"
    using assms(10) unfolding well_formed_read_def by blast
  have "stack_count ?t (fdo (release (acquire ?s1))) = 0"
    "contents (fw (release (acquire ?s1))) (stack_queue ?t (fdo (release (acquire ?s1)))) = [r]"
    using s1 by simp_all
  then obtain s2 info where
    s2: "run (WinVhciDeliverToStack W ?t ?b ?n) (release (acquire ?s1)) = (STATUS_SUCCESS, s2)"
    and filled: "context_at (mem s2) (UserBuffer irp) ?n ?t ?b"
    and "contents (fw s2) = (contents (fw (release (acquire ?s1))))
      (stack_queue ?t (fdo (release (acquire ?s1))) := [])"
    "fdo s2 = (fdo (release (acquire ?s1)))
      \<lparr>WritesTotal := WritesTotal (fdo (release (acquire ?s1))) + 1\<rparr>"
    "pool s2 = pool (release (acquire ?s1))"
    "calls s2 = calls (release (acquire ?s1)) @
      [SpinLockAcquire, SpinLockRelease, RequestComplete r STATUS_SUCCESS info]"
    by (rule DeliverToStack_serves_a_read
        [OF _ _ assms(9) out assms(12) write_body_length_eq [of W q s]])
  then have "contents (fw s2) (stack_queue ?t (fdo s)) = []"
    "stack_queue ?t (fdo s2) = stack_queue ?t (fdo s)" "stack_list ?t (fdo s2) = []"
    "pool s2 = pool s"
    "completions (calls s2) = completions (calls s) + {#RequestComplete r STATUS_SUCCESS info#}"
    using s1 by simp_all
  with filled s2
  show ?thesis
    using admitted_write_exec [OF assms(2), of ?s1, unfolded same, OF assms(3,4) s1(6,7) s2]
    by (simp add: event_crossed_def Let_def assms(9) stack_backlog_def stack_waiting_def
        add_mset_commute)
qed

end

section \<open>From the stack to userspace\<close>

definition user_buffer :: "'w wdf \<Rightarrow> WDFREQUEST \<Rightarrow> PVOID" where
  "user_buffer W r = fst (snd (WdfRequestRetrieveOutputBuffer W r 1))"

text \<open>A userspace read with room for a packet of \<open>k\<close> bytes.\<close>

definition user_read_fits :: "'w wdf \<Rightarrow> WDFREQUEST \<Rightarrow> nat \<Rightarrow> bool" where
  "user_read_fits W r k \<longleftrightarrow>
     NT_SUCCESS (fst (WdfRequestRetrieveOutputBuffer W r 1))
     \<and> k \<le> unat (snd (snd (WdfRequestRetrieveOutputBuffer W r 1)))"

lemma user_read_fitsD:
  assumes "user_read_fits W r k"
  obtains st len where "WdfRequestRetrieveOutputBuffer W r 1 = (st, user_buffer W r, len)"
    "NT_SUCCESS st" "k \<le> unat len"
  using assms by (cases "WdfRequestRetrieveOutputBuffer W r 1")
    (auto simp: user_read_fits_def user_buffer_def)

lemma EvtIoRead_long: "1026 \<le> unat n \<Longrightarrow> \<not> (n :: SIZE_T) < ucast WINVHCI_MAX_H4_PACKET"
  by (simp add: h4_limits word_less_nat_alt)

lemma EvtIoRead_takes:
  assumes "1026 \<le> unat Length" and "HostToCtrlList (fdo s) = p # ps" and "pkt_whole p"
    and "user_read_fits W r (unat (pkt_Length p) + 1)"
  obtains s' where "exec (WinVhciEvtIoRead W r Length) s = s'"
    "delivered (mem s) (mem s') (user_buffer W r) (pkt_Type p # pkt_Data p)"
    "fdo s' = (fdo s)\<lparr>HostToCtrlList := ps, HostToCtrlCount := HostToCtrlCount (fdo s) - 1\<rparr>"
    "fw s' = fw s" "pool s' = pool s - 1"
    "calls s' = calls s @ [SpinLockAcquire, SpinLockRelease,
       RequestComplete r STATUS_SUCCESS (ucast (pkt_Length p) + 1)]"
proof (rule that)
  define s1 where "s1 = release (upd_fdo (\<lambda>c. c\<lparr>HostToCtrlList := ps,
      HostToCtrlCount := HostToCtrlCount c - 1\<rparr>) (acquire s))"
  obtain st len where out: "WdfRequestRetrieveOutputBuffer W r 1 = (st, user_buffer W r, len)"
      "NT_SUCCESS st" "unat (pkt_Length p) + 1 \<le> unat len"
    using assms(4) by (rule user_read_fitsD)
  let ?s' = "ExFreePoolWithTag p (WdfRequestCompleteWithInformation r STATUS_SUCCESS
      (ucast (pkt_Length p) + 1)
      (fill_reader (user_buffer W r) (pkt_Type p) (pkt_Data p) (pkt_Length p) s1))"
  show "exec (WinVhciEvtIoRead W r Length) s = ?s'"
    using EvtIoRead_long [OF assms(1)] assms(2) out
    by (simp add: WinVhciEvtIoRead_def WinVhciEvtIoRead_locked_def WinVhciEvtIoRead_complete_def
        Let_def room_for_packet s1_def)
  show "delivered (mem s) (mem ?s') (user_buffer W r) (pkt_Type p # pkt_Data p)"
    using delivered_fill_reader [OF assms(3) [unfolded pkt_whole_def],
        of s1 "user_buffer W r" "pkt_Type p"] by (simp add: s1_def)
  show "fdo ?s' = (fdo s)\<lparr>HostToCtrlList := ps, HostToCtrlCount := HostToCtrlCount (fdo s) - 1\<rparr>"
    "fw ?s' = fw s" "pool ?s' = pool s - 1"
    "calls ?s' = calls s @ [SpinLockAcquire, SpinLockRelease,
       RequestComplete r STATUS_SUCCESS (ucast (pkt_Length p) + 1)]"
    by (simp_all add: s1_def)
qed

context wdf_queues
begin

lemma QueueToUser_serves_a_read:
  assumes "Owner (fdo s) \<noteq> NULL_HANDLE" and "HostToCtrlCount (fdo s) = 0"
    and "contents (fw s) (UserReadQueue (fdo s)) = r # rs"
    and "length b = unat n" and "user_read_fits W r (unat n + 1)"
  obtains s' where "exec (WinVhciQueueToUser W t b n) s = s'"
    "delivered (mem s) (mem s') (user_buffer W r) (t # b)"
    "contents (fw s') = (contents (fw s))(UserReadQueue (fdo s) := rs)"
    "fdo s' = fdo s" "pool s' = pool s"
    "calls s' = calls s @ [SpinLockAcquire, SpinLockRelease,
       RequestComplete r STATUS_SUCCESS (ucast n + 1)]"
proof -
  obtain st len where out: "WdfRequestRetrieveOutputBuffer W r 1 = (st, user_buffer W r, len)"
      "NT_SUCCESS st" "unat n + 1 \<le> unat len"
    using assms(5) by (rule user_read_fitsD)
  obtain s1 where s1: "WinVhciQueueToUser_locked W t b n s = (Some r, s1)"
    "contents (fw s1) = (contents (fw s))(UserReadQueue (fdo s) := rs)"
    "fdo s1 = fdo s" "pool s1 = pool s" "mem s1 = mem s"
    "calls s1 = calls s @ [SpinLockAcquire, SpinLockRelease]"
    using assms(1-3) by (rule QueueToUser_hands_over)
  let ?s' = "WdfRequestCompleteWithInformation r STATUS_SUCCESS (ucast n + 1)
      (fill_reader (user_buffer W r) t b n s1)"
  have "exec (WinVhciQueueToUser W t b n) s = ?s'"
    using s1(1) out
    by (simp add: WinVhciQueueToUser_def WinVhciQueueToUser_complete_def room_for_packet)
  moreover have "delivered (mem s) (mem ?s') (user_buffer W r) (t # b)"
    using delivered_fill_reader [OF assms(4), of s1 "user_buffer W r" t] s1(5) by simp
  ultimately show ?thesis
    by (rule that) (simp_all add: s1)
qed

end

context wdf_reliable
begin

lemma QueueToUser_queues:
  assumes "Owner (fdo s) \<noteq> NULL_HANDLE" and "FailAllocOneIn (fdo s) = 0"
    and "contents (fw s) (UserReadQueue (fdo s)) = []"
  obtains s' where "exec (WinVhciQueueToUser W t b n) s = s'" "mem s' = mem s"
    "contents (fw s') = contents (fw s)" "fdo s' = queue_to_user_ctx (packet_of t b n) (fdo s)"
    "pool s' = pool s + 1" "calls s' = calls s @ [SpinLockAcquire, SpinLockRelease]"
proof (cases rule: QueueToUser_locked_cases [where s = s and t = t and b = b and n = n])
  case queued
  with assms show ?thesis
    by (intro that [of "snd (WinVhciQueueToUser_locked W t b n s)"])
      (simp_all add: WinVhciQueueToUser_def)
next
  case lost
  with assms show ?thesis by (auto simp: alloc_reliable)
qed (use assms in simp_all)

lemma EvtIoRead_parks:
  assumes "1026 \<le> unat Length" and "HostToCtrlList (fdo s) = []"
  obtains w' where "exec (WinVhciEvtIoRead W r Length) s = release ((acquire s)\<lparr>fw := w'\<rparr>)"
    "contents w' = (contents (fw s))(UserReadQueue (fdo s) :=
       contents (fw s) (UserReadQueue (fdo s)) @ [r])"
proof -
  obtain e w' where fwd: "WdfRequestForwardToIoQueue W r (UserReadQueue (fdo s)) (fw s) = (e, w')"
    "NT_SUCCESS e" "contents w' = (contents (fw s))(UserReadQueue (fdo s) :=
       contents (fw s) (UserReadQueue (fdo s)) @ [r])"
    using forward_appends by blast
  have "exec (WinVhciEvtIoRead W r Length) s = release ((acquire s)\<lparr>fw := w'\<rparr>)"
    using EvtIoRead_long [OF assms(1)] assms(2) fwd(1,2)
    by (simp add: WinVhciEvtIoRead_def WinVhciEvtIoRead_locked_def Let_def)
  then show ?thesis using fwd(3) by (rule that)
qed

end

lemma count_write_fields [simp]:
  "fdo (count_write_locked s) = (fdo s)\<lparr>WriteHciCount := WriteHciCount (fdo s) + 1\<rparr>"
  "fw (count_write_locked s) = fw s" "mem (count_write_locked s) = mem s"
  "pool (count_write_locked s) = pool s"
  "calls (count_write_locked s) = calls s @ [SpinLockAcquire, SpinLockRelease]"
  by (simp_all add: count_write_locked_def)

text \<open>The packet a stack's write carries, and what it and a user's read leave when they have met.\<close>

definition command_packet :: "'w wdf \<Rightarrow> WDFREQUEST \<Rightarrow> 'w sys \<Rightarrow> WINVHCI_PACKET" where
  "command_packet W q s =
     (let ib = Type3InputBuffer (WdfRequestWdmGetIrp W q); n = ctx_DataLen (mem s) ib
      in \<lparr>pkt_Type = ctx_Type (mem s) ib, pkt_Length = n,
          pkt_Data = load_bytes (mem s) (ib + 5) (unat n)\<rparr>)"

lemma command_packet_simps:
  assumes "WdfRequestWdmGetIrp W q = irp"
  shows "ctx_Type (mem s) (Type3InputBuffer irp) = pkt_Type (command_packet W q s)"
    "ctx_DataLen (mem s) (Type3InputBuffer irp) = pkt_Length (command_packet W q s)"
    "load_bytes (mem s) (Type3InputBuffer irp + 5) (unat (pkt_Length (command_packet W q s)))
       = pkt_Data (command_packet W q s)"
  using assms by (simp_all add: command_packet_def Let_def)

lemma command_packet_whole: "pkt_whole (command_packet W q s)"
  by (simp add: command_packet_def Let_def pkt_whole_def)

definition command_crossed ::
  "('w \<Rightarrow> WDFQUEUE \<Rightarrow> WDFREQUEST list) \<Rightarrow> 'w wdf \<Rightarrow> WDFREQUEST \<Rightarrow> WDFREQUEST \<Rightarrow> 'w sys \<Rightarrow> 'w sys \<Rightarrow>
   bool" where
  "command_crossed contents W q r s s' \<longleftrightarrow>
     (let p = command_packet W q s in
      delivered (mem s) (mem s') (user_buffer W r) (pkt_Type p # pkt_Data p)
      \<and> user_backlog s' = [] \<and> user_waiting contents s' = [] \<and> pool s' = pool s
      \<and> completions (calls s') = completions (calls s) +
          {#RequestComplete q STATUS_SUCCESS (ucast (pkt_Length p)),
            RequestComplete r STATUS_SUCCESS (ucast (pkt_Length p) + 1)#})"

text \<open>A stack's write that is accepted, through the dispatcher.\<close>

lemma BthxWrite_accepted:
  assumes "WdfRequestWdmGetIrp W q = irp" and "RequestorMode irp = KernelMode"
    and "unat inLen < 2 ^ 32" and "write_accepted (mem s) (Type3InputBuffer irp) inLen"
    and "command_packet W q s = p"
    and "exec (WinVhciQueueToUser W (pkt_Type p) (pkt_Data p) (pkt_Length p))
           (count_write_locked (dispatched s)) = s1"
  shows "exec (WinVhciBthxDispatch W q outLen inLen IOCTL_BTHX_WRITE_HCI) s =
    WdfRequestCompleteWithInformation q STATUS_SUCCESS (ucast (pkt_Length p)) s1"
  using BthxWrite_exec [OF assms(1-3), where s = s and outLen = outLen] assms(4-6)
  by (simp add: command_packet_simps [OF assms(1), of s, unfolded assms(5)])

context wdf_reliable
begin

lemma command_then_read_crosses:
  assumes "Owner (fdo s) \<noteq> NULL_HANDLE" and "FailAllocOneIn (fdo s) = 0"
    and "user_waiting contents s = []" and "user_backlog s = []"
    and "WdfRequestWdmGetIrp W q = irp" and "RequestorMode irp = KernelMode"
    and "unat inLen < 2 ^ 32" and "write_accepted (mem s) (Type3InputBuffer irp) inLen"
    and "1026 \<le> unat Length"
    and "user_read_fits W r (unat (pkt_Length (command_packet W q s)) + 1)"
  shows "command_crossed contents W q r s
    (exec (WinVhciEvtIoRead W r Length)
       (exec (WinVhciBthxDispatch W q outLen inLen IOCTL_BTHX_WRITE_HCI) s))"
proof -
  define p where "p = command_packet W q s"
  let ?s1 = "exec (WinVhciBthxDispatch W q outLen inLen IOCTL_BTHX_WRITE_HCI) s"
  have whole: "pkt_whole p" and packet: "packet_of (pkt_Type p) (pkt_Data p) (pkt_Length p) = p"
    by (simp_all add: p_def command_packet_whole packet_of_whole)
  obtain s0 where s0: "exec (WinVhciQueueToUser W (pkt_Type p) (pkt_Data p) (pkt_Length p))
        (count_write_locked (dispatched s)) = s0" "mem s0 = mem s"
    "contents (fw s0) = contents (fw s)" "HostToCtrlList (fdo s0) = [p]" "pool s0 = pool s + 1"
    "UserReadQueue (fdo s0) = UserReadQueue (fdo s)"
    "completions (calls s0) = completions (calls s)"
    by (rule QueueToUser_queues [of "count_write_locked (dispatched s)" "pkt_Type p" "pkt_Data p"
          "pkt_Length p"])
      (use assms(1-4) in \<open>simp_all add: user_waiting_def user_backlog_def packet\<close>)
  have s1: "?s1 = WdfRequestCompleteWithInformation q STATUS_SUCCESS (ucast (pkt_Length p)) s0"
    using assms(5-8) p_def [symmetric] s0(1) by (rule BthxWrite_accepted)
  have "HostToCtrlList (fdo ?s1) = p # []"
    by (simp add: s1 s0)
  then obtain s2 where s2: "exec (WinVhciEvtIoRead W r Length) ?s1 = s2"
    "delivered (mem ?s1) (mem s2) (user_buffer W r) (pkt_Type p # pkt_Data p)"
    "fdo s2 = (fdo ?s1)\<lparr>HostToCtrlList := [], HostToCtrlCount := HostToCtrlCount (fdo ?s1) - 1\<rparr>"
    "fw s2 = fw ?s1" "pool s2 = pool ?s1 - 1"
    "calls s2 = calls ?s1 @ [SpinLockAcquire, SpinLockRelease,
       RequestComplete r STATUS_SUCCESS (ucast (pkt_Length p) + 1)]"
    using whole assms(10) [folded p_def] by (rule EvtIoRead_takes [OF assms(9)])
  then show ?thesis
    using s0 assms(3)
    by (simp add: command_crossed_def p_def [symmetric] s1 user_backlog_def user_waiting_def
        add_mset_commute)
qed

lemma read_then_command_crosses:
  assumes "system_inv contents qs s" and "Owner (fdo s) \<noteq> NULL_HANDLE"
    and "user_waiting contents s = []" and "user_backlog s = []"
    and "WdfRequestWdmGetIrp W q = irp" and "RequestorMode irp = KernelMode"
    and "unat inLen < 2 ^ 32" and "write_accepted (mem s) (Type3InputBuffer irp) inLen"
    and "1026 \<le> unat Length"
    and "user_read_fits W r (unat (pkt_Length (command_packet W q s)) + 1)"
  shows "command_crossed contents W q r s
    (exec (WinVhciBthxDispatch W q outLen inLen IOCTL_BTHX_WRITE_HCI)
       (exec (WinVhciEvtIoRead W r Length) s))"
proof -
  define p where "p = command_packet W q s"
  let ?s1 = "exec (WinVhciEvtIoRead W r Length) s"
  let ?s0 = "count_write_locked (dispatched ?s1)"
  have "length (pkt_Data p) = unat (pkt_Length p)"
    using command_packet_whole by (simp add: p_def pkt_whole_def)
  have "HostToCtrlCount (fdo s) = 0"
    using assms(1,4) by (simp add: system_inv_def driver_inv_def user_ok_def channel_ok_def
        user_backlog_def)
  obtain w' where "?s1 = release ((acquire s)\<lparr>fw := w'\<rparr>)"
    "contents w' = (contents (fw s))(UserReadQueue (fdo s) := [r])"
    using EvtIoRead_parks [OF assms(9), of s] assms(3,4)
    by (auto simp: user_waiting_def user_backlog_def)
  then have s1: "mem ?s1 = mem s" "pool ?s1 = pool s" "fdo ?s1 = fdo s"
    "contents (fw ?s1) = (contents (fw s))(UserReadQueue (fdo s) := [r])"
    "completions (calls ?s1) = completions (calls s)"
    by simp_all
  have p: "command_packet W q ?s1 = p"
    by (simp add: p_def command_packet_def s1)
  have s0: "Owner (fdo ?s0) \<noteq> NULL_HANDLE" "HostToCtrlCount (fdo ?s0) = 0"
    "contents (fw ?s0) (UserReadQueue (fdo ?s0)) = [r]"
    using assms(2) \<open>HostToCtrlCount (fdo s) = 0\<close> by (simp_all add: s1)
  obtain s2 where s2: "exec (WinVhciQueueToUser W (pkt_Type p) (pkt_Data p) (pkt_Length p)) ?s0 = s2"
    "delivered (mem ?s0) (mem s2) (user_buffer W r) (pkt_Type p # pkt_Data p)"
    "contents (fw s2) = (contents (fw ?s0))(UserReadQueue (fdo ?s0) := [])"
    "fdo s2 = fdo ?s0" "pool s2 = pool ?s0"
    "calls s2 = calls ?s0 @ [SpinLockAcquire, SpinLockRelease,
       RequestComplete r STATUS_SUCCESS (ucast (pkt_Length p) + 1)]"
    using s0 \<open>length (pkt_Data p) = unat (pkt_Length p)\<close> assms(10) [folded p_def]
    by (rule QueueToUser_serves_a_read)
  have "exec (WinVhciBthxDispatch W q outLen inLen IOCTL_BTHX_WRITE_HCI) ?s1 =
      WdfRequestCompleteWithInformation q STATUS_SUCCESS (ucast (pkt_Length p)) s2"
    using assms(5-7) _ p s2(1) by (rule BthxWrite_accepted) (simp add: s1 assms(8))
  then show ?thesis
    using s1 s2 assms(4)
    by (simp add: command_crossed_def p_def [symmetric] user_backlog_def user_waiting_def
        add_mset_commute)
qed

end

end
