(* ===== verification/Quiet_Steps.thy ===== *)
theory Quiet_Steps
  imports Request_Ledger
begin

text \<open>
  What most regions leave alone: the count of live radios, the PDO objects made, the purges. And
  whose requests the stack's two queues hold: a region adds at most the request of the BTHX read it
  belongs to.
\<close>

section \<open>Calm regions\<close>

text \<open>The PDO objects made so far, and the purges, as the log has them.\<close>

primrec radios_made :: "wdf_call list \<Rightarrow> nat" where
  "radios_made [] = 0"
| "radios_made (c # cs) =
     (case c of
        DeviceCreate cb st \<Rightarrow>
          if cb = Some Cb_WinVhciPdoEvtCleanup \<and> NT_SUCCESS st then 1 else 0
      | _ \<Rightarrow> 0) + radios_made cs"

primrec purges :: "wdf_call list \<Rightarrow> nat" where
  "purges [] = 0"
| "purges (c # cs) = (case c of QueuePurge q \<Rightarrow> 1 | _ \<Rightarrow> 0) + purges cs"

lemma log_counts_append [simp]:
  "radios_made (cs @ ds) = radios_made cs + radios_made ds"
  "purges (cs @ ds) = purges cs + purges ds"
  by (induction cs) simp_all

text \<open>The requests on the two queues of the stack.\<close>

definition stack_set ::
  "('w \<Rightarrow> WDFQUEUE \<Rightarrow> WDFREQUEST list) \<Rightarrow> 'w sys \<Rightarrow> WDFREQUEST set" where
  "stack_set contents s =
     set (contents (fw s) (ReadEventQueue (fdo s))) \<union> set (contents (fw s) (ReadDataQueue (fdo s)))"

definition calm ::
  "('w \<Rightarrow> WDFQUEUE \<Rightarrow> WDFREQUEST list) \<Rightarrow> WDFREQUEST set \<Rightarrow> 'w sys \<Rightarrow> 'w sys \<Rightarrow> bool" where
  "calm contents X s s' \<longleftrightarrow>
     RadiosAlive (fdo s') = RadiosAlive (fdo s)
     \<and> radios_made (calls s') = radios_made (calls s) \<and> purges (calls s') = purges (calls s)
     \<and> stack_set contents s' \<subseteq> stack_set contents s \<union> X"

lemmas calm_defs = calm_def stack_set_def

lemma calm_quiet [calm_simps]:
  "calm contents X s s"
  "calm contents X s (s\<lparr>mem := m\<rparr>)"
  "calm contents X s (WdfRequestCompleteWithInformation r st info s)"
  "calm contents X s (WdfRequestComplete r st s)"
  "calm contents X s (ExFreePoolWithTag p s)"
  "calm contents X s (unclaim_radio_locked s)"
  "calm contents X s (snd (claim_radio_locked s))"
  "calm contents X s (snd (admission_locked s))"
  "calm contents X s (set_owner_locked f s)"
  "calm contents X s (snd (close_locked s))"
  "calm contents X s (D0Entry_locked pc s)"
  "calm contents X s (count_write_locked s)"
  "calm contents X s (count_ioctl_locked s)"
  "calm contents X s (stats_locked out s)"
  "calm contents X s (stats_clear out s)"
  "calm contents X s (stats_radios out s)"
  "calm contents X s (WinVhciRadioStackDown i s)"
  "calm contents X s (WinVhciPurgeBacklogs s)"
  "calm contents X s (snd (WinVhciCompleteRead W r t b n s))"
  "calm contents X s (WinVhciQueueToUser_complete W r t b n s)"
  "calm contents X s (WinVhciEvtIoRead_complete W r p s)"
  "calm contents X s (upd_fdo (\<lambda>c. c\<lparr>PdoRequestCount := f1 c\<rparr>) s)"
  "calm contents X s (upd_fdo (\<lambda>c. c\<lparr>BthxVersion := v\<rparr>) s)"
  by (auto simp: calm_defs unclaim_radio_locked_def claim_radio_locked_def admission_locked_def
      set_owner_locked_def close_locked_def count_write_locked_def count_ioctl_locked_def
      stats_locked_def stats_clear_def stats_radios_def RadioStackDown_fdo WinVhciCompleteRead_def
      WinVhciQueueToUser_complete_def WinVhciEvtIoRead_complete_def fill_reader_def Let_def
      split: prod.split)

lemma calm_log [calm_simps]:
  "(\<And>cb st. c \<noteq> DeviceCreate cb st) \<Longrightarrow> (\<And>q. c \<noteq> QueuePurge q) \<Longrightarrow>
   calm contents X s (log_call c s)"
  by (cases c) (auto simp: calm_defs)

abbreviation calm_handler ::
  "('w \<Rightarrow> WDFQUEUE \<Rightarrow> WDFREQUEST list) \<Rightarrow> WDFQUEUE \<times> WDFQUEUE \<times> WDFQUEUE \<Rightarrow> WDFREQUEST set \<Rightarrow>
   ('w sys, 'b) prog \<Rightarrow> bool" where
  "calm_handler contents qs X p \<equiv> steps (system_inv contents qs) (calm contents X) p"

context wdf_queues
begin

lemma calm_framework [calm_simps]:
  "calm contents X s (snd (WinVhciAddRadio W i s))"
  "calm contents X s (snd (WinVhciRemoveRadios W s))"
  "calm contents X s (start_queue W q s)"
  by (auto simp: calm_defs start_queue_def start_contents scan_contents add_child_contents)

lemma data_path_counters:
  "RadiosAlive (fdo (snd (WinVhciQueueToUser_locked W t b n s))) = RadiosAlive (fdo s)"
  "RadiosAlive (fdo (snd (WinVhciEvtIoRead_locked W q s))) = RadiosAlive (fdo s)"
  "RadiosAlive (fdo (snd (WinVhciDeliverToStack_locked W t b n s))) = RadiosAlive (fdo s)"
  "RadiosAlive (fdo (snd (WinVhciTakeOrParkForStack W t q qu s))) = RadiosAlive (fdo s)"
  by (simp_all add: WinVhciQueueToUser_locked_def WinVhciEvtIoRead_locked_def
      WinVhciDeliverToStack_locked_def WinVhciTakeOrParkForStack_def Let_def split_def
      split: option.split list.split)

lemma calm_data_path [calm_simps]:
  assumes "system_inv contents qs s"
  shows "calm contents X s (snd (WinVhciQueueToUser_locked W t b n s))"
    and "calm contents X s (snd (WinVhciEvtIoRead_locked W q s))"
    and "calm contents X s (snd (WinVhciDeliverToStack_locked W t b n s))"
    and "q \<in> X \<Longrightarrow> calm contents X s (snd (WinVhciTakeOrParkForStack W t q qu s))"
proof -
  have d: "queues_distinct (fdo s)"
    using assms by (rule system_inv_distinct)
  show "calm contents X s (snd (WinVhciQueueToUser_locked W t b n s))"
    using d by (cases rule: QueueToUser_locked_cases [where s = s and t = t and b = b and n = n])
      (auto simp: calm_defs data_path_counters queues_distinct_def)
  show "calm contents X s (snd (WinVhciEvtIoRead_locked W q s))"
    using d by (cases rule: EvtIoRead_locked_cases [where s = s and q = q])
      (auto simp: calm_defs data_path_counters queues_distinct_def)
  show "calm contents X s (snd (WinVhciDeliverToStack_locked W t b n s))"
    using d by (cases rule: DeliverToStack_locked_cases [where s = s and t = t and b = b and n = n])
      (auto simp: calm_defs data_path_counters stack_queue_def split: if_splits)
  show "calm contents X s (snd (WinVhciTakeOrParkForStack W t q qu s))" if "q \<in> X"
    using d that
    by (cases rule: TakeOrParkForStack_cases [where s = s and t = t and q = q and qu = qu])
      (auto simp: calm_defs data_path_counters split: if_splits)
qed

section \<open>Calm handlers\<close>

lemma calm_QueueToUser [calm_simps]: "calm_handler contents qs X (WinVhciQueueToUser W t b n)"
  by (simp add: WinVhciQueueToUser_def steps_simps calm_simps split: option.split)

lemma calm_DeliverToStack [calm_simps]: "calm_handler contents qs X (WinVhciDeliverToStack W t b n)"
  by (simp add: WinVhciDeliverToStack_def steps_simps calm_simps split: option.split prod.split)

lemma calm_read [calm_simps]: "calm_handler contents qs X (WinVhciEvtIoRead W q len)"
  by (simp add: WinVhciEvtIoRead_def steps_simps calm_simps split: option.split prod.split)

lemma calm_control [calm_simps]: "calm_handler contents qs X (WinVhciHandleControl W b n)"
  by (simp add: WinVhciHandleControl_def Let_def steps_simps calm_simps steps_bind
      split: option.split)

lemma calm_switch [calm_simps]: "calm_handler contents qs X (dispatch_by_type W t b n)"
  by (simp add: dispatch_by_type_def steps_simps calm_simps)

lemma calm_user [calm_simps]:
  "calm_handler contents qs X (WinVhciDispatchWrite W q)"
  "calm_handler contents qs X (WinVhciEvtIoDeviceControl W q ol il code)"
  "calm_handler contents qs X (WinVhciEvtDeviceFileCreate q f)"
  by (simp_all add: WinVhciDispatchWrite_def WinVhciEvtIoDeviceControl_def
      WinVhciEvtDeviceFileCreate_def Let_def steps_simps calm_simps steps_bind
      split: prod.split)

lemma calm_bthx [calm_simps]:
  "calm_handler contents qs X (bthx_get_version W ob ol)"
  "calm_handler contents qs X (bthx_set_version W ib il)"
  "calm_handler contents qs X (bthx_query_capabilities W ob ol)"
  "calm_handler contents qs X (bthx_write_hci W ib il)"
  "q \<in> X \<Longrightarrow> calm_handler contents qs X (bthx_read_hci W q ib il ob ol)"
  by (simp_all add: bthx_get_version_def bthx_set_version_def bthx_query_capabilities_def
      bthx_write_hci_def bthx_read_hci_def Let_def steps_simps calm_simps steps_bind
      split: option.split prod.split)

lemma calm_bthx_dispatch [calm_simps]:
  "q \<in> X \<Longrightarrow> calm_handler contents qs X (WinVhciBthxDispatch W q ol il code)"
  by (simp add: WinVhciBthxDispatch_def bthx_switch_def Let_def steps_simps calm_simps steps_bind
      split: option.split BTHX_IOCTL.split)

lemma calm_pdo [calm_simps]:
  "calm_handler contents qs X (WinVhciPdoForwardToParent W q)"
  "calm_handler contents qs X (WinVhciPdoEvtPrepareHardware pc)"
  "calm_handler contents qs X (WinVhciPdoEvtD0Entry pc)"
  "calm_handler contents qs X (WinVhciPdoEvtD0Exit pc)"
  by (simp_all add: WinVhciPdoForwardToParent_def WinVhciPdoEvtPrepareHardware_def
      WinVhciPdoEvtD0Entry_def WinVhciPdoEvtD0Exit_def steps_simps calm_simps split_def)
    (auto simp: calm_defs forward_parent_contents)

end

end
