(* ===== verification/Histories.thy ===== *)
theory Histories
  imports Ledger
begin

text \<open>
  Interleavings that remember what was dispatched. A history is the shared state, the handlers in
  flight, the list of dispatches so far and what the framework itself took away: each dispatch grants
  its handler something (a request, say), a region may call on the framework to take something away
  (a synchronous purge), and the environment may do so on its own (a cancellation). An account
  compares what the state has with what was granted, exactly.
\<close>

inductive conc_history ::
  "('s \<Rightarrow> 'd \<Rightarrow> bool) \<Rightarrow> ('d \<Rightarrow> ('s, unit) prog) \<Rightarrow> ('s \<Rightarrow> 's \<Rightarrow> bool) \<Rightarrow> ('s \<Rightarrow> 's \<Rightarrow> 'm) \<Rightarrow>
   ('s \<Rightarrow> 's \<Rightarrow> 'm) \<Rightarrow> 's \<Rightarrow> 's \<Rightarrow> ('s, unit) prog list \<Rightarrow> 'd list \<Rightarrow> 'm::comm_monoid_add \<Rightarrow> bool"
  for enabled :: "'s \<Rightarrow> 'd \<Rightarrow> bool" and prog_of :: "'d \<Rightarrow> ('s, unit) prog"
    and env :: "'s \<Rightarrow> 's \<Rightarrow> bool" and purged cancelled :: "'s \<Rightarrow> 's \<Rightarrow> 'm" and s0 :: 's where
  start: "conc_history enabled prog_of env purged cancelled s0 s0 [] [] 0"
| dispatch: "conc_history enabled prog_of env purged cancelled s0 s ts ds gone \<Longrightarrow> enabled s d \<Longrightarrow>
    conc_history enabled prog_of env purged cancelled s0 s (ts @ [prog_of d]) (ds @ [d]) gone"
| region: "conc_history enabled prog_of env purged cancelled s0 s ts ds gone \<Longrightarrow> i < length ts \<Longrightarrow>
    ts ! i = Step f k \<Longrightarrow>
    conc_history enabled prog_of env purged cancelled s0 (f s) (ts[i := k s]) ds
      (gone + purged s (f s))"
| environment: "conc_history enabled prog_of env purged cancelled s0 s ts ds gone \<Longrightarrow> env s s' \<Longrightarrow>
    conc_history enabled prog_of env purged cancelled s0 s' ts ds (gone + cancelled s s')"

text \<open>A history without its record of what was taken away.\<close>

lemma history_forget:
  "conc_history enabled prog_of env purged cancelled s0 s ts ds gone \<Longrightarrow>
   conc_history enabled prog_of env (\<lambda>_ _. 0::'m::comm_monoid_add) (\<lambda>_ _. 0) s0 s ts ds 0"
proof (induction rule: conc_history.induct)
  case (region s ts ds gone i f k)
  then show ?case
    using conc_history.region [of enabled prog_of env "\<lambda>_ _. 0" "\<lambda>_ _. 0" s0 s ts ds 0 i f k] by simp
next
  case (environment s ts ds gone s')
  then show ?case
    using conc_history.environment [of enabled prog_of env "\<lambda>_ _. 0" "\<lambda>_ _. 0" s0 s ts ds 0 s'] by simp
qed (blast intro: conc_history.start conc_history.dispatch)+

text \<open>Forgetting the dispatches as well leaves an interleaving.\<close>

lemma history_reach:
  assumes "conc_history enabled prog_of env purged cancelled s0 s ts ds gone"
    and "\<And>s d. enabled s d \<Longrightarrow> spawn s (prog_of d)"
  shows "conc_reach spawn env s0 (s, ts)"
  using assms(1)
proof induction
  case (dispatch s ts ds gone d)
  then show ?case
    by (blast intro: conc_reach.step conc_step.dispatch assms(2))
qed (blast intro: conc_reach.start conc_reach.step conc_step.region conc_step.environment)+

text \<open>What holds of every dispatched handler and is kept by its steps holds of all in flight.\<close>

lemma history_handlers:
  assumes "conc_history enabled prog_of env purged cancelled s0 s ts ds gone"
    and "\<And>d. Q (prog_of d)" and "\<And>f k s. Q (Step f k) \<Longrightarrow> Q (k s)"
  shows "\<forall>p \<in> set ts. Q p"
  using assms(1)
proof induction
  case (region s ts ds gone i f k)
  then have "Q (k s)"
    using assms(3) [of f k s] by (metis nth_mem)
  with region.IH show ?case
    by (auto dest!: set_update_subset_insert [THEN subsetD])
qed (use assms(2) in auto)

text \<open>Running one dispatch to its end, when nothing is purged.\<close>

lemma history_rest:
  assumes "steps I (\<lambda>s s'. purged s s' = 0) p" and "safe I p" and "I s"
    and "conc_history enabled prog_of env purged cancelled s0 s (ts @ [p]) ds gone"
  shows "conc_history enabled prog_of env purged cancelled s0 (exec p s)
           (ts @ [Return (result p s)]) ds gone"
  using assms
proof (induction p arbitrary: s)
  case (Step f k)
  have "conc_history enabled prog_of env purged cancelled s0 (f s)
      ((ts @ [Step f k])[length ts := k s]) ds (gone + purged s (f s))"
    using Step.prems(4) by (intro conc_history.region) simp_all
  moreover have "purged s (f s) = 0" "I (f s)" "steps I (\<lambda>s s'. purged s s' = 0) (k s)" "safe I (k s)"
    using Step.prems(1-3) by simp_all
  ultimately show ?case using Step.IH [of "k s" "f s"] by simp
qed simp

lemma history_one:
  assumes "steps I (\<lambda>s s'. purged s s' = 0) (prog_of d)" and "safe I (prog_of d)" and "I s"
    and "enabled s d"
  shows "conc_history enabled prog_of env purged cancelled s (exec (prog_of d) s) [Return ()] [d] 0"
proof -
  have "conc_history enabled prog_of env purged cancelled s s ([] @ [prog_of d]) ([] @ [d]) 0"
    by (intro conc_history.dispatch conc_history.start assms(4))
  from history_rest [OF assms(1-3) this] show ?thesis by simp
qed

section \<open>Handlers that account for everything\<close>

text \<open>
  A region may have something purged, but then it waits for the framework, so the handler must hold
  nothing of what is waited for.
\<close>

primrec spends ::
  "('s \<Rightarrow> bool) \<Rightarrow> ('s \<Rightarrow> 'm::cancel_comm_monoid_add) \<Rightarrow> ('s \<Rightarrow> 's \<Rightarrow> 'm) \<Rightarrow> ('s \<Rightarrow> 's \<Rightarrow> bool) \<Rightarrow>
   ('s, unit) prog \<Rightarrow> 'm \<Rightarrow> bool" where
  "spends I m purged waits (Return a) = (\<lambda>h. h = 0)"
| "spends I m purged waits (Step f k) =
     (\<lambda>h. \<forall>s. I s \<longrightarrow> I (f s) \<and> (waits s (f s) \<longrightarrow> h = 0)
        \<and> (\<exists>h'. m (f s) + h' + purged s (f s) = m s + h \<and> spends I m purged waits (k s) h'))"

lemma settles_spends:
  "settles I m p h \<Longrightarrow> steps I (\<lambda>s s'. purged s s' = 0 \<and> \<not> waits s s') p \<Longrightarrow>
   spends I m purged waits p h"
proof (induction p arbitrary: h)
  case (Step f k)
  show ?case
  proof (simp, intro allI impI conjI)
    fix s assume "I s"
    with Step.prems obtain h' where h': "I (f s)" "m (f s) + h' = m s + h" "settles I m (k s) h'"
      and p: "purged s (f s) = 0" "\<not> waits s (f s)" "steps I (\<lambda>s s'. purged s s' = 0 \<and> \<not> waits s s') (k s)"
      by auto
    from h'(1) show "I (f s)" .
    from p(2) show "waits s (f s) \<Longrightarrow> h = 0" by simp
    from Step.IH [OF rangeI h'(3) p(3)] h'(2) p(1)
    show "\<exists>h'. m (f s) + h' + purged s (f s) = m s + h \<and> spends I m purged waits (k s) h'"
      by auto
  qed
qed simp

text \<open>The shapes the teardown paths are made of.\<close>

lemma spends_act:
  assumes "\<And>s. I s \<Longrightarrow> I (f s)" and "\<And>s. I s \<Longrightarrow> m (f s) + purged s (f s) = m s"
    and "spends I m purged waits p 0"
  shows "spends I m purged waits (act f p) 0"
  using assms by (auto simp: act_def intro!: exI [of _ 0])

lemma spends_atomically:
  assumes "\<And>s. I s \<Longrightarrow> I (snd (g s))"
    and "\<And>s. I s \<Longrightarrow> m (snd (g s)) + purged s (snd (g s)) = m s"
    and "\<And>x. spends I m purged waits (c x) 0"
  shows "spends I m purged waits (atomically g c) 0"
  using assms by (auto simp: atomically_def intro!: exI [of _ 0])

section \<open>The account of a history\<close>

locale account =
  fixes enabled :: "'s \<Rightarrow> 'd \<Rightarrow> bool"
    and prog_of :: "'d \<Rightarrow> ('s, unit) prog"
    and env :: "'s \<Rightarrow> 's \<Rightarrow> bool"
    and purged cancelled :: "'s \<Rightarrow> 's \<Rightarrow> 'm::cancel_comm_monoid_add"
    and inv :: "'s \<Rightarrow> bool"
    and m :: "'s \<Rightarrow> 'm"
    and grant :: "'d \<Rightarrow> 'm"
    and waits :: "'s \<Rightarrow> 's \<Rightarrow> bool"
  assumes dispatch_spends: "enabled s d \<Longrightarrow> spends inv m purged waits (prog_of d) (grant d)"
    and env_accounts: "env s s' \<Longrightarrow> inv s \<Longrightarrow> inv s' \<and> m s' + cancelled s s' = m s"
begin

text \<open>What the handlers in flight hold, and what was taken away, make up the difference.\<close>

lemma history_accounts:
  assumes "conc_history enabled prog_of env purged cancelled s0 s ts ds gone" and "inv s0"
  shows "inv s \<and> (\<exists>hs. list_all2 (spends inv m purged waits) ts hs
    \<and> m s + sum_list hs + gone = m s0 + sum_list (map grant ds))"
  using assms(1)
proof induction
  case start
  then show ?case
    using assms(2) by (auto intro!: exI [of _ "[]"])
next
  case (dispatch s ts ds gone d)
  then obtain hs where "inv s" and hs: "list_all2 (spends inv m purged waits) ts hs"
      "m s + sum_list hs + gone = m s0 + sum_list (map grant ds)"
    by blast
  from hs(2) have "m s + sum_list (hs @ [grant d]) + gone = m s0 + sum_list (map grant (ds @ [d]))"
    by (simp add: add.assoc [symmetric]) (metis add.assoc add.commute)
  moreover have "list_all2 (spends inv m purged waits) (ts @ [prog_of d]) (hs @ [grant d])"
    using hs(1) dispatch_spends [OF dispatch.hyps(2)] by (auto intro: list_all2_appendI)
  ultimately show ?case
    using \<open>inv s\<close> by blast
next
  case (region s ts ds gone i f k)
  then obtain hs where inv: "inv s" and hs: "list_all2 (spends inv m purged waits) ts hs"
      "m s + sum_list hs + gone = m s0 + sum_list (map grant ds)"
    by blast
  have len: "i < length hs" and at: "spends inv m purged waits (Step f k) (hs ! i)"
    using region.hyps hs by (auto simp: list_all2_conv_all_nth)
  then obtain h' where h': "inv (f s)" "m (f s) + h' + purged s (f s) = m s + hs ! i"
      "spends inv m purged waits (k s) h'"
    using inv by auto
  define rest where "rest = sum_list (take i hs) + sum_list (drop (Suc i) hs)"
  have new: "sum_list (hs[i := h']) = rest + h'"
    using len by (simp add: rest_def upd_conv_take_nth_drop ac_simps)
  have old: "sum_list hs = rest + hs ! i"
    by (subst id_take_nth_drop [OF len]) (simp add: rest_def ac_simps)
  have "m (f s) + sum_list (hs[i := h']) + (gone + purged s (f s))
      = (m (f s) + h' + purged s (f s)) + (rest + gone)"
    by (simp add: new ac_simps)
  also have "\<dots> = (m s + hs ! i) + (rest + gone)"
    by (simp only: h'(2))
  also have "\<dots> = m s + sum_list hs + gone"
    by (simp add: old ac_simps)
  finally have "m (f s) + sum_list (hs[i := h']) + (gone + purged s (f s))
      = m s0 + sum_list (map grant ds)"
    using hs(2) by simp
  moreover have "list_all2 (spends inv m purged waits) (ts[i := k s]) (hs[i := h'])"
    using hs(1) h'(3) by (rule list_all2_update_cong)
  ultimately show ?case
    using h'(1) by blast
next
  case (environment s ts ds gone s')
  then obtain hs where "inv s" and hs: "list_all2 (spends inv m purged waits) ts hs"
      "m s + sum_list hs + gone = m s0 + sum_list (map grant ds)"
    by blast
  from env_accounts [OF environment.hyps(2) \<open>inv s\<close>] have "inv s'" "m s' + cancelled s s' = m s"
    by blast+
  then have "m s' + sum_list hs + (gone + cancelled s s') = m s0 + sum_list (map grant ds)"
    using hs(2) by (metis (no_types, lifting) add.assoc add.commute)
  with \<open>inv s'\<close> hs(1) show ?case
    by blast
qed

lemma returned_hold_nothing:
  assumes "list_all2 (spends inv m purged waits) ts hs" and "\<forall>p \<in> set ts. \<exists>a. p = Return a"
  shows "sum_list hs = 0"
  using assms by (induction rule: list_all2_induct) auto

lemma quiescent_account:
  assumes "conc_history enabled prog_of env purged cancelled s0 s ts ds gone" and "inv s0"
    and "\<forall>p \<in> set ts. \<exists>a. p = Return a"
  shows "m s + gone = m s0 + sum_list (map grant ds)"
  using history_accounts [OF assms(1,2)] returned_hold_nothing [OF _ assms(3)]
  by (metis add.right_neutral)

text \<open>A handler that waits holds nothing, so nobody who is waited for waits.\<close>

lemma waiting_hold_nothing:
  assumes "list_all2 (spends inv m purged waits) ts hs" and "inv s" and "i < length ts"
    and "ts ! i = Step f k" and "waits s (f s)"
  shows "hs ! i = 0"
proof -
  have "spends inv m purged waits (Step f k) (hs ! i)"
    using assms(1,3,4) by (metis list_all2_nthD)
  with assms(2,5) show ?thesis by simp
qed

end

end
