(* ===== verification/Dispatches.thy ===== *)
theory Dispatches
  imports Device_Creation Quiet_Steps Histories
begin

text \<open>
  What the framework dispatches on the device, by name, with the handler each runs and the request
  it hands over; the exact account of requests over any history of dispatches, with what was purged
  and cancelled on the way; and whose requests the queues that are purged hold.
\<close>

section \<open>Dispatches\<close>

datatype dispatch =
    Read_File WDFREQUEST SIZE_T
  | Write_File WDFREQUEST SIZE_T
  | Io_Control WDFREQUEST SIZE_T SIZE_T ULONG
  | Create_File WDFREQUEST WDFFILEOBJECT
  | Close_File
  | Bthx_Internal WDFREQUEST SIZE_T SIZE_T BTHX_IOCTL
  | Bthx_Control WDFREQUEST SIZE_T SIZE_T BTHX_IOCTL
  | Pdo_Internal WDFREQUEST SIZE_T SIZE_T
  | Pdo_Control WDFREQUEST SIZE_T SIZE_T
  | Create_Child ULONG
  | Prepare_Hardware WINVHCI_PDO_CONTEXT
  | D0_Entry WINVHCI_PDO_CONTEXT
  | D0_Exit WINVHCI_PDO_CONTEXT
  | Pdo_Cleanup WINVHCI_PDO_CONTEXT
  | Io_Cleanup

fun handler :: "'w wdf \<Rightarrow> dispatch \<Rightarrow> ('w sys, unit) prog" where
  "handler W (Read_File r len) = WinVhciEvtIoRead W r len"
| "handler W (Write_File r len) = WinVhciEvtIoWrite W r len"
| "handler W (Io_Control r outLen inLen code) = WinVhciEvtIoDeviceControl W r outLen inLen code"
| "handler W (Create_File r f) = WinVhciEvtDeviceFileCreate r f"
| "handler W Close_File = WinVhciEvtFileClose W"
| "handler W (Bthx_Internal r outLen inLen ioctl) =
     WinVhciEvtBthxInternalDeviceControl W r outLen inLen ioctl"
| "handler W (Bthx_Control r outLen inLen ioctl) =
     WinVhciEvtBthxDeviceControl W r outLen inLen ioctl"
| "handler W (Pdo_Internal r outLen inLen) = WinVhciPdoEvtInternalDeviceControl W r outLen inLen"
| "handler W (Pdo_Control r outLen inLen) = WinVhciPdoEvtDeviceControl W r outLen inLen"
| "handler W (Create_Child i) = bind_prog (WinVhciEvtChildListCreateDevice W i) (\<lambda>_. Return ())"
| "handler W (Prepare_Hardware pc) = bind_prog (WinVhciPdoEvtPrepareHardware pc) (\<lambda>_. Return ())"
| "handler W (D0_Entry pc) = bind_prog (WinVhciPdoEvtD0Entry pc) (\<lambda>_. Return ())"
| "handler W (D0_Exit pc) = bind_prog (WinVhciPdoEvtD0Exit pc) (\<lambda>_. Return ())"
| "handler W (Pdo_Cleanup pc) = WinVhciPdoEvtCleanup pc"
| "handler W Io_Cleanup = WinVhciEvtSelfManagedIoCleanup W"

text \<open>A handle is never null, and a PDO's callback comes with the context of a PDO there is.\<close>

fun dispatchable :: "'w sys \<Rightarrow> dispatch \<Rightarrow> bool" where
  "dispatchable s (Create_File r f) = (f \<noteq> NULL_HANDLE)"
| "dispatchable s (Prepare_Hardware pc) = (pc \<in> ran (pdos s))"
| "dispatchable s (D0_Entry pc) = (pc \<in> ran (pdos s))"
| "dispatchable s (D0_Exit pc) = (pc \<in> ran (pdos s))"
| "dispatchable s (Pdo_Cleanup pc) = (pc \<in> ran (pdos s))"
| "dispatchable s d = True"

lemma dispatch_spawns: "dispatchable s d \<Longrightarrow> spawns W s (handler W d)"
  by (cases d) (auto simp: ran_def intro: spawns.intros)

text \<open>The request a dispatch hands to its handler.\<close>

fun handed :: "dispatch \<Rightarrow> WDFREQUEST multiset" where
  "handed (Read_File r len) = {#r#}"
| "handed (Write_File r len) = {#r#}"
| "handed (Io_Control r outLen inLen code) = {#r#}"
| "handed (Create_File r f) = {#r#}"
| "handed (Bthx_Internal r outLen inLen ioctl) = {#r#}"
| "handed (Bthx_Control r outLen inLen ioctl) = {#r#}"
| "handed (Pdo_Internal r outLen inLen) = {#r#}"
| "handed (Pdo_Control r outLen inLen) = {#r#}"
| "handed d = {#}"

text \<open>The request that may come to wait on a queue of the stack: that of a BTHX dispatch.\<close>

fun bthx_handed :: "dispatch \<Rightarrow> WDFREQUEST set" where
  "bthx_handed (Bthx_Internal r outLen inLen ioctl) = {r}"
| "bthx_handed (Bthx_Control r outLen inLen ioctl) = {r}"
| "bthx_handed d = {}"

text \<open>The two that purge queues.\<close>

fun tears_down :: "dispatch \<Rightarrow> bool" where
  "tears_down Close_File = True"
| "tears_down Io_Cleanup = True"
| "tears_down d = False"

text \<open>What changes without a handler; a queue can only lose requests.\<close>

definition cancel_step ::
  "('w \<Rightarrow> WDFQUEUE \<Rightarrow> WDFREQUEST list) \<Rightarrow> 'w sys \<Rightarrow> 'w sys \<Rightarrow> bool" where
  "cancel_step contents s s' \<longleftrightarrow>
     (\<exists>w' m' d. s' = s\<lparr>fw := w', mem := m', pdos := (pdos s) |` d\<rparr>
        \<and> (\<forall>q. mset (contents w' q) \<subseteq># mset (contents (fw s) q)))"

lemma cancel_env: "cancel_step contents s s' \<Longrightarrow> env_step contents s s'"
  unfolding cancel_step_def env_step_def by (metis mset.simps(1) mset_zero_iff_right subset_mset.le_zero_eq)

section \<open>What the framework takes away\<close>

text \<open>
  A synchronous purge: the log tells that a region made one, and the requests on the queue then are
  completed by the framework. \<open>WdfIoQueuePurgeSynchronously\<close> also waits for requests of the queue
  that the driver has taken off it; its region here is the moment that wait is over.
\<close>

definition purging :: "'w sys \<Rightarrow> 'w sys \<Rightarrow> bool" where
  "purging s s' \<longleftrightarrow> purges (calls s') \<noteq> purges (calls s)"

definition purged ::
  "('w \<Rightarrow> WDFQUEUE \<Rightarrow> WDFREQUEST list) \<Rightarrow> 'w sys \<Rightarrow> 'w sys \<Rightarrow> WDFREQUEST multiset" where
  "purged contents s s' =
     (if purging s s' then
        (case last (calls s') of QueuePurge q \<Rightarrow> mset (contents (fw s) q) | _ \<Rightarrow> {#})
      else {#})"

text \<open>A cancellation: what has left the queues without a handler.\<close>

definition cancelled ::
  "('w \<Rightarrow> WDFQUEUE \<Rightarrow> WDFREQUEST list) \<Rightarrow> 'w sys \<Rightarrow> 'w sys \<Rightarrow> WDFREQUEST multiset" where
  "cancelled contents s s' = parked contents s - parked contents s'"

abbreviation device_history ::
  "'w wdf \<Rightarrow> ('w \<Rightarrow> WDFQUEUE \<Rightarrow> WDFREQUEST list) \<Rightarrow> 'w sys \<Rightarrow> 'w sys \<Rightarrow> ('w sys, unit) prog list \<Rightarrow>
   dispatch list \<Rightarrow> WDFREQUEST multiset \<Rightarrow> bool" where
  "device_history W contents \<equiv>
     conc_history dispatchable (handler W) (cancel_step contents) (purged contents) (cancelled contents)"

lemma cancel_accounts:
  assumes "cancel_step contents s s'"
  shows "settled contents s' + cancelled contents s s' = settled contents s"
proof -
  from assms obtain w' m' d where s': "s' = s\<lparr>fw := w', mem := m', pdos := (pdos s) |` d\<rparr>"
      and sub: "\<And>q. mset (contents w' q) \<subseteq># mset (contents (fw s) q)"
    by (auto simp: cancel_step_def)
  have "parked contents s' \<subseteq># parked contents s"
    by (simp add: parked_def s' subset_mset.add_mono sub)
  then have "parked contents s' + cancelled contents s s' = parked contents s"
    by (simp add: cancelled_def)
  then have "parked contents s = cancelled contents s s' + parked contents s'"
    by (simp add: add.commute)
  then show ?thesis
    by (simp add: settled_def s' ac_simps)
qed

section \<open>The account of requests\<close>

text \<open>What a handler in flight holds.\<close>

definition holds ::
  "('w \<Rightarrow> WDFQUEUE \<Rightarrow> WDFREQUEST list) \<Rightarrow> WDFQUEUE \<times> WDFQUEUE \<times> WDFQUEUE \<Rightarrow>
   ('w sys, unit) prog \<Rightarrow> WDFREQUEST multiset \<Rightarrow> bool" where
  "holds contents qs = spends (system_inv contents qs) (settled contents) (purged contents) purging"

text \<open>A region that purges nothing and adds no request to the stack's queues but those of \<open>X\<close>.\<close>

definition unpurged ::
  "('w \<Rightarrow> WDFQUEUE \<Rightarrow> WDFREQUEST list) \<Rightarrow> WDFREQUEST set \<Rightarrow> 'w sys \<Rightarrow> 'w sys \<Rightarrow> bool" where
  "unpurged contents X s s' \<longleftrightarrow>
     purges (calls s') = purges (calls s) \<and> stack_set contents s' \<subseteq> stack_set contents s \<union> X"

lemma calm_unpurged: "calm contents X s s' \<Longrightarrow> unpurged contents X s s'"
  by (simp add: calm_def unpurged_def)

lemma unpurged_nothing: "unpurged contents X s s' \<Longrightarrow> purged contents s s' = {#} \<and> \<not> purging s s'"
  by (simp add: unpurged_def purged_def purging_def)

lemmas calm_nothing = unpurged_nothing [OF calm_unpurged]

abbreviation unpurged_handler ::
  "('w \<Rightarrow> WDFQUEUE \<Rightarrow> WDFREQUEST list) \<Rightarrow> WDFQUEUE \<times> WDFQUEUE \<times> WDFQUEUE \<Rightarrow> WDFREQUEST set \<Rightarrow>
   ('w sys, 'b) prog \<Rightarrow> bool" where
  "unpurged_handler contents qs X p \<equiv> steps (system_inv contents qs) (unpurged contents X) p"

lemma calm_unpurged_handler: "calm_handler contents qs X p \<Longrightarrow> unpurged_handler contents qs X p"
  by (erule steps_mono) (rule calm_unpurged)

lemma settles_holds:
  assumes "settles (system_inv contents qs) (settled contents) p h"
    and "unpurged_handler contents qs X p"
  shows "holds contents qs p h"
  unfolding holds_def using assms(1)
  by (rule settles_spends) (rule steps_mono [OF assms(2) unpurged_nothing])

context wdf_queues
begin

lemma purge_accounts:
  assumes "system_inv contents qs s" and "q \<in> {ReadEventQueue, ReadDataQueue}"
  shows "settled contents (purge_queue W q s) + purged contents s (purge_queue W q s)
      = settled contents s"
proof -
  have "purged contents s (purge_queue W q s) = mset (contents (fw s) (q (fdo s)))"
    by (simp add: purged_def purging_def purge_queue_def)
  then show ?thesis
    using assms(2) system_inv_distinct [OF assms(1)]
    by (auto simp: settled_defs purge_queue_def purge_contents queues_distinct_def)
qed

lemma framework_settled [settled_simps]:
  "settled contents (start_queue W q s) = settled contents s"
  "settled contents (snd (WinVhciRemoveRadios W s)) = settled contents s"
  by (simp_all add: settled_defs start_queue_def start_contents scan_contents)

lemma purge_if_created_accounts:
  assumes "system_inv contents qs s" and "q \<in> {ReadEventQueue, ReadDataQueue}"
  shows "settled contents (purge_if_created W q s) + purged contents s (purge_if_created W q s)
      = settled contents s"
  using purge_accounts [OF assms]
  by (cases "q (fdo s) = NULL_HANDLE") (simp_all add: purge_if_created_def purged_def purging_def)

lemma purge_holds:
  assumes "q \<in> {ReadEventQueue, ReadDataQueue}" and "holds contents qs p {#}"
  shows "holds contents qs (act (purge_queue W q) p) {#}"
    and "holds contents qs (act (purge_if_created W q) p) {#}"
proof -
  have p: "spends (system_inv contents qs) (settled contents) (purged contents) purging p {#}"
    using assms(2) by (simp add: holds_def)
  show "holds contents qs (act (purge_queue W q) p) {#}"
    unfolding holds_def
    by (rule spends_act [OF _ purge_accounts [OF _ assms(1)] p]) (simp_all add: region_inv)
  show "holds contents qs (act (purge_if_created W q) p) {#}"
    unfolding holds_def
    by (rule spends_act [OF _ purge_if_created_accounts [OF _ assms(1)] p])
      (simp_all add: region_inv purge_if_created_def)
qed

lemma calm_holds:
  assumes "\<And>s. system_inv contents qs s \<Longrightarrow> system_inv contents qs (f s)"
    and "\<And>s. settled contents (f s) = settled contents s"
    and "\<And>s. system_inv contents qs s \<Longrightarrow> calm contents {} s (f s)"
    and "holds contents qs p {#}"
  shows "holds contents qs (act f p) {#}"
  unfolding holds_def
  by (rule spends_act) (use assms calm_nothing [OF assms(3)] in \<open>auto simp: holds_def\<close>)

lemma calm_region_holds:
  assumes "\<And>s. system_inv contents qs s \<Longrightarrow> system_inv contents qs (snd (g s))"
    and "\<And>s. settled contents (snd (g s)) = settled contents s"
    and "\<And>s. system_inv contents qs s \<Longrightarrow> calm contents {} s (snd (g s))"
    and "\<And>x. holds contents qs (c x) {#}"
  shows "holds contents qs (atomically g c) {#}"
  unfolding holds_def
  by (rule spends_atomically)
    (use assms calm_nothing [OF assms(3)] in \<open>auto simp: holds_def\<close>)

lemma return_holds: "holds contents qs (Return ()) {#}"
  by (simp add: holds_def)

lemma close_release_holds: "holds contents qs (close_release W) {#}"
  unfolding close_release_def
  by (intro purge_holds calm_holds return_holds) (simp_all add: region_inv settled_simps calm_simps)

lemma FileClose_holds: "holds contents qs (WinVhciEvtFileClose W) {#}"
  unfolding WinVhciEvtFileClose_def
  by (rule calm_region_holds)
    (auto simp: region_inv settled_simps calm_simps close_release_holds intro!: calm_region_holds)

lemma IoCleanup_holds: "holds contents qs (WinVhciEvtSelfManagedIoCleanup W) {#}"
  unfolding WinVhciEvtSelfManagedIoCleanup_def
  by (intro purge_holds calm_holds return_holds) (simp_all add: region_inv settled_simps calm_simps)

lemma pdo_callbacks_settle:
  "settles (system_inv contents qs) (settled contents) (WinVhciPdoEvtPrepareHardware pc) {#}"
  "settles (system_inv contents qs) (settled contents) (WinVhciPdoEvtD0Entry pc) {#}"
  "settles (system_inv contents qs) (settled contents) (WinVhciPdoEvtD0Exit pc) {#}"
  "settles (system_inv contents qs) (settled contents) (WinVhciPdoEvtCleanup pc) {#}"
  by (simp_all add: WinVhciPdoEvtPrepareHardware_def WinVhciPdoEvtD0Entry_def
      WinVhciPdoEvtD0Exit_def WinVhciPdoEvtCleanup_def owes_simps region_inv settled_simps)

end

context wdf_creation
begin

lemma creation_settled [settled_simps]:
  "settled contents (snd (create_pdo W s)) = settled contents s"
  "settled contents (fill_pdo_context i pdo s) = settled contents s"
  "settled contents (count_pdo s) = settled contents s"
  "settled contents (log_call (DeviceInit c) s) = settled contents s"
  "settled contents (log_call (DeviceSetPnpCapabilities d a b) s) = settled contents s"
  "settled contents (log_call (QueueCreate d cfg st) s) = settled contents s"
  "contents w = contents (fw s) \<Longrightarrow> settled contents (s\<lparr>fw := w\<rparr>) = settled contents s"
  by (simp_all add: settled_defs create_pdo_def fill_pdo_context_def count_pdo_def
      device_create_contents split_def)

lemma CreateDevice_settles:
  "settles (system_inv contents qs) (settled contents) (WinVhciEvtChildListCreateDevice W i) {#}"
  unfolding WinVhciEvtChildListCreateDevice_def
  by (intro or_fail_settles pdo_init_contents)
    (simp_all add: owes_simps split_def region_inv settled_simps device_create_contents
      queue_create_contents, simp_all add: settled_defs pdo_init_contents)

text \<open>The creation of a PDO purges nothing either.\<close>

lemma unpurged_or_fail:
  assumes "\<And>w. contents (snd (f w)) = contents w" and "\<And>st. purges [c st] = 0"
    and "unpurged_handler contents qs X k"
  shows "unpurged_handler contents qs X (or_fail c f k)"
  using assms by (simp add: or_fail_def steps_simps unpurged_def stack_set_def split_def)

lemma unpurged_CreateDevice: "unpurged_handler contents qs X (WinVhciEvtChildListCreateDevice W i)"
  unfolding WinVhciEvtChildListCreateDevice_def
  by (intro unpurged_or_fail pdo_init_contents)
    (simp_all add: steps_simps unpurged_def stack_set_def split_def create_pdo_def
      fill_pdo_context_def count_pdo_def device_create_contents queue_create_contents)

lemma unpurged_PdoCleanup: "unpurged_handler contents qs X (WinVhciPdoEvtCleanup pc)"
  by (simp add: WinVhciPdoEvtCleanup_def steps_simps unpurged_def stack_set_def)

section \<open>Every dispatch\<close>

lemma dispatch_unpurged:
  assumes "\<not> tears_down d"
  shows "unpurged_handler contents qs (bthx_handed d) (handler W d)"
proof (cases d)
  case (Create_Child i)
  then show ?thesis by (simp add: steps_bind unpurged_CreateDevice)
next
  case (Pdo_Cleanup pc)
  then show ?thesis by (simp add: unpurged_PdoCleanup)
qed (use assms in \<open>auto intro!: calm_unpurged_handler steps_bind calm_simps simp:
    WinVhciEvtIoWrite_def WinVhciEvtBthxInternalDeviceControl_def WinVhciEvtBthxDeviceControl_def
    WinVhciPdoEvtInternalDeviceControl_def WinVhciPdoEvtDeviceControl_def\<close>)

lemma dispatch_holds: "holds contents qs (handler W d) (handed d)"
proof (cases "tears_down d")
  case True
  then show ?thesis by (cases d) (simp_all add: FileClose_holds IoCleanup_holds)
next
  case False
  then have "settles (system_inv contents qs) (settled contents) (handler W d) (handed d)"
    by (cases d) (auto intro!: handlers_settle settles_bind CreateDevice_settles
        pdo_callbacks_settle)
  then show ?thesis
    using dispatch_unpurged [OF False] by (rule settles_holds)
qed

end

sublocale wdf_creation \<subseteq> requests: account dispatchable "handler W" "cancel_step contents"
  "purged contents" "cancelled contents" "system_inv contents qs" "settled contents" handed purging
  for qs
  by unfold_locales
    (auto simp: cancel_accounts holds_def [symmetric] intro: dispatch_holds env_step_inv cancel_env)

lemma holds_returned:
  assumes "list_all2 (holds contents qs) ts hs"
  shows "\<forall>i < length ts. \<forall>a. ts ! i = Return a \<longrightarrow> hs ! i = {#}"
proof (intro allI impI)
  fix i a assume "i < length ts" "ts ! i = Return a"
  with assms have "holds contents qs (Return a) (hs ! i)"
    by (metis list_all2_nthD)
  then show "hs ! i = {#}" by (simp add: holds_def)
qed

context wdf_creation
begin

text \<open>The account of requests, and its two corollaries, by the names of the model.\<close>

lemma history_account:
  assumes "device_history W contents s0 s ts ds gone" and "system_inv contents qs s0"
  shows "\<exists>hs. list_all2 (holds contents qs) ts hs
    \<and> settled contents s + sum_list hs + gone = settled contents s0 + sum_list (map handed ds)"
  using requests.history_accounts [OF assms] by (simp add: holds_def)

lemma holds_waiting:
  assumes "list_all2 (holds contents qs) ts hs" and "system_inv contents qs s" and "i < length ts"
    and "ts ! i = Step f k" and "purging s (f s)"
  shows "hs ! i = {#}"
  using assms(1) unfolding holds_def by (rule requests.waiting_hold_nothing) (rule assms)+

text \<open>One dispatch that tears nothing down, run to its end, is a history.\<close>

lemma history_dispatch:
  assumes "system_inv contents qs s" and "dispatchable s d" and "\<not> tears_down d"
  shows "device_history W contents s (exec (handler W d) s) [Return ()] [d] {#}"
  unfolding zero_multiset_def [symmetric]
proof (rule history_one)
  show "steps (system_inv contents qs) (\<lambda>s s'. purged contents s s' = 0) (handler W d)"
    using dispatch_unpurged [OF assms(3)] by (rule steps_mono) (simp add: unpurged_nothing)
  show "safe (system_inv contents qs) (handler W d)"
    using dispatch_spawns [OF assms(2)] by (rule spawns_safe)
qed (use assms in simp_all)

end

end
