(* ===== verification/Radio_Census.thy ===== *)
theory Radio_Census
  imports Dispatches
begin

text \<open>
  The count of live radios (\<open>RadiosAlive\<close>) against the PDO objects the driver made and those the
  framework destroyed. Between making the object and counting it the creation has one in hand.
\<close>

section \<open>The census\<close>

definition census :: "'w sys \<Rightarrow> LONG" where
  "census s = RadiosAlive (fdo s) - of_nat (radios_made (calls s))"

definition same_census :: "'w sys \<Rightarrow> 'w sys \<Rightarrow> bool" where
  "same_census s s' \<longleftrightarrow>
     RadiosAlive (fdo s') = RadiosAlive (fdo s) \<and> radios_made (calls s') = radios_made (calls s)"

lemma calm_same_census: "calm contents X s s' \<Longrightarrow> same_census s s'"
  by (simp add: calm_def same_census_def)

lemma steps_settles:
  assumes "steps I same_census p" and "safe I p"
  shows "settles I census p 0"
  using assms by (induction p) (simp_all add: same_census_def census_def)

lemma calm_census:
  "calm_handler contents qs X p \<Longrightarrow> safe (system_inv contents qs) p \<Longrightarrow>
   settles (system_inv contents qs) census p 0"
  by (rule steps_settles) (auto elim: steps_mono intro: calm_same_census)

text \<open>A cleanup takes one radio away.\<close>

fun departed :: "dispatch \<Rightarrow> LONG" where
  "departed (Pdo_Cleanup pc) = - 1"
| "departed d = 0"

text \<open>How many cleanups there were.\<close>

fun cleanups :: "dispatch list \<Rightarrow> nat" where
  "cleanups [] = 0"
| "cleanups (Pdo_Cleanup pc # ds) = Suc (cleanups ds)"
| "cleanups (d # ds) = cleanups ds"

lemma departed_cleanups: "sum_list (map departed ds) = - of_nat (cleanups ds)"
  by (induction ds rule: cleanups.induct) simp_all

text \<open>What a region leaves in hand, in a group.\<close>

lemma in_hand_iff: "(\<exists>h'. a + h' = b \<and> P h') \<longleftrightarrow> P (b - a :: LONG)"
  by (metis add_diff_cancel_left' diff_add_cancel add.commute)

context wdf_queues
begin

lemma same_census_teardown:
  "steps (system_inv contents qs) same_census (WinVhciEvtFileClose W)"
  "steps (system_inv contents qs) same_census (WinVhciEvtSelfManagedIoCleanup W)"
  by (simp_all add: WinVhciEvtFileClose_def close_release_def WinVhciEvtSelfManagedIoCleanup_def
      purge_if_created_def purge_queue_def steps_simps same_census_def start_queue_def
      close_locked_def Let_def)

lemma cleanup_census:
  "settles (system_inv contents qs) census (WinVhciPdoEvtCleanup pc) (- 1)"
  by (simp add: WinVhciPdoEvtCleanup_def owes_simps census_def region_inv)

end

context wdf_creation
begin

text \<open>\<open>WdfDeviceCreate\<close> makes the object, \<open>InterlockedIncrement\<close> counts it.\<close>

lemma census_log: "(\<And>cb st. c \<noteq> DeviceCreate cb st) \<Longrightarrow> census (log_call c s) = census s"
  by (cases c) (auto simp: census_def)

lemma creation_census:
  "census (snd (create_pdo W s)) =
     (if NT_SUCCESS (fst (fst (create_pdo W s))) then census s - 1 else census s)"
  "census (fill_pdo_context i pdo s) = census s"
  "census (count_pdo s) = census s + 1"
  "census (s\<lparr>fw := w\<rparr>) = census s"
  by (simp_all add: census_def create_pdo_def fill_pdo_context_def count_pdo_def split_def)

lemma CreateDevice_census:
  "settles (system_inv contents qs) census (WinVhciEvtChildListCreateDevice W i) 0"
  unfolding WinVhciEvtChildListCreateDevice_def
  by (intro or_fail_settles pdo_init_contents)
    (simp_all add: owes_simps in_hand_iff split_def region_inv creation_census census_log)

lemma dispatch_census: "settles (system_inv contents qs) census (handler W d) (departed d)"
proof (cases d)
  case (Create_Child i)
  then show ?thesis by (simp add: settles_bind CreateDevice_census)
next
  case (Pdo_Cleanup pc)
  then show ?thesis by (simp add: cleanup_census)
next
  case Close_File
  then show ?thesis by (simp add: steps_settles same_census_teardown region_inv)
next
  case Io_Cleanup
  then show ?thesis by (simp add: steps_settles same_census_teardown region_inv)
qed (auto intro!: calm_census [where X = "bthx_handed d"] steps_bind calm_simps region_inv
    simp: WinVhciEvtIoWrite_def WinVhciEvtBthxInternalDeviceControl_def
    WinVhciEvtBthxDeviceControl_def WinVhciPdoEvtInternalDeviceControl_def
    WinVhciPdoEvtDeviceControl_def)

lemma census_cancel: "cancel_step contents s s' \<Longrightarrow> census s' = census s"
  by (auto simp: cancel_step_def census_def)

lemma census_spends:
  "spends (system_inv contents qs) census (\<lambda>_ _. 0) (\<lambda>_ _. False) (handler W d) (departed d)"
  using dispatch_census by (rule settles_spends) (simp add: steps_trivial)

end

sublocale wdf_creation \<subseteq> radios: account dispatchable "handler W" "cancel_step contents"
  "\<lambda>_ _. 0" "\<lambda>_ _. 0" "system_inv contents qs" census departed "\<lambda>_ _. False"
  for qs
  by unfold_locales (auto simp: census_cancel intro: census_spends env_step_inv cancel_env)

context wdf_creation
begin

lemma census_account:
  assumes "device_history W contents s0 s ts ds gone" and "system_inv contents qs s0"
    and "\<forall>p \<in> set ts. \<exists>a. p = Return a"
  shows "census s = census s0 + sum_list (map departed ds)"
  using radios.quiescent_account [OF history_forget [OF assms(1)] assms(2,3)] by simp

end

end
