(* ===== verification/Bounded_Handlers.thy ===== *)
theory Bounded_Handlers
  imports Dispatches
begin

text \<open>
  A handler makes a bounded number of steps of its own, whatever the other handlers do between them.
  What a step may have to wait for is told in \<open>Purge_Waits\<close>.
\<close>

primrec within :: "('s, 'a) prog \<Rightarrow> nat \<Rightarrow> bool" where
  "within (Return a) = (\<lambda>n. True)"
| "within (Step f k) = (\<lambda>n. n > 0 \<and> (\<forall>s. within (k s) (n - 1)))"

lemma within_mono: "within p n \<Longrightarrow> n \<le> m \<Longrightarrow> within p m"
proof (induction p arbitrary: n m)
  case (Step f k)
  then have "within (k s) (n - 1)" "n - 1 \<le> m - 1" "0 < m" for s
    by auto
  then show ?case using Step.IH [OF rangeI] by auto
qed simp

lemma within_simps:
  "within (atomically g c) n \<longleftrightarrow> n > 0 \<and> (\<forall>s. within (c (fst (g s))) (n - 1))"
  "within (act f p) n \<longleftrightarrow> n > 0 \<and> within p (n - 1)"
  "within (observe h c) n \<longleftrightarrow> n > 0 \<and> (\<forall>s. within (c (h s)) (n - 1))"
  by (simp_all add: atomically_def act_def observe_def)

lemma within_bind:
  assumes "within p n" and "\<And>x. within (c x) m" and "n + m \<le> k"
  shows "within (bind_prog p c) k"
proof -
  have "within (bind_prog p c) (n + m)"
    using assms(1)
  proof (induction p arbitrary: n)
    case (Return a)
    then show ?case using within_mono [OF assms(2)] by simp
  next
    case (Step f g)
    then have n: "0 < n" "within (g s) (n - 1)" for s
      by simp_all
    have "within (bind_prog (g s) c) (n - 1 + m)" for s
      using Step.IH [OF rangeI n(2)] .
    moreover have "n - 1 + m = n + m - 1"
      using n(1) by simp
    ultimately show ?case using n(1) by simp
  qed
  then show ?thesis using assms(3) by (rule within_mono)
qed

text \<open>
  Taking its steps one after the other, each from whatever state it finds, it has returned.
\<close>

fun drive :: "('s, 'a) prog \<Rightarrow> 's list \<Rightarrow> ('s, 'a) prog" where
  "drive p [] = p"
| "drive p (s # ss) = drive (snd (advance p s)) ss"

lemma drive_Return [simp]: "drive (Return a) ss = Return a"
  by (induction ss) simp_all

lemma within_drive: "within p n \<Longrightarrow> n \<le> length ss \<Longrightarrow> \<exists>a. drive p ss = Return a"
proof (induction ss arbitrary: p n)
  case Nil
  then show ?case by (cases p) simp_all
next
  case (Cons s ss)
  show ?case
  proof (cases p)
    case (Step f k)
    with Cons.prems have "within (k s) (n - 1)" "n - 1 \<le> length ss"
      by auto
    with Cons.IH Step show ?thesis by simp
  qed simp
qed

section \<open>The handlers\<close>

lemma within_QueueToUser: "within (WinVhciQueueToUser W t b n) 2"
  by (simp add: WinVhciQueueToUser_def within_simps split: option.split)

lemma within_DeliverToStack: "within (WinVhciDeliverToStack W t b n) 2"
  by (simp add: WinVhciDeliverToStack_def within_simps split: option.split prod.split)

lemma within_control: "within (WinVhciHandleControl W b n) 4"
  by (auto simp: WinVhciHandleControl_def Let_def within_simps split: option.split
      intro!: within_bind [OF within_QueueToUser, where m = 0])

lemma within_switch: "within (dispatch_by_type W t b n) 4"
proof -
  have "within (WinVhciDeliverToStack W u b n) 3" for u
    using within_DeliverToStack by (rule within_mono) simp
  then show ?thesis
    using within_control [of W b n] by (simp add: dispatch_by_type_def within_simps)
qed

lemma within_write: "within (WinVhciDispatchWrite W q) 6"
  by (auto simp: WinVhciDispatchWrite_def Let_def within_simps split: prod.split
      intro!: within_bind [OF within_switch, where m = 1])

lemma within_bthx_write: "within (bthx_write_hci W ib il) 4"
  by (auto simp: bthx_write_hci_def Let_def within_simps split: prod.split
      intro!: within_bind [OF within_QueueToUser, where m = 0])

lemma within_bthx_switch: "within (bthx_switch W q ib il ob ol code) 4"
  using within_bthx_write [of W ib il]
  by (simp add: bthx_switch_def bthx_get_version_def bthx_set_version_def
      bthx_query_capabilities_def bthx_read_hci_def Let_def within_simps
      split: BTHX_IOCTL.split option.split prod.split)

lemma within_bthx_dispatch: "within (WinVhciBthxDispatch W q ol il code) 6"
  by (auto simp: WinVhciBthxDispatch_def Let_def within_simps split: option.split
      intro!: within_bind [OF within_bthx_switch, where m = 1])

lemma within_create_device: "within (WinVhciEvtChildListCreateDevice W i) 13"
  by (simp add: WinVhciEvtChildListCreateDevice_def or_fail_def within_simps split: prod.split)

lemma handler_within: "within (handler W d) 13"
proof -
  have user: "within (WinVhciDispatchWrite W q) 13" for q
    using within_write by (rule within_mono) simp
  have bthx: "within (WinVhciBthxDispatch W q ol il code) 13" for q ol il code
    using within_bthx_dispatch by (rule within_mono) simp
  have create: "within (bind_prog (WinVhciEvtChildListCreateDevice W i) (\<lambda>_. Return ())) 13" for i
    by (rule within_bind [OF within_create_device, where m = 0]) simp_all
  show ?thesis
    by (cases d) (simp_all add: user bthx create WinVhciEvtIoRead_def WinVhciEvtIoWrite_def
        WinVhciEvtIoDeviceControl_def WinVhciEvtDeviceFileCreate_def WinVhciEvtFileClose_def
        close_release_def WinVhciEvtBthxInternalDeviceControl_def WinVhciEvtBthxDeviceControl_def
        WinVhciPdoEvtInternalDeviceControl_def WinVhciPdoEvtDeviceControl_def
        WinVhciPdoForwardToParent_def WinVhciPdoEvtPrepareHardware_def WinVhciPdoEvtD0Entry_def
        WinVhciPdoEvtD0Exit_def WinVhciPdoEvtCleanup_def WinVhciEvtSelfManagedIoCleanup_def
        within_simps split: option.split prod.split)
qed

text \<open>In flight as well: a handler that has made some of its steps has fewer left.\<close>

lemma in_flight_within:
  assumes "conc_history enabled (handler W) env lost lost' s0 s ts ds gone" and "p \<in> set ts"
  shows "within p 13"
proof -
  have "\<forall>p \<in> set ts. within p 13"
    using assms(1)
  proof (rule history_handlers)
    show "within (handler W d) 13" for d
      by (rule handler_within)
    show "within (k s) 13" if "within (Step f k) 13" for f k s
      using that by (auto intro: within_mono [where n = 12])
  qed
  with assms(2) show ?thesis by blast
qed

end
