(* ===== verification/Purge_Waits.thy ===== *)
theory Purge_Waits
  imports Dispatches
begin

text \<open>
  What a synchronous purge can wait for. Only the two queues of the stack are purged, and over any
  history the requests on them are requests of BTHX dispatches, never a request of the control
  device.
\<close>

section \<open>Regions that purge only the stack's queues\<close>

definition tame ::
  "('w \<Rightarrow> WDFQUEUE \<Rightarrow> WDFREQUEST list) \<Rightarrow> WDFREQUEST set \<Rightarrow> 'w sys \<Rightarrow> 'w sys \<Rightarrow> bool" where
  "tame contents X s s' \<longleftrightarrow>
     (purging s s' \<longrightarrow>
        (\<exists>q \<in> {ReadEventQueue (fdo s), ReadDataQueue (fdo s)}. calls s' = calls s @ [QueuePurge q]))
     \<and> stack_set contents s' \<subseteq> stack_set contents s \<union> X"

lemma tame_mono: "tame contents X s s' \<Longrightarrow> X \<subseteq> Y \<Longrightarrow> tame contents Y s s'"
  by (auto simp: tame_def)

lemma unpurged_tame: "unpurged contents X s s' \<Longrightarrow> tame contents X s s'"
  by (simp add: unpurged_def tame_def purging_def)

lemmas calm_tame = unpurged_tame [OF calm_unpurged]

abbreviation tame_handler ::
  "('w \<Rightarrow> WDFQUEUE \<Rightarrow> WDFREQUEST list) \<Rightarrow> WDFQUEUE \<times> WDFQUEUE \<times> WDFQUEUE \<Rightarrow> WDFREQUEST set \<Rightarrow>
   ('w sys, 'b) prog \<Rightarrow> bool" where
  "tame_handler contents qs X p \<equiv> steps (system_inv contents qs) (tame contents X) p"

lemma tame_handler_mono: "tame_handler contents qs X p \<Longrightarrow> X \<subseteq> Y \<Longrightarrow> tame_handler contents qs Y p"
  by (erule steps_mono) (rule tame_mono)

context wdf_queues
begin

lemma purge_tame:
  assumes "q \<in> {ReadEventQueue, ReadDataQueue}"
  shows "tame contents X s (purge_queue W q s)" and "tame contents X s (purge_if_created W q s)"
  using assms
  by (auto simp: tame_def purging_def purge_queue_def purge_if_created_def stack_set_def
      purge_contents split: if_splits)

lemma teardown_tame:
  "tame_handler contents qs X (WinVhciEvtFileClose W)"
  "tame_handler contents qs X (WinVhciEvtSelfManagedIoCleanup W)"
  by (simp_all add: WinVhciEvtFileClose_def close_release_def WinVhciEvtSelfManagedIoCleanup_def
      steps_simps purge_tame calm_tame calm_simps)

end

context wdf_creation
begin

lemma dispatch_tame: "tame_handler contents qs (bthx_handed d) (handler W d)"
proof (cases "tears_down d")
  case True
  then show ?thesis by (cases d) (simp_all add: teardown_tame)
next
  case False
  then show ?thesis
    using dispatch_unpurged by (blast intro: steps_mono unpurged_tame)
qed

section \<open>Whose requests wait for the stack's packets\<close>

lemma cancel_stack_set: "cancel_step contents s s' \<Longrightarrow> stack_set contents s' \<subseteq> stack_set contents s"
  unfolding cancel_step_def stack_set_def
  by (auto dest!: mset_subset_eqD simp flip: set_mset_mset)

lemma history_tame:
  assumes "device_history W contents s0 s ts ds gone" and "system_inv contents qs s0"
  shows "system_inv contents qs s
    \<and> stack_set contents s \<subseteq> stack_set contents s0 \<union> \<Union> (bthx_handed ` set ds)
    \<and> (\<forall>p \<in> set ts. tame_handler contents qs (\<Union> (bthx_handed ` set ds)) p)"
  using assms(1)
proof induction
  case start
  then show ?case using assms(2) by simp
next
  case (dispatch s ts ds gone d)
  have "tame_handler contents qs (\<Union> (bthx_handed ` set (ds @ [d]))) (handler W d)"
    by (rule tame_handler_mono [OF dispatch_tame]) auto
  moreover have "tame_handler contents qs (\<Union> (bthx_handed ` set (ds @ [d]))) p" if "p \<in> set ts" for p
    by (rule tame_handler_mono [where X = "\<Union> (bthx_handed ` set ds)"])
      (use dispatch.IH that in auto)
  ultimately show ?case
    using dispatch.IH by auto
next
  case (region s ts ds gone i f k)
  have inv: "system_inv contents qs (f s)"
    using requests.history_accounts [OF conc_history.region [OF region.hyps] assms(2)] by simp
  have "tame_handler contents qs (\<Union> (bthx_handed ` set ds)) (Step f k)"
    using region by (metis nth_mem)
  then have "tame contents (\<Union> (bthx_handed ` set ds)) s (f s)"
      "tame_handler contents qs (\<Union> (bthx_handed ` set ds)) (k s)"
    using region.IH by simp_all
  moreover from this(1) have "stack_set contents (f s) \<subseteq> stack_set contents s \<union> \<Union> (bthx_handed ` set ds)"
    by (simp add: tame_def)
  ultimately show ?case
    using region.IH inv by (auto dest!: set_update_subset_insert [THEN subsetD])
next
  case (environment s ts ds gone s')
  then show ?case
    using cancel_stack_set [OF environment.hyps(2)] env_step_inv [OF cancel_env] by blast
qed

lemma history_purges:
  assumes "device_history W contents s0 s ts ds gone" and "system_inv contents qs s0"
    and "stack_set contents s0 = {}" and "i < length ts" and "ts ! i = Step f k"
    and "purging s (f s)"
  shows "\<exists>q \<in> {ReadEventQueue (fdo s), ReadDataQueue (fdo s)}. calls (f s) = calls s @ [QueuePurge q]
    \<and> set (contents (fw s) q) \<subseteq> \<Union> (bthx_handed ` set ds)"
proof -
  note h = history_tame [OF assms(1,2)]
  have "tame_handler contents qs (\<Union> (bthx_handed ` set ds)) (Step f k)"
    using h assms(4,5) by (metis nth_mem)
  then have "tame contents (\<Union> (bthx_handed ` set ds)) s (f s)"
    using h by simp
  moreover have "stack_set contents s \<subseteq> \<Union> (bthx_handed ` set ds)"
    using h assms(3) by simp
  ultimately show ?thesis
    using assms(6) by (auto simp: tame_def stack_set_def)
qed

end

end
