(* ===== verification/System_Properties.thy ===== *)
theory System_Properties
  imports Radio_Properties End_To_End Setup_Order Radio_Census Bounded_Handlers Purge_Waits
begin

text \<open>
  Properties of the device as a whole: over any history of what the framework dispatches, and of a
  packet from the side that sends it to the side that receives it.
\<close>

section \<open>Any history of dispatches\<close>

text \<open>
  C4. Every request is somewhere, once. From a consistent state, over any history of what the framework dispatches, in any
  order and interleaving of the handlers' regions, with requests cancelled and queues purged in
  between, a request the driver was handed once and had not seen before is in exactly one place and
  there once: waiting on one of the three queues, completed by the driver, passed on to the parent,
  in the hands of one handler that has not returned, or taken off its queue by the framework, which
  cancelled or purged it. A handler that has returned holds none. What a handler holds (\<open>holds\<close>) is
  what its remaining regions will complete, park or pass on.
\<close>

theorem requests_settled_at_most_once:
  assumes "wdf_creation W contents live" and "system_inv contents qs s0"
    and "device_history W contents s0 s ts ds gone"
  shows "\<exists>hs. list_all2 (holds contents qs) ts hs
    \<and> parked contents s + completed (calls s) + passed_on (calls s) + sum_list hs + gone
        = settled contents s0 + sum_list (map handed ds)
    \<and> (\<forall>i < length ts. \<forall>a. ts ! i = Return a \<longrightarrow> hs ! i = {#})
    \<and> (\<forall>r. r \<notin># settled contents s0 \<and> count (sum_list (map handed ds)) r = 1 \<longrightarrow>
         count (parked contents s) r + count (completed (calls s)) r + count (passed_on (calls s)) r
         + count (sum_list hs) r + count gone r = 1)"
proof -
  obtain hs where hs: "list_all2 (holds contents qs) ts hs"
      "settled contents s + sum_list hs + gone = settled contents s0 + sum_list (map handed ds)"
    using wdf_creation.history_account [OF assms(1,3,2)] by blast
  have "count (settled contents s + sum_list hs + gone) r = 1"
    if "r \<notin># settled contents s0" "count (sum_list (map handed ds)) r = 1" for r
    unfolding hs(2) using that by (simp add: not_in_iff)
  then have "\<forall>r. r \<notin># settled contents s0 \<and> count (sum_list (map handed ds)) r = 1 \<longrightarrow>
      count (parked contents s) r + count (completed (calls s)) r + count (passed_on (calls s)) r
      + count (sum_list hs) r + count gone r = 1"
    by (simp only: settled_def [of contents s] count_union) blast
  with hs(1) hs(2) [unfolded settled_def [of contents s]] holds_returned [OF hs(1)]
  show ?thesis by blast
qed

text \<open>A read is dispatched and parked.\<close>

lemma ref_read_history:
  "device_history (ref_wdf ref_env0) ref_contents ref_client
     (exec (handler (ref_wdf ref_env0) (Read_File 9 1026)) ref_client) [Return ()]
     [Read_File 9 1026] {#}"
  using ref_inv(2) by (rule wdf_creation.history_dispatch [OF ref.wdf_creation_axioms]) simp_all

lemma requests_settled_at_most_once_witness:
  "settled ref_contents (exec (handler (ref_wdf ref_env0) (Read_File 9 1026)) ref_client) = {#9#}"
  using requests_settled_at_most_once [OF ref.wdf_creation_axioms ref_inv(2) ref_read_history]
  by (auto simp: settled_defs holds_def list_all2_Cons1)

text \<open>
  C23. The count of live radios. Over any history of dispatches on a device that starts with no
  radio, once every handler has returned, \<open>RadiosAlive\<close> is the number of PDO objects the driver made
  less the number of PDOs whose cleanup callback ran, however making one, destroying another and
  everything else are interleaved (modulo \<open>2 ^ 32\<close>, the width of the field). So the statistic that
  tells a client creating radios back to back whether an earlier radio is still being removed
  (\<open>winvhci.h\<close>) is neither early nor stuck.
\<close>

theorem live_radios_are_counted:
  assumes "wdf_creation W contents live" and "system_inv contents qs s0"
    and "device_history W contents s0 s ts ds gone"
    and "\<forall>p \<in> set ts. \<exists>a. p = Return a"
    and "RadiosAlive (fdo s0) = 0" and "radios_made (calls s0) = 0"
  shows "RadiosAlive (fdo s) = of_nat (radios_made (calls s)) - of_nat (cleanups ds)"
proof -
  have "census s + 0 = census s0 + sum_list (map departed ds)"
    using wdf_creation.census_account [OF assms(1,3,2,4)] by simp
  with assms(5,6) show ?thesis
    by (simp add: census_def departed_cleanups algebra_simps)
qed

lemma ref_radio_made:
  "device_history (ref_wdf ref_env0) ref_contents ref_client
     (exec (handler (ref_wdf ref_env0) (Create_Child 1)) ref_client) [Return ()] [Create_Child 1] {#}"
  using ref_inv(2) by (rule wdf_creation.history_dispatch [OF ref.wdf_creation_axioms]) simp_all

lemma live_radios_are_counted_witness:
  "RadiosAlive (fdo (exec (handler (ref_wdf ref_env0) (Create_Child 1)) ref_client))
    = of_nat (radios_made (calls (exec (handler (ref_wdf ref_env0) (Create_Child 1)) ref_client)))"
  using live_radios_are_counted [OF ref.wdf_creation_axioms ref_inv(2) ref_radio_made] by simp

text \<open>
  C24. Handlers are bounded, and no purge waits in a circle. Closing the handle and tearing the
  device down purge queues synchronously, which waits for requests; a purge that waits for a request
  whose owner waits for the purge never ends, as it did when a queue of userspace requests was
  purged (\<open>user.c\<close>, \<open>WinVhciEvtFileClose\<close>). Over any history of dispatches from a consistent device
  with no request on the stack's queues: every handler in flight has at most thirteen steps of its
  own left, whatever the others do in between (a purge counts as one step, the moment its wait is
  over); a handler whose next step is a purge purges one of the two queues of the stack, and all
  requests on it are requests of BTHX dispatches; and that handler holds no request itself, so a
  purge never waits for a handler that is itself at a purge.
\<close>

theorem handlers_return:
  assumes "wdf_creation W contents live" and "system_inv contents qs s0"
    and "stack_set contents s0 = {}" and "device_history W contents s0 s ts ds gone"
  shows "(\<forall>p \<in> set ts. \<forall>ss. 13 \<le> length ss \<longrightarrow> (\<exists>a. drive p ss = Return a))
    \<and> (\<exists>hs. list_all2 (holds contents qs) ts hs
        \<and> settled contents s + sum_list hs + gone = settled contents s0 + sum_list (map handed ds)
        \<and> (\<forall>i < length ts. \<forall>f k. ts ! i = Step f k \<and> purging s (f s) \<longrightarrow>
             hs ! i = {#}
             \<and> (\<exists>q \<in> {ReadEventQueue (fdo s), ReadDataQueue (fdo s)}.
                  calls (f s) = calls s @ [QueuePurge q]
                  \<and> set (contents (fw s) q) \<subseteq> \<Union> (bthx_handed ` set ds))))"
    (is "?return \<and> (\<exists>hs. ?held hs \<and> ?account hs \<and> ?purges hs)")
proof
  show ?return
    using in_flight_within [OF assms(4)] within_drive by blast
  obtain hs where hs: "?held hs" "?account hs"
    using wdf_creation.history_account [OF assms(1,4,2)] by blast
  have inv: "system_inv contents qs s"
    using wdf_creation.history_tame [OF assms(1,4,2)] by simp
  have "?purges hs"
  proof (intro allI impI, elim conjE, rule conjI)
    fix i f k
    assume *: "i < length ts" "ts ! i = Step f k" "purging s (f s)"
    show "hs ! i = {#}"
      using wdf_creation.holds_waiting [OF assms(1) hs(1) inv *] .
    show "\<exists>q \<in> {ReadEventQueue (fdo s), ReadDataQueue (fdo s)}. calls (f s) = calls s @ [QueuePurge q]
        \<and> set (contents (fw s) q) \<subseteq> \<Union> (bthx_handed ` set ds)"
      using wdf_creation.history_purges [OF assms(1,4,2,3) *] .
  qed
  with hs show "\<exists>hs. ?held hs \<and> ?account hs \<and> ?purges hs"
    by blast
qed

text \<open>A close whose next step is its first purge.\<close>

lemma ref_close_history:
  "device_history (ref_wdf ref_env0) ref_contents ref_client
     (snd (close_locked ref_client)) [close_release (ref_wdf ref_env0)] [Close_File] {#}"
proof -
  let ?h = "device_history (ref_wdf ref_env0) ref_contents ref_client"
  have "?h ref_client ([] @ [handler (ref_wdf ref_env0) Close_File]) ([] @ [Close_File]) 0"
    by (intro conc_history.dispatch conc_history.start) simp
  then have "?h ref_client [WinVhciEvtFileClose (ref_wdf ref_env0)] [Close_File] 0"
    by simp
  from conc_history.region [OF this, of 0] show ?thesis
    by (simp add: WinVhciEvtFileClose_def atomically_def close_locked_def Let_def purged_def
        purging_def)
qed

lemma handlers_return_witness:
  "(\<exists>a. drive (close_release (ref_wdf ref_env0)) (replicate 13 ref_client) = Return a)
   \<and> (\<exists>q \<in> {2, 3}. calls (purge_queue (ref_wdf ref_env0) ReadEventQueue (snd (close_locked ref_client)))
        = calls (snd (close_locked ref_client)) @ [QueuePurge q])"
proof -
  let ?s = "snd (close_locked ref_client)"
  obtain k where step: "close_release (ref_wdf ref_env0)
      = Step (purge_queue (ref_wdf ref_env0) ReadEventQueue) k"
    by (simp add: close_release_def act_def)
  have purge: "purging ?s (purge_queue (ref_wdf ref_env0) ReadEventQueue ?s)"
    by (simp add: purging_def purge_queue_def)
  have "stack_set ref_contents ref_client = {}"
    by (simp add: stack_set_def)
  from handlers_return [OF ref.wdf_creation_axioms ref_inv(2) this ref_close_history] purge step
  have "(\<forall>p \<in> {close_release (ref_wdf ref_env0)}. \<forall>ss. 13 \<le> length ss \<longrightarrow>
        (\<exists>a. drive p ss = Return a))"
      "\<exists>q \<in> {ReadEventQueue (fdo ?s), ReadDataQueue (fdo ?s)}.
        calls (purge_queue (ref_wdf ref_env0) ReadEventQueue ?s) = calls ?s @ [QueuePurge q]"
    by auto
  then show ?thesis
    by (simp add: close_locked_def Let_def)
qed

section \<open>From one side to the other\<close>

text \<open>
  C8. What the stack sends is what the program reads, whichever of the two is first. With nothing
  waiting in the channel, a client and no shortage, a packet the stack writes with
  \<open>IOCTL_BTHX_WRITE_HCI\<close> and a \<open>ReadFile\<close> with room for it meet: the reader's buffer gets the type
  byte and the payload that lay in the stack's context and nothing around it is touched, both
  requests complete once, with the payload's length and one more, and the channel is as empty as it
  was.
\<close>

theorem commands_reach_the_reader:
  fixes W :: "'w wdf" and s :: "'w sys" and q r :: WDFREQUEST and outLen inLen len :: SIZE_T
  assumes "wdf_reliable W contents" and "system_inv contents qs s"
    and "Owner (fdo s) \<noteq> NULL_HANDLE" and "FailAllocOneIn (fdo s) = 0"
    and "user_waiting contents s = []" and "user_backlog s = []"
    and "WdfRequestWdmGetIrp W q = irp" and "RequestorMode irp = KernelMode"
    and "unat inLen < 2 ^ 32" and "write_accepted (mem s) (Type3InputBuffer irp) inLen"
    and "1026 \<le> unat len"
    and "user_read_fits W r (unat (pkt_Length (command_packet W q s)) + 1)"
  defines "send \<equiv> exec (WinVhciBthxDispatch W q outLen inLen IOCTL_BTHX_WRITE_HCI)"
    and "receive \<equiv> exec (WinVhciEvtIoRead W r len)"
  shows "command_crossed contents W q r s (receive (send s))
    \<and> command_crossed contents W q r s (send (receive s))"
  unfolding send_def receive_def
  using wdf_reliable.command_then_read_crosses [OF assms(1,3-12)]
    wdf_reliable.read_then_command_crosses [OF assms(1-3,5-12)] by blast

text \<open>The requests of both sides, and an \<open>HCI_Reset\<close> in the stack's context.\<close>

definition ref_both_env :: ref_env where
  "ref_both_env = ref_stack_env\<lparr>env_out := (\<lambda>r. (STATUS_SUCCESS, 0x1000, 1026))\<rparr>"

definition ref_reset_sent :: "ref_fw sys" where
  "ref_reset_sent = ref_radio\<lparr>mem := store_bytes (\<lambda>_. 0) 0x2000 (rw_context_bytes 3 1 [3, 0x0C, 0])\<rparr>"

lemma ref_both_irp:
  "WdfRequestWdmGetIrp (ref_wdf ref_both_env) r = \<lparr>RequestorMode = KernelMode,
     UserBuffer = 0x2004, Type3InputBuffer = 0x2000, IrpOutputBufferLength = 262\<rparr>"
  "user_read_fits (ref_wdf ref_both_env) r 4" "user_buffer (ref_wdf ref_both_env) r = 0x1000"
  by (simp_all add: ref_wdf_def ref_both_env_def ref_stack_env_def user_read_fits_def
      user_buffer_def)

lemma ref_reset_context: "context_at (mem ref_reset_sent) 0x2000 3 1 [3, 0x0C, 0]"
  by (simp add: ref_reset_sent_def context_at_stored)

lemma ref_reset_packet:
  "command_packet (ref_wdf ref_both_env) q ref_reset_sent =
     \<lparr>pkt_Type = 1, pkt_Length = 3, pkt_Data = [3, 0x0C, 0]\<rparr>"
  using ref_reset_context
  by (simp add: command_packet_def Let_def ref_both_irp context_at_def ctx_Data_def)

lemma ref_reset_state:
  "system_inv ref_contents (5, 2, 3) ref_reset_sent"
  by (simp add: ref_reset_sent_def set_mem_inv)

lemma commands_reach_the_reader_witness:
  "delivered (mem ref_reset_sent)
     (mem (exec (WinVhciBthxDispatch (ref_wdf ref_both_env) 9 0 8 IOCTL_BTHX_WRITE_HCI)
       (exec (WinVhciEvtIoRead (ref_wdf ref_both_env) 8 1026) ref_reset_sent)))
     0x1000 [1, 3, 0x0C, 0]"
proof -
  have "write_accepted (mem ref_reset_sent) 0x2000 8"
    using ref_reset_context by (simp add: write_accepted_def context_at_def)
  then show ?thesis
    using commands_reach_the_reader [OF ref.wdf_reliable_axioms ref_reset_state _ _ _ _
        ref_both_irp(1) [of 9], where inLen = 8 and len = 1026 and r = 8 and outLen = 0]
    by (simp add: command_crossed_def Let_def ref_reset_packet ref_both_irp)
      (simp add: ref_reset_sent_def user_waiting_def user_backlog_def)
qed

text \<open>
  C9. What the program writes is what the stack reads, whichever of the two is first. With the
  radio's stack up, nothing waiting in the channel of its type and no shortage (the framework refuses
  nothing and no allocation failure is injected), an admissible \<open>WriteFile\<close> and an
  \<open>IOCTL_BTHX_READ_HCI\<close> of that type with room for it meet: the read's context holds the packet
  with its type, its length and its bytes, both requests complete successfully, the write with its
  full length, and the channel is as empty as it was.
\<close>

theorem events_reach_the_stack:
  fixes W :: "'w wdf" and s :: "'w sys" and q r :: WDFREQUEST and outLen inLen len :: SIZE_T
  assumes "wdf_reliable W contents" and "system_inv contents qs s" and "FailAllocOneIn (fdo s) = 0"
    and "write_well_sized W q" and "stack_type (write_type W q s)"
    and "write_body_length W q \<le> body_limit (write_type W q s)"
    and "RadioPresent (fdo s)" and "RadioStarted (fdo s)"
    and "stack_waiting contents (write_type W q s) s = []"
    and "stack_backlog (write_type W q s) s = []"
    and "WdfRequestWdmGetIrp W r = irp" and "well_formed_read irp inLen outLen"
    and "read_type s (Type3InputBuffer irp) outLen = write_type W q s"
    and "unat (write_body_length W q) + 5 \<le> unat (IrpOutputBufferLength irp)"
  defines "send \<equiv> exec (WinVhciEvtIoWrite W q len)"
    and "receive \<equiv> exec (WinVhciBthxDispatch W r outLen inLen IOCTL_BTHX_READ_HCI)"
  shows "event_crossed contents W q r s (receive (send s))
    \<and> event_crossed contents W q r s (send (receive s))"
  unfolding send_def receive_def
  using wdf_reliable.write_then_read_crosses [OF assms(1-14)]
    wdf_reliable.read_then_write_crosses [OF assms(1,2,4-14)] by blast

lemma events_reach_the_stack_witness:
  "context_at (mem (exec (WinVhciBthxDispatch (ref_wdf ref_stack_env) 8 262 4 IOCTL_BTHX_READ_HCI)
     (exec (WinVhciEvtIoWrite (ref_wdf ref_stack_env) 9 3) (ref_event_written ref_radio))))
     0x2004 2 WINVHCI_H4_EVENT [0x0E, 0]"
proof -
  have "read_type (ref_event_written ref_radio) 0x2000 262 = WINVHCI_H4_EVENT"
    by (simp add: ref_event_written_def read_type_def load_ulong_def load_bytes_numeral
        bytes_ulong_def HciPacketEvent_def HciPacketAclData_def WINVHCI_HCI_CONTEXT_HEADER_SIZE_def
        Let_def)
  moreover have inv: "system_inv ref_contents (5, 2, 3) (ref_event_written ref_radio)"
    by (simp add: ref_event_state)
  ultimately show ?thesis
    using events_reach_the_stack [OF ref.wdf_reliable_axioms inv _ _ _ _ _ _ _ _ ref_stack_irp [of 8],
        where q = 9 and inLen = 4 and outLen = 262 and len = 3]
    by (simp add: event_crossed_def Let_def ref_event_write ref_event_state stack_type_def
        body_limit_def h4_limits stack_waiting_def stack_backlog_def stack_list_def
        well_formed_read_def WINVHCI_READ_TYPE_WORD_SIZE_def)
qed

section \<open>The version handshake\<close>

text \<open>
  C36. The version handshake. The driver answers \<open>GET_VERSION\<close> with the one version it speaks, in
  exactly the bytes of the structure, and when the same bytes come back with \<open>SET_VERSION\<close> that is
  the version it records; neither touches a channel. With a missing or short buffer each is refused
  with its own error and nothing is stored or recorded.
\<close>

theorem version_handshake:
  fixes W :: "'w wdf" and s :: "'w sys" and q r :: WDFREQUEST and len other :: SIZE_T
  assumes "\<And>v. length (BTHX_VERSION_bytes W v) = unat (sizeof_BTHX_VERSION W)"
    and "\<And>v. BTHX_VERSION_of_bytes W (BTHX_VERSION_bytes W v) = v"
    and "WdfRequestWdmGetIrp W q = irp" and "RequestorMode irp = KernelMode"
    and "WdfRequestWdmGetIrp W r = irp'" and "RequestorMode irp' = KernelMode"
    and "Type3InputBuffer irp' = UserBuffer irp"
  defines "get \<equiv> exec (WinVhciBthxDispatch W q len other IOCTL_BTHX_GET_VERSION)"
    and "set_back \<equiv> exec (WinVhciBthxDispatch W r other len IOCTL_BTHX_SET_VERSION)"
  shows "if UserBuffer irp = NULL \<or> len < sizeof_BTHX_VERSION W then
      get s = WdfRequestComplete q STATUS_BUFFER_TOO_SMALL (dispatched s)
      \<and> set_back s = WdfRequestComplete r STATUS_INVALID_PARAMETER (dispatched s)
    else
      delivered (mem s) (mem (get s)) (UserBuffer irp) (BTHX_VERSION_bytes W BTHX_DDI_VERSION_1)
      \<and> fdo (set_back (get s)) =
          (fdo s)\<lparr>IoctlCount := IoctlCount (fdo s) + 1 + 1, BthxVersion := BTHX_DDI_VERSION_1\<rparr>
      \<and> fw (set_back (get s)) = fw s \<and> mem (set_back (get s)) = mem (get s)
      \<and> completions (calls (set_back (get s))) = completions (calls s) +
          {#RequestComplete q STATUS_SUCCESS (sizeof_BTHX_VERSION W),
            RequestComplete r STATUS_SUCCESS 0#}"
proof (cases "UserBuffer irp = NULL \<or> len < sizeof_BTHX_VERSION W")
  case True
  then show ?thesis
    by (auto simp: get_def set_back_def BthxDispatch_exec [OF assms(3,4)]
        BthxDispatch_exec [OF assms(5,6)] bthx_switch_def bthx_get_version_def
        bthx_set_version_def assms(7) WdfRequestComplete_def)
next
  case False
  let ?v = "BTHX_VERSION_bytes W BTHX_DDI_VERSION_1"
  have size: "length ?v \<le> 2 ^ 64"
    using size_bound [of "sizeof_BTHX_VERSION W"] by (simp add: assms(1))
  have get: "get s = WdfRequestCompleteWithInformation q STATUS_SUCCESS (sizeof_BTHX_VERSION W)
      ((dispatched s)\<lparr>mem := store_bytes (mem s) (UserBuffer irp) ?v\<rparr>)"
    using False by (simp add: get_def BthxDispatch_exec [OF assms(3,4)] bthx_switch_def
        bthx_get_version_def)
  have "load_bytes (store_bytes (mem s) (UserBuffer irp) ?v) (UserBuffer irp)
      (unat (sizeof_BTHX_VERSION W)) = ?v"
    using load_store_same [OF size] by (simp add: assms(1))
  then have set_back: "set_back (get s) = WdfRequestCompleteWithInformation r STATUS_SUCCESS 0
      (upd_fdo (\<lambda>c. c\<lparr>BthxVersion := BTHX_DDI_VERSION_1\<rparr>) (dispatched (get s)))"
    using False by (simp add: set_back_def BthxDispatch_exec [OF assms(5,6)] bthx_switch_def
        bthx_set_version_def assms(2,7) get)
  show ?thesis
    using False delivered_store [OF size] unfolding set_back by (simp add: get add_mset_commute)
qed

definition ref_version_env :: ref_env where
  "ref_version_env = ref_env0\<lparr>
     env_irp := (\<lambda>r. \<lparr>RequestorMode = KernelMode, UserBuffer = 0x2000, Type3InputBuffer = 0x2000,
                      IrpOutputBufferLength = 4\<rparr>)\<rparr>"

lemma version_handshake_witness:
  "BthxVersion (fdo (exec (WinVhciBthxDispatch (ref_wdf ref_version_env) 8 0 4
       IOCTL_BTHX_SET_VERSION) (exec (WinVhciBthxDispatch (ref_wdf ref_version_env) 9 4 0
       IOCTL_BTHX_GET_VERSION) ref_radio))) = 1"
proof -
  have irp: "WdfRequestWdmGetIrp (ref_wdf ref_version_env) r = \<lparr>RequestorMode = KernelMode,
      UserBuffer = 0x2000, Type3InputBuffer = 0x2000, IrpOutputBufferLength = 4\<rparr>" for r
    by (simp add: ref_wdf_def ref_version_env_def)
  have laws: "length (BTHX_VERSION_bytes (ref_wdf ref_version_env) v)
      = unat (sizeof_BTHX_VERSION (ref_wdf ref_version_env))"
    "BTHX_VERSION_of_bytes (ref_wdf ref_version_env)
      (BTHX_VERSION_bytes (ref_wdf ref_version_env) v) = v"
    "sizeof_BTHX_VERSION (ref_wdf ref_version_env) = 4" for v
    by (simp_all add: ref_wdf_def)
  show ?thesis
    using version_handshake [OF laws(1,2) irp [of 9] _ irp [of 8], where s = ref_radio and len = 4
        and other = 0] laws(3)
    by (simp add: BTHX_DDI_VERSION_1_def)
qed

section \<open>Device creation that fails\<close>

text \<open>
  C37. Adding the device makes its thirteen framework calls in order and stops at the first that
  fails, whose status it returns; nothing is created after a failure, and success means that every
  call succeeded: exclusive access and buffered I/O are set before the device exists, the lock
  exists before any queue, and the queues before the name by which userspace could reach them.
\<close>

theorem device_add_stops_at_the_first_failure:
  "\<exists>cs. calls (exec (WinVhciEvtDeviceAdd W) s) = calls s @ cs
     \<and> follows device_add_plan cs (result (WinVhciEvtDeviceAdd W) s)"
  using DeviceAdd_obeys [of W] unfolding obeys_def by blast

end
