(* ===== verification/Spec2Isabelle.thy ===== *)
theory Spec2Isabelle
  imports System_Properties
begin

text \<open>
  \<^bold>\<open>winvhci: a virtual Bluetooth HCI controller for Windows\<close>

  The driver (\<open>winvhci/\<close>) is a root-enumerated KMDF function driver. A userspace program (a
  controller simulator) opens \<open>\\.\WinVhci\<close>, writes a control packet, and the driver reports a child
  device, the radio PDO, on which Windows loads its own Bluetooth stack. From then on the driver moves
  HCI packets: what the stack sends with \<open>IOCTL_BTHX_WRITE_HCI\<close> is read by the program with
  \<open>ReadFile\<close>, what the program writes with \<open>WriteFile\<close> answers the stack's
  \<open>IOCTL_BTHX_READ_HCI\<close>. Whichever side arrives first waits: a read on a manual queue, a packet on a
  list. Closing the handle removes the radio.

  \<^bold>\<open>Theories, and the code each models\<close>

  \<^item> \<open>Vhci_Prelude\<close>: the C types at their width, a 32-bit counter beside a list, the collections of
    facts (\<open>region_inv\<close>, \<open>pool_simps\<close>, \<open>settled_simps\<close>, \<open>calm_simps\<close>, \<open>ctx_simps\<close>).
  \<^item> \<open>Kernel_Memory\<close>: byte-addressed memory, little-endian words, and the packed
    \<open>BTHX_HCI_READ_WRITE_CONTEXT\<close> of \<open>winvhci.h\<close>.
  \<^item> \<open>Wdf_Interface\<close>: the framework, the pool and the registry as parameters (a record \<open>wdf\<close> of
    functions), and what the driver relies on as the locales \<open>wdf_queues\<close>, \<open>wdf_reliable\<close>
    (nothing is ever short) and \<open>wdf_creation\<close>.
  \<^item> \<open>Locked_Regions\<close>: a handler is a tree of indivisible steps, one per locked region or stretch of
    unlocked code; \<open>conc_reach\<close> interleaves any number of handlers step by step.
  \<^item> \<open>Winvhci_Types\<close> (\<open>winvhci.h\<close>): limits, packet types, \<open>WINVHCI_FDO_CONTEXT\<close> and
    \<open>WINVHCI_PDO_CONTEXT\<close> field by field, the driver's state \<open>sys\<close> with the log of its calls.
  \<^item> \<open>Packet_Pool\<close> (\<open>WinVhciAllocPacket\<close>, \<open>WinVhciFreeList\<close>), \<open>User_Channel\<close>
    (\<open>WinVhciQueueToUser\<close>, \<open>WinVhciEvtIoRead\<close>), \<open>Stack_Channel\<close> (\<open>WinVhciDeliverToStack\<close>,
    \<open>WinVhciTakeOrParkForStack\<close>, \<open>WinVhciCompleteRead\<close>): the data path.
  \<^item> \<open>Radio_Pdo\<close> (\<open>pdo.c\<close>, \<open>WinVhciRadioStackDown\<close>, \<open>WinVhciPurgeBacklogs\<close>), \<open>Control_Device\<close>
    (the rest of \<open>user.c\<close>), \<open>Bthx_Transport\<close> (the BTHX requests of \<open>fdo.c\<close>), \<open>Driver_Setup\<close>
    (\<open>driver.c\<close>, queue creation, self-managed I/O cleanup).
  \<^item> \<open>Rendezvous\<close>: the rule the three channels obey, as a locale with its specification on two
    lists; \<open>User_Channel\<close> and \<open>Stack_Channel\<close> interpret it on the driver's locked regions.
    \<open>Channel_Mix\<close> puts the three side by side: none disturbs another (\<open>rendezvous_family\<close>).
  \<^item> \<open>Invariants\<close>, \<open>Interleavings\<close>: the invariant \<open>system_inv\<close>, region by region, and its lift
    to every interleaving of the handlers the framework may dispatch (\<open>spawns\<close>).
  \<^item> \<open>Ledger\<close>, \<open>Conservation\<close>, \<open>Request_Ledger\<close>: what a handler holds between its regions, for
    packet allocations and for requests. \<open>Device_Creation\<close> follows a successful device add, and
    \<open>Setup_Order\<close> the order of its calls and where it stops.
  \<^item> \<open>Histories\<close>, \<open>Dispatches\<close>: interleavings that remember which callback was dispatched with which
    request and what the framework took away (purged or cancelled), and the exact account of
    requests over them (the locale \<open>account\<close>): \<open>holds\<close> is what a handler in flight still has to
    settle, \<open>gone\<close> what was taken away. \<open>Quiet_Steps\<close> has what most regions leave alone,
    \<open>Radio_Census\<close> is the same account for the live radios, \<open>Bounded_Handlers\<close> bounds the steps of
    every handler, \<open>Purge_Waits\<close> says what a synchronous purge can wait for.
  \<^item> \<open>End_To_End\<close>: a packet through the sender's and the receiver's handler, in both orders.
  \<^item> \<open>Reference_Framework\<close>: a concrete framework meeting every contract; the witnesses run on it.
    \<open>Reference_Run\<close> is a run on it from the moment the device is added to a queued event.
  \<^item> \<open>Channel_Properties\<close>, \<open>Handler_Properties\<close>, \<open>Transport_Properties\<close>, \<open>Bthx_Properties\<close>,
    \<open>Radio_Properties\<close>, \<open>System_Properties\<close>: the properties.

  \<^bold>\<open>How the code is read\<close>

  One definition per function, named like it; a function with locked regions has one more definition
  per region (\<open>..._locked\<close>). \<open>atomically\<close> and \<open>act\<close> are one indivisible step, \<open>observe\<close> reads the
  state without changing it. The creation of a PDO is a region per framework call, and making the
  object, filling its context and counting it are three. \<open>acquire\<close> and \<open>release\<close> log the lock, so
  that what is called under it can be told (\<open>lock_discipline\<close>). Integers keep their width and wrap. Statuses are 32-bit words and
  \<open>NT_SUCCESS\<close> is their sign. A linked list of packets is an Isabelle list of records; the pool is
  the number of allocations out. A PDO callback is given the context of its PDO.

  \<^bold>\<open>Bounds\<close>

  Every function of the driver ends: the model needs no fuel, a handler is a finite tree of at most
  thirteen regions (\<open>handler_within\<close>; the longest is the creation of a PDO) and the one loop
  (\<open>WinVhciFreeList\<close>) recurs on its list. A handler waits in two places only. The spin lock is held
  within a region and given back at its end. \<open>WdfIoQueuePurgeSynchronously\<close> waits for the requests of
  the queue it purges; in the model its region is the moment that wait is over, and what is proved is
  that the wait is not circular: a handler at a purge holds no request, so none of those waited for is
  at a purge (\<open>handlers_return\<close>). The counters are exact up to \<open>2 ^ 32\<close> packets; the invariant says
  what they are beyond that (the length modulo \<open>2 ^ 32\<close>, the peak at its maximum).

  \<^bold>\<open>Not modelled\<close>

  \<^item> \<open>WinVhciLogHciPacket\<close> and every \<open>KdPrint\<close>: debug output, compiled out of a release build.
  \<^item> \<open>bthxddi.h\<close>, the WDK and the framework: parameters. The five control codes are constructors
    of a datatype; sizes and layouts of \<open>BTHX_VERSION\<close> and \<open>BTHX_CAPABILITIES\<close> are fields of \<open>wdf\<close>.
  \<^item> The input of a \<open>WRITE_HCI\<close> is read once (the code reads its length three times): its caller
    is in kernel mode and leaves the buffer alone until the request is completed.
  \<^item> The time a synchronous purge spends waiting (see above): no handler is shown blocked at one.
  \<^item> \<open>WinVhciBthxDispatch\<close> also compares its two buffer pointers for a \<open>KdPrint\<close>; that is left out.
  \<^item> IRQL and paging (\<open>PAGED_CODE\<close>), pool tags, unicode strings (plain strings here).
  \<^item> The Python package, the tools, the build and test scripts: other programs.
\<close>

end
